theory Spec2Isabelle
  imports Complex_Main "HOL-Library.Word"
begin

section \<open>XCDF expression compiler: data model\<close>

text \<open>
  The development follows \<^verbatim>\<open>src/src/Expression.cc\<close> and
  \<^verbatim>\<open>src/include/xcdf/utility/EventSelectExpression.h\<close>.
  A \<^verbatim>\<open>Symbol*\<close> is a value of type \<open>symbol\<close>; the \<^verbatim>\<open>std::list<Symbol*>\<close>
  of parsed symbols is a \<open>symbol list\<close>; \<^verbatim>\<open>XCDFFatal\<close> is the left injection
  of a sum type. The three element types are \<^verbatim>\<open>uint64_t\<close>, \<^verbatim>\<open>int64_t\<close>
  (both 64-bit words) and \<^verbatim>\<open>double\<close>. A \<^verbatim>\<open>double\<close> is represented
  by the real number it denotes: rounding, NaN and the infinities are outside the model.
\<close>

subsection \<open>Symbol types\<close>

text \<open>
  The enumeration \<^verbatim>\<open>SymbolType\<close> with the enumerators that
  \<^verbatim>\<open>Expression.cc\<close> uses. \<open>NO_SYMBOL\<close> stands for the type of a
  default-constructed \<^verbatim>\<open>Symbol()\<close>; \<open>ALL'\<close>, \<open>SUM'\<close> and \<open>INT'\<close> are the
  enumerators \<^verbatim>\<open>ALL\<close>, \<open>SUM\<close> and \<open>INT\<close>, whose names are taken in HOL.
\<close>

datatype SymbolType =
    NO_SYMBOL
  | FLOATING_POINT_NODE | SIGNED_NODE | UNSIGNED_NODE
  | ADDITION | SUBTRACTION | MULTIPLICATION | DIVISION | MODULUS | POWER
  | OPEN_PARAND | CLOSE_PARAND
  | EQUALITY | INEQUALITY | GREATER_THAN | LESS_THAN
  | GREATER_THAN_EQUAL | LESS_THAN_EQUAL
  | LOGICAL_OR | LOGICAL_AND | BITWISE_OR | BITWISE_AND
  | LOGICAL_NOT | BITWISE_NOT | COMMA
  | UNIQUE | ANY | ALL' | SUM' | SIN | COS | TAN | ASIN | ACOS | ATAN
  | LOG | LOG10 | EXP | ABS | SQRT | CEIL | FLOOR | ISNAN | ISINF
  | SINH | COSH | TANH | RAND | FMOD | POW | INT' | UNSIGNED | DOUBLE
  | ATAN2 | IN | LIST

text \<open>The template parameter \<^verbatim>\<open>T\<close> of \<^verbatim>\<open>Node<T>\<close>.\<close>

datatype etype = U64T | I64T | F64T

datatype scalar = U64 "64 word" | I64 "64 word" | F64 real

fun scalar_type :: "scalar \<Rightarrow> etype" where
  "scalar_type (U64 _) = U64T"
| "scalar_type (I64 _) = I64T"
| "scalar_type (F64 _) = F64T"

text \<open>
  The node classes that \<^verbatim>\<open>GetNodeImpl\<close> instantiates, one constructor for
  each class template.
\<close>

datatype unary_class =
    LogicalNOTNode | BitwiseNOTNode | UniqueNode | AnyNode | AllNode | SumNode
  | SinNode | CosNode | TanNode | AsinNode | AcosNode | AtanNode
  | LogNode | Log10Node | ExpNode | AbsNode | SqrtNode | CeilNode | FloorNode
  | IsNaNNode | IsInfNode | SinhNode | CoshNode | TanhNode
  | IntNode | UnsignedNode | DoubleNode

datatype binary_class =
    EqualityNode | InequalityNode | GreaterThanNode | LessThanNode
  | GreaterThanEqualNode | LessThanEqualNode | LogicalORNode | LogicalANDNode
  | BitwiseORNode | BitwiseANDNode | AdditionNode | SubtractionNode
  | MultiplicationNode | DivisionNode | ModulusNode | PowerNode | FmodNode
  | Atan2Node

text \<open>
  A node of the evaluation tree. \<open>Binary c n1 n2\<close> is
  \<^verbatim>\<open>new c<T, U, DominantType>(*n1, *n2)\<close>, where \<open>T\<close> and \<open>U\<close> are the element
  types of the operands; \<^verbatim>\<open>DoGetNode\<close> derives the \<^verbatim>\<open>DominantType\<close> from them,
  so the node does not store it.
\<close>

datatype node =
    FieldNode etype string
  | AliasNode etype string
  | CounterNode
  | ConstNode scalar
  | Unary unary_class node
  | Binary binary_class node node
  | InNode node "scalar list"
  | RandNode

datatype symbol = Symbol SymbolType | Node node | ListSymbol "symbol list"

datatype error =
    NoEvaluationExpression
  | InvalidExpression
  | MissingOpenParen
  | CannotParseExpression
  | UnpairedCloseParen
  | UnpairedOpenParen
  | MissingUnaryOperand
  | TooManyUnaryArguments
  | MissingBinaryOperand
  | TooManyBinaryArguments
  | TooManyVoidArguments
  | NonConstantInList
  | BitwiseOnFloatingPoint
  | ExpressionDoesNotEvaluate

subsection \<open>The record source\<close>

text \<open>
  The part of \<^verbatim>\<open>XCDFFile\<close> that the expression code reads: the declared
  fields and aliases with their element types, and, for the current event, the
  contents of each field and alias and the event count.
\<close>

record xcdf_file =
  field_type :: "string \<rightharpoonup> etype"
  alias_type :: "string \<rightharpoonup> etype"
  field_data :: "string \<Rightarrow> scalar list"
  alias_data :: "string \<Rightarrow> scalar list"
  current_event_number :: "64 word"

definition HasField :: "xcdf_file \<Rightarrow> string \<Rightarrow> bool" where
  "HasField f name = (field_type f name \<noteq> None)"

definition IsUnsignedIntegerField :: "xcdf_file \<Rightarrow> string \<Rightarrow> bool" where
  "IsUnsignedIntegerField f name = (field_type f name = Some U64T)"

definition IsSignedIntegerField :: "xcdf_file \<Rightarrow> string \<Rightarrow> bool" where
  "IsSignedIntegerField f name = (field_type f name = Some I64T)"

definition HasAlias :: "xcdf_file \<Rightarrow> string \<Rightarrow> bool" where
  "HasAlias f name = (alias_type f name \<noteq> None)"

definition IsUnsignedIntegerAlias :: "xcdf_file \<Rightarrow> string \<Rightarrow> bool" where
  "IsUnsignedIntegerAlias f name = (alias_type f name = Some U64T)"

definition IsSignedIntegerAlias :: "xcdf_file \<Rightarrow> string \<Rightarrow> bool" where
  "IsSignedIntegerAlias f name = (alias_type f name = Some I64T)"

section \<open>Strings and stream extraction\<close>

text \<open>
  The members of \<^verbatim>\<open>std::string\<close> that the tokenizer calls. A position is a
  \<open>nat\<close>; the result \<^verbatim>\<open>npos\<close> is \<open>None\<close>.
\<close>

definition find_first_of :: "string \<Rightarrow> string \<Rightarrow> nat \<Rightarrow> nat option" where
  "find_first_of s cs pos = List.find (\<lambda>i. s ! i \<in> set cs) [pos ..< length s]"

definition find_first_not_of :: "string \<Rightarrow> string \<Rightarrow> nat \<Rightarrow> nat option" where
  "find_first_not_of s cs pos = List.find (\<lambda>i. s ! i \<notin> set cs) [pos ..< length s]"

text \<open>The backward searches start at \<open>pos\<close>, or at the last character when \<open>pos\<close> is beyond it.\<close>

definition find_last_of :: "string \<Rightarrow> string \<Rightarrow> nat \<Rightarrow> nat option" where
  "find_last_of s cs pos =
     List.find (\<lambda>i. s ! i \<in> set cs) (rev [0 ..< min (Suc pos) (length s)])"

definition find_last_not_of :: "string \<Rightarrow> string \<Rightarrow> nat \<Rightarrow> nat option" where
  "find_last_not_of s cs pos =
     List.find (\<lambda>i. s ! i \<notin> set cs) (rev [0 ..< min (Suc pos) (length s)])"

definition substr :: "string \<Rightarrow> nat \<Rightarrow> nat \<Rightarrow> string" where
  "substr s pos n = take n (drop pos s)"

text \<open>\<^verbatim>\<open>numerical.find(pattern)\<close>: does \<open>pattern\<close> occur in \<open>s\<close>?\<close>

fun contains :: "string \<Rightarrow> string \<Rightarrow> bool" where
  "contains pattern [] = (pattern = [])"
| "contains pattern (c # s) = (take (length pattern) (c # s) = pattern \<or> contains pattern s)"

text \<open>
  Formatted extraction \<^verbatim>\<open>ss >> out\<close> from a \<^verbatim>\<open>std::stringstream\<close>, in the
  classic locale: leading white space is skipped, the longest prefix that has the shape
  of a number is consumed and converted, and the extraction fails when there is no digit
  or the value is out of range. The result is the value and what the stream has left.
\<close>

definition isspace :: "char \<Rightarrow> bool" where
  "isspace c = (c \<in> set [CHR '' '', CHR 0x09, CHR 0x0A, CHR 0x0B, CHR 0x0C, CHR 0x0D])"

definition digit_value :: "char \<Rightarrow> nat" where
  "digit_value c =
     (let k = of_char c in
      if of_char CHR ''0'' \<le> k \<and> k \<le> of_char CHR ''9'' then k - of_char CHR ''0''
      else if of_char CHR ''a'' \<le> k \<and> k \<le> of_char CHR ''f'' then k - of_char CHR ''a'' + 10
      else if of_char CHR ''A'' \<le> k \<and> k \<le> of_char CHR ''F'' then k - of_char CHR ''A'' + 10
      else 16)"

definition is_digit :: "nat \<Rightarrow> char \<Rightarrow> bool" where
  "is_digit base c = (digit_value c < base)"

fun digits_value :: "nat \<Rightarrow> nat \<Rightarrow> string \<Rightarrow> nat" where
  "digits_value base acc [] = acc"
| "digits_value base acc (c # cs) = digits_value base (acc * base + digit_value c) cs"

fun strip_sign :: "string \<Rightarrow> bool \<times> string" where
  "strip_sign (c # cs) =
     (if c = CHR ''-'' then (True, cs) else if c = CHR ''+'' then (False, cs)
      else (False, c # cs))"
| "strip_sign [] = (False, [])"

fun strip_hex_prefix :: "nat \<Rightarrow> string \<Rightarrow> string" where
  "strip_hex_prefix base (c # d # cs) =
     (if base = 16 \<and> c = CHR ''0'' \<and> (d = CHR ''x'' \<or> d = CHR ''X'') then cs
      else c # d # cs)"
| "strip_hex_prefix base cs = cs"

text \<open>The sign, the magnitude and the rest of the stream; \<open>None\<close> when no digit is found.\<close>

definition extract_integer :: "nat \<Rightarrow> string \<Rightarrow> (bool \<times> nat \<times> string) option" where
  "extract_integer base s =
     (let (negative, s1) = strip_sign (dropWhile isspace s);
          s2 = strip_hex_prefix base s1;
          ds = takeWhile (is_digit base) s2
      in if ds = [] then None
         else Some (negative, digits_value base 0 ds, dropWhile (is_digit base) s2))"

text \<open>
  \<^verbatim>\<open>uint64_t\<close>: as \<^verbatim>\<open>strtoull\<close>, a minus sign negates modulo \<open>2^64\<close>; a
  magnitude above \<open>2^64 - 1\<close> fails.
\<close>

definition extract_uint64 :: "nat \<Rightarrow> string \<Rightarrow> (64 word \<times> string) option" where
  "extract_uint64 base s =
     (case extract_integer base s of
        None \<Rightarrow> None
      | Some (negative, m, rest) \<Rightarrow>
          if m \<ge> 2 ^ 64 then None
          else Some (if negative then - word_of_nat m else word_of_nat m, rest))"

text \<open>\<^verbatim>\<open>int64_t\<close>: the value has to lie between \<open>- 2^63\<close> and \<open>2^63 - 1\<close>.\<close>

definition extract_int64 :: "nat \<Rightarrow> string \<Rightarrow> (64 word \<times> string) option" where
  "extract_int64 base s =
     (case extract_integer base s of
        None \<Rightarrow> None
      | Some (negative, m, rest) \<Rightarrow>
          if (if negative then m > 2 ^ 63 else m \<ge> 2 ^ 63) then None
          else Some (if negative then - word_of_nat m else word_of_nat m, rest))"

text \<open>
  \<^verbatim>\<open>double\<close>: an optional sign, digits with at most one decimal point, and,
  after at least one digit, an exponent: \<^verbatim>\<open>e\<close> or \<^verbatim>\<open>E\<close>, an optional sign and
  digits. The characters are collected first and converted as a whole, so a mantissa
  without digits or an exponent without digits fails. A magnitude that rounds beyond
  the largest \<^verbatim>\<open>double\<close> fails.
\<close>

definition is_exponent_char :: "char \<Rightarrow> bool" where
  "is_exponent_char c = (c = CHR ''e'' \<or> c = CHR ''E'')"

definition extract_exponent :: "string \<Rightarrow> (int \<times> string) option" where
  "extract_exponent s =
     (case s of
        [] \<Rightarrow> Some (0, [])
      | c # cs \<Rightarrow>
          if is_exponent_char c then
            (let (negative, s1) = strip_sign cs;
                 ds = takeWhile (is_digit 10) s1;
                 e = int (digits_value 10 0 ds)
             in if ds = [] then None
                else Some (if negative then - e else e, dropWhile (is_digit 10) s1))
          else Some (0, c # cs))"

definition scale10 :: "real \<Rightarrow> int \<Rightarrow> real" where
  "scale10 x e = (if e < 0 then x / 10 ^ nat (- e) else x * 10 ^ nat e)"

definition extract_double :: "string \<Rightarrow> (real \<times> string) option" where
  "extract_double s =
     (let (negative, s1) = strip_sign (dropWhile isspace s);
          ip = takeWhile (is_digit 10) s1;
          s2 = dropWhile (is_digit 10) s1;
          has_point = (s2 \<noteq> [] \<and> hd s2 = CHR ''.'');
          s3 = (if has_point then tl s2 else s2);
          fp = (if has_point then takeWhile (is_digit 10) s3 else []);
          s4 = (if has_point then dropWhile (is_digit 10) s3 else s3)
      in if ip = [] \<and> fp = [] then None
         else
           (case extract_exponent s4 of
              None \<Rightarrow> None
            | Some (e, rest) \<Rightarrow>
                (let m = real (digits_value 10 0 (ip @ fp));
                     v = scale10 m (e - int (length fp))
                 in if v \<ge> 2 ^ 1024 - 2 ^ 970 then None
                    else Some (if negative then - v else v, rest))))"

section \<open>Classification of tokens\<close>

text \<open>
  \<^verbatim>\<open>DoConstNode<T>(numerical, manip)\<close>: the extraction has to succeed, and the
  second extraction \<^verbatim>\<open>ss >> s\<close> has to find no further characters.
\<close>

definition no_unconverted :: "string \<Rightarrow> bool" where
  "no_unconverted rest = (dropWhile isspace rest = [])"

definition DoConstNode_uint64 :: "string \<Rightarrow> nat \<Rightarrow> symbol option" where
  "DoConstNode_uint64 numerical base =
     (case extract_uint64 base numerical of
        None \<Rightarrow> None
      | Some (out, rest) \<Rightarrow>
          if no_unconverted rest then Some (Node (ConstNode (U64 out))) else None)"

definition DoConstNode_int64 :: "string \<Rightarrow> nat \<Rightarrow> symbol option" where
  "DoConstNode_int64 numerical base =
     (case extract_int64 base numerical of
        None \<Rightarrow> None
      | Some (out, rest) \<Rightarrow>
          if no_unconverted rest then Some (Node (ConstNode (I64 out))) else None)"

definition DoConstNode_double :: "string \<Rightarrow> symbol option" where
  "DoConstNode_double numerical =
     (case extract_double numerical of
        None \<Rightarrow> None
      | Some (out, rest) \<Rightarrow>
          if no_unconverted rest then Some (Node (ConstNode (F64 out))) else None)"

text \<open>
  \<^verbatim>\<open>Expression::ParseNumerical\<close>. The array \<^verbatim>\<open>char hex[2] = {'X', 'x'}\<close> has
  no terminating zero, so \<^verbatim>\<open>numerical.find(hex)\<close> searches for the two characters
  \<^verbatim>\<open>Xx\<close> followed by the bytes \<open>mem\<close> that lie behind the array up to the next zero
  byte.
\<close>

definition or_else :: "'a option \<Rightarrow> 'a option \<Rightarrow> 'a option" where
  "or_else out alt = (case out of None \<Rightarrow> alt | Some v \<Rightarrow> Some v)"

definition ParseNumerical_mem :: "string \<Rightarrow> string \<Rightarrow> symbol option" where
  "ParseNumerical_mem mem numerical =
     (let out0 = (if contains (''Xx'' @ mem) numerical
                  then DoConstNode_uint64 numerical 16 else None);
          out1 = or_else out0 (DoConstNode_uint64 numerical 10);
          out2 = or_else out1 (DoConstNode_int64 numerical 10)
      in or_else out2 (DoConstNode_double numerical))"

definition ParseNumerical :: "string \<Rightarrow> symbol option" where
  "ParseNumerical numerical = ParseNumerical_mem [] numerical"

text \<open>The keywords of \<^verbatim>\<open>Expression::ParseValueImpl\<close>, in the order of the source.\<close>

definition keyword_table :: "(string \<times> symbol) list" where
  "keyword_table =
    [(''in'', Symbol IN), (''unique'', Symbol UNIQUE), (''any'', Symbol ANY),
     (''all'', Symbol ALL'), (''sum'', Symbol SUM'), (''sin'', Symbol SIN),
     (''cos'', Symbol COS), (''tan'', Symbol TAN), (''asin'', Symbol ASIN),
     (''acos'', Symbol ACOS), (''atan'', Symbol ATAN), (''log'', Symbol LOG),
     (''log10'', Symbol LOG10), (''exp'', Symbol EXP), (''abs'', Symbol ABS),
     (''fabs'', Symbol ABS), (''sqrt'', Symbol SQRT), (''ceil'', Symbol CEIL),
     (''floor'', Symbol FLOOR), (''isnan'', Symbol ISNAN), (''isinf'', Symbol ISINF),
     (''sinh'', Symbol SINH), (''cosh'', Symbol COSH), (''tanh'', Symbol TANH),
     (''rand'', Symbol RAND), (''fmod'', Symbol FMOD), (''pow'', Symbol POW),
     (''int'', Symbol INT'), (''unsigned'', Symbol UNSIGNED), (''float'', Symbol DOUBLE),
     (''double'', Symbol DOUBLE), (''atan2'', Symbol ATAN2),
     (''true'', Node (ConstNode (U64 1))), (''false'', Node (ConstNode (U64 0)))]"

definition ParseValueImpl :: "xcdf_file \<Rightarrow> string \<Rightarrow> symbol option" where
  "ParseValueImpl f expr =
     (if HasField f expr then
        (if IsUnsignedIntegerField f expr then Some (Node (FieldNode U64T expr))
         else if IsSignedIntegerField f expr then Some (Node (FieldNode I64T expr))
         else Some (Node (FieldNode F64T expr)))
      else if HasAlias f expr then
        (if IsUnsignedIntegerAlias f expr then Some (Node (AliasNode U64T expr))
         else if IsSignedIntegerAlias f expr then Some (Node (AliasNode I64T expr))
         else Some (Node (AliasNode F64T expr)))
      else if expr = ''currentEventNumber'' then Some (Node CounterNode)
      else
        (case ParseNumerical expr of
           Some numerical \<Rightarrow> Some numerical
         | None \<Rightarrow> map_of keyword_table expr))"

definition ParseOperatorImpl :: "string \<Rightarrow> symbol option" where
  "ParseOperatorImpl expr =
     map_of
       [(''+'', Symbol ADDITION), (''-'', Symbol SUBTRACTION),
        (''*'', Symbol MULTIPLICATION), (''/'', Symbol DIVISION),
        (''%'', Symbol MODULUS), (''^'', Symbol POWER),
        (''('', Symbol OPEN_PARAND), ('')'', Symbol CLOSE_PARAND),
        (''=='', Symbol EQUALITY), (''!='', Symbol INEQUALITY),
        (''>'', Symbol GREATER_THAN), (''<'', Symbol LESS_THAN),
        (''>='', Symbol GREATER_THAN_EQUAL), (''<='', Symbol LESS_THAN_EQUAL),
        (''||'', Symbol LOGICAL_OR), (''&&'', Symbol LOGICAL_AND),
        (''|'', Symbol BITWISE_OR), (''&'', Symbol BITWISE_AND),
        (''!'', Symbol LOGICAL_NOT), (''~'', Symbol BITWISE_NOT),
        ('','', Symbol COMMA)] expr"

section \<open>Symbols\<close>

text \<open>
  Modelled from the spec: the members of \<^verbatim>\<open>Symbol\<close> (\<^verbatim>\<open>Symbol.h\<close> is not
  part of the sources). The classification follows the lists of section 3.3: the unary
  functions, the binary functions \<^verbatim>\<open>fmod\<close>, \<^verbatim>\<open>pow\<close>, \<^verbatim>\<open>atan2\<close>, \<^verbatim>\<open>in\<close>, the
  void function \<^verbatim>\<open>rand\<close>, the comparisons and the equalities.
\<close>

definition IsNode :: "symbol \<Rightarrow> bool" where
  "IsNode s = (case s of Node _ \<Rightarrow> True | _ \<Rightarrow> False)"

definition unary_function_types :: "SymbolType list" where
  "unary_function_types =
     [UNIQUE, ANY, ALL', SUM', SIN, COS, TAN, ASIN, ACOS, ATAN, LOG, LOG10, EXP, ABS,
      SQRT, CEIL, FLOOR, ISNAN, ISINF, SINH, COSH, TANH, INT', UNSIGNED, DOUBLE]"

definition is_unary_function_type :: "SymbolType \<Rightarrow> bool" where
  "is_unary_function_type t = (t \<in> set unary_function_types)"

definition is_binary_function_type :: "SymbolType \<Rightarrow> bool" where
  "is_binary_function_type t = (t \<in> set [FMOD, POW, ATAN2, IN])"

definition is_void_function_type :: "SymbolType \<Rightarrow> bool" where
  "is_void_function_type t = (t = RAND)"

definition is_comparison_type :: "SymbolType \<Rightarrow> bool" where
  "is_comparison_type t =
     (t \<in> set [GREATER_THAN, LESS_THAN, GREATER_THAN_EQUAL, LESS_THAN_EQUAL])"

definition is_equality_type :: "SymbolType \<Rightarrow> bool" where
  "is_equality_type t = (t \<in> set [EQUALITY, INEQUALITY])"

text \<open>
  Modelled from the spec: the element type of a node (\<^verbatim>\<open>NodeDefs.h\<close> is not part of
  the sources), after section 4.4. Comparisons, equalities and the logical operators
  give \<^verbatim>\<open>uint64_t\<close>, as do \<^verbatim>\<open>any\<close>, \<^verbatim>\<open>all\<close>, \<^verbatim>\<open>unique\<close>, \<^verbatim>\<open>isnan\<close>,
  \<^verbatim>\<open>isinf\<close> and \<^verbatim>\<open>in\<close>; \<^verbatim>\<open>abs\<close>, \<^verbatim>\<open>sum\<close> and bitwise negation keep
  the type of the operand; arithmetic and the bitwise operators give the dominant type;
  the other functions give \<^verbatim>\<open>double\<close>.
\<close>

fun dominant :: "etype \<Rightarrow> etype \<Rightarrow> etype" where
  "dominant F64T _ = F64T"
| "dominant I64T F64T = F64T"
| "dominant I64T I64T = I64T"
| "dominant I64T U64T = I64T"
| "dominant U64T F64T = F64T"
| "dominant U64T I64T = I64T"
| "dominant U64T U64T = U64T"

fun node_type :: "node \<Rightarrow> etype" where
  "node_type (FieldNode t _) = t"
| "node_type (AliasNode t _) = t"
| "node_type CounterNode = U64T"
| "node_type (ConstNode v) = scalar_type v"
| "node_type (Unary c n) =
     (if c \<in> set [LogicalNOTNode, UniqueNode, AnyNode, AllNode, IsNaNNode, IsInfNode,
                   UnsignedNode] then U64T
      else if c \<in> set [BitwiseNOTNode, SumNode, AbsNode] then node_type n
      else if c = IntNode then I64T
      else F64T)"
| "node_type (Binary c n1 n2) =
     (if c \<in> set [EqualityNode, InequalityNode, GreaterThanNode, LessThanNode,
                   GreaterThanEqualNode, LessThanEqualNode, LogicalORNode, LogicalANDNode]
      then U64T
      else if c \<in> set [PowerNode, FmodNode, Atan2Node] then F64T
      else dominant (node_type n1) (node_type n2))"
| "node_type (InNode _ _) = U64T"
| "node_type RandNode = F64T"

fun GetType :: "symbol \<Rightarrow> SymbolType" where
  "GetType (Symbol t) = t"
| "GetType (Node n) =
     (case node_type n of
        F64T \<Rightarrow> FLOATING_POINT_NODE | I64T \<Rightarrow> SIGNED_NODE | U64T \<Rightarrow> UNSIGNED_NODE)"
| "GetType (ListSymbol _) = LIST"

declare GetType.simps(2) [simp del]

definition IsUnaryFunction :: "symbol \<Rightarrow> bool" where
  "IsUnaryFunction s = is_unary_function_type (GetType s)"

definition IsBinaryFunction :: "symbol \<Rightarrow> bool" where
  "IsBinaryFunction s = is_binary_function_type (GetType s)"

definition IsVoidFunction :: "symbol \<Rightarrow> bool" where
  "IsVoidFunction s = is_void_function_type (GetType s)"

definition IsFunction :: "symbol \<Rightarrow> bool" where
  "IsFunction s = (IsUnaryFunction s \<or> IsBinaryFunction s \<or> IsVoidFunction s)"

definition IsComparison :: "symbol \<Rightarrow> bool" where
  "IsComparison s = is_comparison_type (GetType s)"

definition IsEquality :: "symbol \<Rightarrow> bool" where
  "IsEquality s = is_equality_type (GetType s)"

section \<open>The tokenizer\<close>

definition whitespace :: string where
  "whitespace = [CHR '' '', CHR 0x0A, CHR 0x0D, CHR 0x09]"

definition operator_chars :: string where
  "operator_chars = '',/*%^)(=><&|!~''"

definition operator_tail_chars :: string where
  "operator_tail_chars = '',/*%^=><&|!~''"

definition sign_chars :: string where
  "sign_chars = ''+-''"

lemma find_first_of_Some:
  "find_first_of s cs pos = Some i \<Longrightarrow> pos \<le> i \<and> i < length s \<and> s ! i \<in> set cs"
  by (auto simp: find_first_of_def find_Some_iff)

lemma find_first_not_of_Some:
  "find_first_not_of s cs pos = Some i \<Longrightarrow> pos \<le> i \<and> i < length s \<and> s ! i \<notin> set cs"
  by (auto simp: find_first_not_of_def find_Some_iff)

lemma find_last_of_Some:
  "find_last_of s cs pos = Some i \<Longrightarrow> i \<le> pos \<and> i < length s \<and> s ! i \<in> set cs"
proof -
  assume "find_last_of s cs pos = Some i"
  then have "i \<in> set (rev [0 ..< min (Suc pos) (length s)])" and "s ! i \<in> set cs"
    unfolding find_last_of_def find_Some_iff by (metis nth_mem)+
  then show ?thesis by auto
qed

lemma find_last_not_of_Some:
  "find_last_not_of s cs pos = Some i \<Longrightarrow> i \<le> pos \<and> i < length s \<and> s ! i \<notin> set cs"
proof -
  assume "find_last_not_of s cs pos = Some i"
  then have "i \<in> set (rev [0 ..< min (Suc pos) (length s)])" and "s ! i \<notin> set cs"
    unfolding find_last_not_of_def find_Some_iff by (metis nth_mem)+
  then show ?thesis by auto
qed

text \<open>
  \<^verbatim>\<open>Expression::ParseOperator\<close>. The loop extends the operator over the operator
  characters that follow it directly; a parenthesis stands alone.
\<close>

function operator_end :: "string \<Rightarrow> nat \<Rightarrow> nat" where
  "operator_end expr endpos =
     (if find_first_of expr operator_tail_chars (endpos + 1) = Some (endpos + 1)
      then operator_end expr (endpos + 1) else endpos)"
  by pat_completeness auto
termination
  by (relation "measure (\<lambda>(expr, endpos). length expr - endpos)")
     (auto dest: find_first_of_Some)

declare operator_end.simps [simp del]

definition ParseOperator :: "string \<Rightarrow> nat \<Rightarrow> error + symbol \<times> nat" where
  "ParseOperator expr pos =
     (let startpos = pos;
          endpos = (if expr ! startpos \<noteq> CHR ''('' \<and> expr ! startpos \<noteq> CHR '')''
                    then operator_end expr startpos else startpos);
          pos' = endpos + 1
      in case ParseOperatorImpl (substr expr startpos (pos' - startpos)) of
           None \<Rightarrow> Inl CannotParseExpression
         | Some op \<Rightarrow> Inr (op, pos'))"

text \<open>
  The loop of \<^verbatim>\<open>Expression::ParseValue\<close>: the longest candidate first, then the
  candidates that end before the last \<^verbatim>\<open>+\<close> or \<^verbatim>\<open>-\<close>.
\<close>

function ParseValue_loop ::
  "xcdf_file \<Rightarrow> string \<Rightarrow> nat \<Rightarrow> nat option \<Rightarrow> nat option \<Rightarrow> error + symbol \<times> nat"
where
  "ParseValue_loop f expr startpos operpos endpos =
     (case endpos of
        None \<Rightarrow> Inl CannotParseExpression
      | Some e \<Rightarrow>
          if e < startpos then Inl CannotParseExpression
          else
            (case ParseValueImpl f (substr expr startpos (e - startpos + 1)) of
               Some val \<Rightarrow>
                 if IsFunction val \<and>
                    (case operpos of None \<Rightarrow> True | Some p \<Rightarrow> expr ! p \<noteq> CHR ''('')
                 then Inl MissingOpenParen
                 else Inr (val, e + 1)
             | None \<Rightarrow>
                 ParseValue_loop f expr startpos operpos
                   (case find_last_of expr sign_chars e of
                      None \<Rightarrow> None
                    | Some e1 \<Rightarrow> find_last_not_of expr (sign_chars @ whitespace) e1)))"
  by pat_completeness auto
termination
proof (relation "measure (\<lambda>(f, expr, startpos, operpos, endpos).
                   case endpos of None \<Rightarrow> 0 | Some e \<Rightarrow> Suc e)", goal_cases)
  case 1
  show ?case by simp
next
  case (2 f expr startpos operpos endpos e)
  show ?case
  proof (cases "find_last_of expr sign_chars e")
    case None
    with 2 show ?thesis by simp
  next
    case (Some e1)
    note e1 = find_last_of_Some [OF Some]
    show ?thesis
    proof (cases "find_last_not_of expr (sign_chars @ whitespace) e1")
      case None
      with 2 Some show ?thesis by simp
    next
      case (Some e2)
      note e2 = find_last_not_of_Some [OF Some]
      from e1 e2 have "e2 \<noteq> e1" by auto
      with e1 e2 have "e2 < e" by simp
      with 2 \<open>find_last_of expr sign_chars e = Some e1\<close> Some show ?thesis by simp
    qed
  qed
qed

declare ParseValue_loop.simps [simp del]

text \<open>
  \<^verbatim>\<open>Expression::ParseValue\<close>. The value string runs from \<open>pos\<close> to the last
  character before \<open>operpos\<close> that is not white space; \<^verbatim>\<open>npos - 1\<close> lies beyond
  every index. The character at \<open>pos\<close> is not white space, so \<open>endpos\<close> is found.
\<close>

definition ParseValue ::
  "xcdf_file \<Rightarrow> symbol list \<Rightarrow> string \<Rightarrow> nat \<Rightarrow> nat option \<Rightarrow> error + symbol \<times> nat"
where
  "ParseValue f parsedSymbols expr pos operpos =
     (let startpos = pos;
          endpos = find_last_not_of expr whitespace
                     (case operpos of None \<Rightarrow> length expr | Some p \<Rightarrow> p - 1);
          valueString = (case endpos of
                           None \<Rightarrow> []
                         | Some e \<Rightarrow> substr expr startpos (e - startpos + 1))
      in if find_first_of valueString sign_chars 0 = Some 0 \<and>
            parsedSymbols \<noteq> [] \<and>
            (IsNode (last parsedSymbols) \<or> GetType (last parsedSymbols) = CLOSE_PARAND)
         then ParseOperator expr pos
         else ParseValue_loop f expr startpos operpos endpos)"

text \<open>\<^verbatim>\<open>Expression::GetNextSymbol\<close>; \<open>Inr None\<close> is the \<^verbatim>\<open>NULL\<close> at the end of the input.\<close>

definition GetNextSymbol ::
  "xcdf_file \<Rightarrow> symbol list \<Rightarrow> string \<Rightarrow> nat \<Rightarrow> error + (symbol \<times> nat) option"
where
  "GetNextSymbol f parsedSymbols expr pos =
     (case find_first_not_of expr whitespace pos of
        None \<Rightarrow> Inr None
      | Some p \<Rightarrow>
          (let operpos = find_first_of expr operator_chars p
           in map_sum id Some
                (if Some p \<noteq> operpos then ParseValue f parsedSymbols expr p operpos
                 else ParseOperator expr p)))"

lemma operator_end_ge: "endpos \<le> operator_end expr endpos"
proof (induction expr endpos rule: operator_end.induct)
  case (1 expr endpos)
  show ?case
  proof (cases "find_first_of expr operator_tail_chars (endpos + 1) = Some (endpos + 1)")
    case True
    with 1 have "endpos + 1 \<le> operator_end expr (endpos + 1)" by simp
    moreover from True
    have "operator_end expr endpos = operator_end expr (endpos + 1)"
      by (subst operator_end.simps) simp
    ultimately show ?thesis by simp
  next
    case False
    then have "operator_end expr endpos = endpos"
      by (subst operator_end.simps) simp
    then show ?thesis by simp
  qed
qed

lemma ParseOperator_advances: "ParseOperator expr pos = Inr (s, pos') \<Longrightarrow> pos < pos'"
  using operator_end_ge [of pos expr]
  by (auto simp: ParseOperator_def Let_def split: option.splits if_splits)

lemma ParseValue_loop_advances:
  "ParseValue_loop f expr startpos operpos endpos = Inr (s, pos') \<Longrightarrow> startpos < pos'"
proof (induction f expr startpos operpos endpos rule: ParseValue_loop.induct)
  case (1 f expr startpos operpos endpos)
  from "1.prems" obtain e where e: "endpos = Some e"
    by (subst (asm) ParseValue_loop.simps) (auto split: option.splits)
  from "1.prems" e have ge: "\<not> e < startpos"
    by (subst (asm) ParseValue_loop.simps) (auto split: if_splits)
  show ?case
  proof (cases "ParseValueImpl f (substr expr startpos (e - startpos + 1))")
    case None
    with "1.prems" e ge
    have "ParseValue_loop f expr startpos operpos
            (case find_last_of expr sign_chars e of
               None \<Rightarrow> None
             | Some e1 \<Rightarrow> find_last_not_of expr (sign_chars @ whitespace) e1) = Inr (s, pos')"
      by (subst (asm) ParseValue_loop.simps) simp
    with "1.IH" [OF e ge None] show ?thesis by simp
  next
    case (Some val)
    with "1.prems" e ge have "pos' = e + 1"
      by (subst (asm) ParseValue_loop.simps) (auto split: if_splits)
    with ge show ?thesis by simp
  qed
qed

lemma GetNextSymbol_advances:
  assumes "GetNextSymbol f parsedSymbols expr pos = Inr (Some (s, pos'))"
  shows "pos < pos' \<and> pos < length expr"
proof -
  from assms obtain p where p: "find_first_not_of expr whitespace pos = Some p"
    by (auto simp: GetNextSymbol_def split: option.splits)
  note pp = find_first_not_of_Some [OF p]
  from assms p have
    "ParseValue f parsedSymbols expr p (find_first_of expr operator_chars p) = Inr (s, pos')
     \<or> ParseOperator expr p = Inr (s, pos')"
    by (auto simp: GetNextSymbol_def Let_def map_sum_def split: if_splits sum.splits)
  then have "p < pos'"
    unfolding ParseValue_def Let_def
    by (auto split: if_splits dest: ParseOperator_advances ParseValue_loop_advances)
  with pp show ?thesis by simp
qed

text \<open>\<^verbatim>\<open>Expression::ParseSymbols\<close>: the symbols are appended until the input ends.\<close>

function ParseSymbols ::
  "xcdf_file \<Rightarrow> string \<Rightarrow> nat \<Rightarrow> symbol list \<Rightarrow> error + symbol list"
where
  "ParseSymbols f expr pos parsedSymbols =
     (case GetNextSymbol f parsedSymbols expr pos of
        Inl e \<Rightarrow> Inl e
      | Inr None \<Rightarrow> Inr parsedSymbols
      | Inr (Some (s, pos')) \<Rightarrow> ParseSymbols f expr pos' (parsedSymbols @ [s]))"
  by pat_completeness auto
termination
  by (relation "measure (\<lambda>(f, expr, pos, parsedSymbols). length expr - pos)")
     (auto dest!: GetNextSymbol_advances)

declare ParseSymbols.simps [simp del]

section \<open>Building nodes\<close>

definition and_then :: "error + 'a \<Rightarrow> ('a \<Rightarrow> error + 'b) \<Rightarrow> error + 'b" where
  "and_then r k = (case r of Inl e \<Rightarrow> Inl e | Inr v \<Rightarrow> k v)"

text \<open>
  \<^verbatim>\<open>GetNodeImpl(Node<T>* n1, SymbolType type)\<close> and \<^verbatim>\<open>DoGetNode(n1, type)\<close>,
  which selects the instance for the element type of \<open>n1\<close>.
  Modelled from the spec: the constructors of the node classes (\<^verbatim>\<open>NodeDefs.h\<close> is
  not part of the sources) succeed, except that a bitwise operator over a floating-point
  operand is a failure at parse time (sections 4.4 and 7).
\<close>

definition unary_class_of :: "(SymbolType \<times> unary_class) list" where
  "unary_class_of =
     [(LOGICAL_NOT, LogicalNOTNode), (BITWISE_NOT, BitwiseNOTNode), (UNIQUE, UniqueNode),
      (ANY, AnyNode), (ALL', AllNode), (SUM', SumNode), (SIN, SinNode), (COS, CosNode),
      (TAN, TanNode), (ASIN, AsinNode), (ACOS, AcosNode), (ATAN, AtanNode),
      (LOG, LogNode), (LOG10, Log10Node), (EXP, ExpNode), (ABS, AbsNode),
      (SQRT, SqrtNode), (CEIL, CeilNode), (FLOOR, FloorNode), (ISNAN, IsNaNNode),
      (ISINF, IsInfNode), (SINH, SinhNode), (COSH, CoshNode), (TANH, TanhNode),
      (INT', IntNode), (UNSIGNED, UnsignedNode), (DOUBLE, DoubleNode)]"

definition GetNodeImpl_unary :: "node \<Rightarrow> SymbolType \<Rightarrow> error + symbol" where
  "GetNodeImpl_unary n1 type =
     (case map_of unary_class_of type of
        None \<Rightarrow> Inr (Symbol NO_SYMBOL)
      | Some c \<Rightarrow>
          if c = BitwiseNOTNode \<and> node_type n1 = F64T then Inl BitwiseOnFloatingPoint
          else Inr (Node (Unary c n1)))"

definition DoGetNode_unary :: "node \<Rightarrow> SymbolType \<Rightarrow> error + symbol" where
  "DoGetNode_unary n1 type = GetNodeImpl_unary n1 type"

text \<open>
  \<^verbatim>\<open>GetNodeImpl<T, U, DominantType>(n1, n2, type)\<close>; \<open>d\<close> is the
  \<^verbatim>\<open>DominantType\<close>.
\<close>

definition binary_class_of :: "(SymbolType \<times> binary_class) list" where
  "binary_class_of =
     [(EQUALITY, EqualityNode), (INEQUALITY, InequalityNode),
      (GREATER_THAN, GreaterThanNode), (LESS_THAN, LessThanNode),
      (GREATER_THAN_EQUAL, GreaterThanEqualNode), (LESS_THAN_EQUAL, LessThanEqualNode),
      (LOGICAL_OR, LogicalORNode), (LOGICAL_AND, LogicalANDNode),
      (BITWISE_OR, BitwiseORNode), (BITWISE_AND, BitwiseANDNode),
      (ADDITION, AdditionNode), (SUBTRACTION, SubtractionNode),
      (MULTIPLICATION, MultiplicationNode), (DIVISION, DivisionNode),
      (MODULUS, ModulusNode), (POWER, PowerNode), (FMOD, FmodNode),
      (ATAN2, Atan2Node), (POW, PowerNode)]"

definition GetNodeImpl_binary :: "node \<Rightarrow> node \<Rightarrow> etype \<Rightarrow> SymbolType \<Rightarrow> error + symbol" where
  "GetNodeImpl_binary n1 n2 d type =
     (case map_of binary_class_of type of
        None \<Rightarrow> Inr (Symbol NO_SYMBOL)
      | Some c \<Rightarrow>
          if (c = BitwiseORNode \<or> c = BitwiseANDNode) \<and> d = F64T
          then Inl BitwiseOnFloatingPoint
          else Inr (Node (Binary c n1 n2)))"

text \<open>
  \<^verbatim>\<open>static_cast<T>\<close> of a constant. Between the integer types the bits are kept;
  a \<^verbatim>\<open>double\<close> is truncated towards zero.
\<close>

definition truncate :: "real \<Rightarrow> int" where
  "truncate x = (if 0 \<le> x then \<lfloor>x\<rfloor> else \<lceil>x\<rceil>)"

fun static_cast :: "etype \<Rightarrow> scalar \<Rightarrow> scalar" where
  "static_cast U64T (U64 w) = U64 w"
| "static_cast U64T (I64 w) = U64 w"
| "static_cast U64T (F64 x) = U64 (word_of_int (truncate x))"
| "static_cast I64T (U64 w) = I64 w"
| "static_cast I64T (I64 w) = I64 w"
| "static_cast I64T (F64 x) = I64 (word_of_int (truncate x))"
| "static_cast F64T (U64 w) = F64 (real (unat w))"
| "static_cast F64T (I64 w) = F64 (real_of_int (sint w))"
| "static_cast F64T (F64 x) = F64 x"

text \<open>
  \<^verbatim>\<open>GetConstValue<T, U>(s)\<close>: the \<^verbatim>\<open>dynamic_cast\<close> to \<^verbatim>\<open>ConstNode<U>\<close>
  succeeds for a constant node only.
\<close>

definition GetConstValue :: "etype \<Rightarrow> symbol \<Rightarrow> error + scalar" where
  "GetConstValue T s =
     (case s of
        Node (ConstNode v) \<Rightarrow> Inr (static_cast T v)
      | _ \<Rightarrow> Inl NonConstantInList)"

definition GetNodeValue :: "etype \<Rightarrow> symbol \<Rightarrow> error + scalar" where
  "GetNodeValue T s =
     (if GetType s = FLOATING_POINT_NODE then GetConstValue T s
      else if GetType s = SIGNED_NODE then GetConstValue T s
      else if GetType s = UNSIGNED_NODE then GetConstValue T s
      else Inl NonConstantInList)"

text \<open>The loop of \<^verbatim>\<open>GetInNode\<close> over the symbols of the list.\<close>

fun GetNodeValues :: "etype \<Rightarrow> symbol list \<Rightarrow> error + scalar list" where
  "GetNodeValues T [] = Inr []"
| "GetNodeValues T (s # ss) =
     and_then (GetNodeValue T s)
       (\<lambda>v. and_then (GetNodeValues T ss) (\<lambda>vs. Inr (v # vs)))"

definition GetInNode :: "node \<Rightarrow> symbol \<Rightarrow> error + symbol" where
  "GetInNode n1 n2 =
     and_then
       (case n2 of
          ListSymbol list \<Rightarrow> GetNodeValues (node_type n1) list
        | _ \<Rightarrow> and_then (GetNodeValue (node_type n1) n2) (\<lambda>v. Inr [v]))
       (\<lambda>data. Inr (Node (InNode n1 data)))"

text \<open>
  \<^verbatim>\<open>DoGetNode(n1, n2, type)\<close>. The callers pass a node as \<open>n1\<close>, and as \<open>n2\<close>
  unless \<open>type\<close> is \<open>IN\<close>; the last case is never reached.
\<close>

definition DoGetNode_binary :: "node \<Rightarrow> symbol \<Rightarrow> SymbolType \<Rightarrow> error + symbol" where
  "DoGetNode_binary n1 n2 type =
     (if type = IN then GetInNode n1 n2
      else
        (case n2 of
           Node m \<Rightarrow> GetNodeImpl_binary n1 m (dominant (node_type n1) (node_type m)) type
         | _ \<Rightarrow> Inr (Symbol NO_SYMBOL)))"

definition GetNodeImpl_void :: "SymbolType \<Rightarrow> symbol" where
  "GetNodeImpl_void type = (if type = RAND then Node RandNode else Symbol NO_SYMBOL)"

text \<open>
  The iterator \<open>it\<close> splits the range \<open>[start, end)\<close> into the symbols \<open>front\<close>, which
  precede it, and the symbols \<open>from\<close> it on. \<^verbatim>\<open>Expression::GetUnarySymbol\<close> reads \<open>from\<close> only.
\<close>

definition GetUnarySymbol :: "symbol list \<Rightarrow> SymbolType \<Rightarrow> bool \<Rightarrow> error + symbol" where
  "GetUnarySymbol from type isFunction =
     (if length from < 2 then Inl MissingUnaryOperand
      else
        (case from ! 1 of
           Node n1 \<Rightarrow>
             if length from > 2 \<and> IsNode (from ! 2) \<and> isFunction
             then Inl TooManyUnaryArguments
             else DoGetNode_unary n1 type
         | _ \<Rightarrow> Inl MissingUnaryOperand))"

definition GetBinarySymbol ::
  "symbol list \<Rightarrow> symbol list \<Rightarrow> SymbolType \<Rightarrow> bool \<Rightarrow> error + symbol"
where
  "GetBinarySymbol front from type isFunction =
     and_then
       (if isFunction then
          (if length from < 2 then Inl MissingBinaryOperand
           else
             (case from ! 1 of
                ListSymbol argList \<Rightarrow>
                  if length argList < 2 then Inl MissingBinaryOperand
                  else if length argList > 2 then Inl TooManyBinaryArguments
                  else Inr (argList ! 0, argList ! 1)
              | _ \<Rightarrow> Inl MissingBinaryOperand))
        else
          (if front = [] \<or> length from < 2 then Inl MissingBinaryOperand
           else Inr (last front, from ! 1)))
       (\<lambda>(n1, n2).
          case n1 of
            Node a \<Rightarrow>
              if IsNode n2 \<or> type = IN then DoGetNode_binary a n2 type
              else Inl MissingBinaryOperand
          | _ \<Rightarrow> Inl MissingBinaryOperand)"

definition GetVoidSymbol :: "symbol list \<Rightarrow> SymbolType \<Rightarrow> error + symbol" where
  "GetVoidSymbol from type =
     (if length from > 1 \<and> IsNode (from ! 1) then Inl TooManyVoidArguments
      else Inr (GetNodeImpl_void type))"

section \<open>The parser\<close>

text \<open>
  Each pass walks the iterator \<open>it\<close> from \<open>start\<close> to \<open>end\<close>. The state of a pass is
  the pair of the symbols \<open>front\<close> that precede the iterator and the symbols \<open>from\<close> it
  on; the pass
  returns the range it leaves. \<^verbatim>\<open>ReplaceSymbols(s, it, n, start)\<close> puts \<open>s\<close> in the
  place of the first \<open>n\<close> symbols of \<open>from\<close> and leaves the iterator on \<open>s\<close>; after
  \<^verbatim>\<open>--it\<close> the last symbol of \<open>front\<close> is replaced as well.
\<close>

subsection \<open>Functions and the power operator\<close>

definition replace_unary_function :: "symbol list \<Rightarrow> error + symbol list" where
  "replace_unary_function from =
     (if IsUnaryFunction (hd from)
      then and_then (GetUnarySymbol from (GetType (hd from)) True)
             (\<lambda>s. Inr (s # drop 2 from))
      else Inr from)"

definition replace_void_function :: "symbol list \<Rightarrow> error + symbol list" where
  "replace_void_function from =
     (if IsVoidFunction (hd from)
      then and_then (GetVoidSymbol from (GetType (hd from)))
             (\<lambda>s. Inr (s # drop 1 from))
      else Inr from)"

definition replace_binary_function :: "symbol list \<Rightarrow> symbol list \<Rightarrow> error + symbol list" where
  "replace_binary_function front from =
     (if IsBinaryFunction (hd from)
      then and_then (GetBinarySymbol front from (GetType (hd from)) True)
             (\<lambda>s. Inr (s # drop 2 from))
      else Inr from)"

definition replace_power ::
  "symbol list \<Rightarrow> symbol list \<Rightarrow> error + symbol list \<times> symbol list"
where
  "replace_power front from =
     (if GetType (hd from) = POWER
      then and_then (GetBinarySymbol front from (GetType (hd from)) False)
             (\<lambda>s. Inr (butlast front, s # drop 2 from))
      else Inr (front, from))"

text \<open>The four tests of one iteration of \<^verbatim>\<open>Expression::ReplaceFunctions\<close>, in turn.\<close>

definition replace_function_step ::
  "symbol list \<Rightarrow> symbol list \<Rightarrow> error + symbol list \<times> symbol list"
where
  "replace_function_step front from =
     and_then (replace_unary_function from)
       (\<lambda>from1. and_then (replace_void_function from1)
         (\<lambda>from2. and_then (replace_binary_function front from2)
           (\<lambda>from3. replace_power front from3)))"

lemma replace_function_step_length:
  assumes "replace_function_step front from = Inr (front', from')" and "from \<noteq> []"
  shows "from' \<noteq> [] \<and> length from' \<le> length from"
proof -
  from assms obtain from1 from2 from3 where
    s1: "replace_unary_function from = Inr from1" and
    s2: "replace_void_function from1 = Inr from2" and
    s3: "replace_binary_function front from2 = Inr from3" and
    s4: "replace_power front from3 = Inr (front', from')"
    by (auto simp: replace_function_step_def and_then_def split: sum.splits)
  from s1 \<open>from \<noteq> []\<close> have 1: "from1 \<noteq> [] \<and> length from1 \<le> length from"
    by (auto simp: replace_unary_function_def and_then_def GetUnarySymbol_def
             split: if_splits sum.splits)
  from s2 1 have 2: "from2 \<noteq> [] \<and> length from2 \<le> length from1"
    by (cases from1) (auto simp: replace_void_function_def and_then_def
                          split: if_splits sum.splits)
  from s3 2 have 3: "from3 \<noteq> [] \<and> length from3 \<le> length from2"
    by (auto simp: replace_binary_function_def and_then_def GetBinarySymbol_def
             split: if_splits sum.splits)
  from s4 3 have "from' \<noteq> [] \<and> length from' \<le> length from3"
    by (auto simp: replace_power_def and_then_def GetBinarySymbol_def
             split: if_splits sum.splits)
  with 1 2 3 show ?thesis by simp
qed

function ReplaceFunctions :: "symbol list \<Rightarrow> symbol list \<Rightarrow> error + symbol list" where
  "ReplaceFunctions front [] = Inr front"
| "ReplaceFunctions front (x # rest) =
     (case replace_function_step front (x # rest) of
        Inl e \<Rightarrow> Inl e
      | Inr (front', from') \<Rightarrow> ReplaceFunctions (front' @ [hd from']) (tl from'))"
  by pat_completeness auto
termination
proof (relation "measure (\<lambda>(front, from). length from)", goal_cases)
  case 1
  show ?case by simp
next
  case (2 front x rest r front' from')
  then have "replace_function_step front (x # rest) = Inr (front', from')" by simp
  from replace_function_step_length [OF this] show ?case
    by (cases from') auto
qed

subsection \<open>Unary and binary operators\<close>

fun ReplaceUnary :: "symbol list \<Rightarrow> symbol list \<Rightarrow> error + symbol list" where
  "ReplaceUnary front [] = Inr front"
| "ReplaceUnary front (x # rest) =
     (if GetType x = LOGICAL_NOT \<or> GetType x = BITWISE_NOT then
        (case GetUnarySymbol (x # rest) (GetType x) False of
           Inl e \<Rightarrow> Inl e
         | Inr s \<Rightarrow> ReplaceUnary (front @ [s]) (drop 1 rest))
      else ReplaceUnary (front @ [x]) rest)"

text \<open>
  The loop that the passes for the binary operators share: where the type of the symbol
  under the iterator satisfies \<open>p\<close>, the symbol, its left and its right neighbour are
  replaced by the node that \<^verbatim>\<open>GetBinarySymbol\<close> builds.
\<close>

fun replace_binary_operators ::
  "(symbol \<Rightarrow> bool) \<Rightarrow> symbol list \<Rightarrow> symbol list \<Rightarrow> error + symbol list"
where
  "replace_binary_operators p front [] = Inr front"
| "replace_binary_operators p front (x # rest) =
     (if p x then
        (case GetBinarySymbol front (x # rest) (GetType x) False of
           Inl e \<Rightarrow> Inl e
         | Inr s \<Rightarrow> replace_binary_operators p (butlast front @ [s]) (drop 1 rest))
      else replace_binary_operators p (front @ [x]) rest)"

definition ReplaceMultiplyDivideModulus :: "symbol list \<Rightarrow> error + symbol list" where
  "ReplaceMultiplyDivideModulus xs =
     replace_binary_operators
       (\<lambda>x. GetType x = MULTIPLICATION \<or> GetType x = DIVISION \<or> GetType x = MODULUS) [] xs"

definition ReplaceAdditionSubtraction :: "symbol list \<Rightarrow> error + symbol list" where
  "ReplaceAdditionSubtraction xs =
     replace_binary_operators (\<lambda>x. GetType x = ADDITION \<or> GetType x = SUBTRACTION) [] xs"

definition ReplaceComparison :: "symbol list \<Rightarrow> error + symbol list" where
  "ReplaceComparison xs =
     and_then (replace_binary_operators IsComparison [] xs)
       (replace_binary_operators IsEquality [])"

definition ReplaceBitwise :: "symbol list \<Rightarrow> error + symbol list" where
  "ReplaceBitwise xs =
     and_then (replace_binary_operators (\<lambda>x. GetType x = BITWISE_AND) [] xs)
       (replace_binary_operators (\<lambda>x. GetType x = BITWISE_OR) [])"

definition ReplaceLogical :: "symbol list \<Rightarrow> error + symbol list" where
  "ReplaceLogical xs =
     and_then (replace_binary_operators (\<lambda>x. GetType x = LOGICAL_AND) [] xs)
       (replace_binary_operators (\<lambda>x. GetType x = LOGICAL_OR) [])"

subsection \<open>Commas\<close>

text \<open>
  A comma at the start or at the end of the range is removed; the iterator is stepped
  back and forth and stands on the symbol that followed the comma. Otherwise the
  neighbours are joined: \<^verbatim>\<open>PushBack\<close> when the left one is a list already.
\<close>

definition join_list :: "symbol \<Rightarrow> symbol \<Rightarrow> symbol" where
  "join_list first second =
     (case first of
        ListSymbol symbols \<Rightarrow> ListSymbol (symbols @ [second])
      | _ \<Rightarrow> ListSymbol [first, second])"

fun ReplaceCommas :: "symbol list \<Rightarrow> symbol list \<Rightarrow> error + symbol list" where
  "ReplaceCommas front [] = Inr front"
| "ReplaceCommas front (x # rest) =
     (if GetType x = COMMA then
        (if front = [] \<or> rest = [] then ReplaceCommas front rest
         else ReplaceCommas (butlast front @ [join_list (last front) (hd rest)]) (tl rest))
      else ReplaceCommas (front @ [x]) rest)"

text \<open>The passes of \<^verbatim>\<open>Expression::RecursiveParseExpression\<close> after the parentheses.\<close>

definition apply_operators :: "symbol list \<Rightarrow> error + symbol list" where
  "apply_operators xs =
     and_then (ReplaceFunctions [] xs)
       (\<lambda>xs. and_then (ReplaceUnary [] xs)
         (\<lambda>xs. and_then (ReplaceMultiplyDivideModulus xs)
           (\<lambda>xs. and_then (ReplaceAdditionSubtraction xs)
             (\<lambda>xs. and_then (ReplaceComparison xs)
               (\<lambda>xs. and_then (ReplaceBitwise xs)
                 (\<lambda>xs. and_then (ReplaceLogical xs)
                   (\<lambda>xs. ReplaceCommas [] xs)))))))"

subsection \<open>Parentheses\<close>

text \<open>
  The scan of \<^verbatim>\<open>Expression::ReplaceParenthesis\<close> over the symbols that remain,
  the first of them at index \<open>i\<close>. The iterators \<open>firstOpenParand\<close> and \<open>closeParand\<close>
  are indices into the range, and \<open>n\<close>, its length, is \<open>end\<close>. The result is
  \<open>nOpen\<close>, \<open>firstOpenParand\<close> and \<open>closeParand\<close> when the loop is left.
\<close>

fun scan_parenthesis ::
  "nat \<Rightarrow> symbol list \<Rightarrow> nat \<Rightarrow> int \<Rightarrow> nat \<Rightarrow> error + int \<times> nat \<times> nat"
where
  "scan_parenthesis n [] i nOpen firstOpenParand = Inr (nOpen, firstOpenParand, n)"
| "scan_parenthesis n (x # xs) i nOpen firstOpenParand =
     (if GetType x = OPEN_PARAND then
        scan_parenthesis n xs (Suc i) (nOpen + 1)
          (if firstOpenParand = n then i else firstOpenParand)
      else if GetType x = CLOSE_PARAND then
        (if nOpen - 1 = 0 then Inr (nOpen - 1, firstOpenParand, i)
         else if nOpen - 1 < 0 then Inl UnpairedCloseParen
         else scan_parenthesis n xs (Suc i) (nOpen - 1) firstOpenParand)
      else scan_parenthesis n xs (Suc i) nOpen firstOpenParand)"

text \<open>No pass makes the range longer.\<close>

lemma replace_function_step_before:
  assumes "replace_function_step front from = Inr (front', from')"
  shows "length front' \<le> length front"
  using assms
  by (auto simp: replace_function_step_def and_then_def replace_power_def
           split: sum.splits if_splits)

lemma ReplaceFunctions_length:
  "ReplaceFunctions front xs = Inr ys \<Longrightarrow> length ys \<le> length front + length xs"
proof (induction front xs arbitrary: ys rule: ReplaceFunctions.induct)
  case (1 front)
  then show ?case by simp
next
  case (2 front x rest)
  from "2.prems" obtain front' from' where
    step: "replace_function_step front (x # rest) = Inr (front', from')" and
    rec: "ReplaceFunctions (front' @ [hd from']) (tl from') = Inr ys"
    by (auto split: sum.splits)
  from replace_function_step_length [OF step] replace_function_step_before [OF step]
  have "from' \<noteq> []" "length from' \<le> Suc (length rest)" "length front' \<le> length front"
    by simp_all
  moreover from "2.IH" [OF step refl rec]
  have "length ys \<le> length (front' @ [hd from']) + length (tl from')" .
  ultimately show ?case by (cases from') auto
qed

lemma ReplaceUnary_length:
  "ReplaceUnary front xs = Inr ys \<Longrightarrow> length ys \<le> length front + length xs"
proof (induction front xs arbitrary: ys rule: ReplaceUnary.induct)
  case (1 front)
  then show ?case by simp
next
  case (2 front x rest)
  show ?case
  proof (cases "GetType x = LOGICAL_NOT \<or> GetType x = BITWISE_NOT")
    case True
    with "2.prems" obtain s where
      s: "GetUnarySymbol (x # rest) (GetType x) False = Inr s" and
      rec: "ReplaceUnary (front @ [s]) (drop 1 rest) = Inr ys"
      by (auto split: sum.splits)
    from "2.IH"(1) [OF True s rec] show ?thesis by simp
  next
    case False
    with "2.prems" have "ReplaceUnary (front @ [x]) rest = Inr ys" by simp
    from "2.IH"(2) [OF False this] show ?thesis by simp
  qed
qed

lemma replace_binary_operators_length:
  "replace_binary_operators p front xs = Inr ys \<Longrightarrow> length ys \<le> length front + length xs"
proof (induction p front xs arbitrary: ys rule: replace_binary_operators.induct)
  case (1 p front)
  then show ?case by simp
next
  case (2 p front x rest)
  show ?case
  proof (cases "p x")
    case True
    with "2.prems" obtain s where
      s: "GetBinarySymbol front (x # rest) (GetType x) False = Inr s" and
      rec: "replace_binary_operators p (butlast front @ [s]) (drop 1 rest) = Inr ys"
      by (auto split: sum.splits)
    from s have "front \<noteq> []"
      by (auto simp: GetBinarySymbol_def and_then_def split: if_splits)
    with "2.IH"(1) [OF True s rec] show ?thesis by simp
  next
    case False
    with "2.prems" have "replace_binary_operators p (front @ [x]) rest = Inr ys" by simp
    from "2.IH"(2) [OF False this] show ?thesis by simp
  qed
qed

lemma ReplaceCommas_length:
  "ReplaceCommas front xs = Inr ys \<Longrightarrow> length ys \<le> length front + length xs"
proof (induction front xs arbitrary: ys rule: ReplaceCommas.induct)
  case (1 front)
  then show ?case by simp
next
  case (2 front x rest)
  consider (drop) "GetType x = COMMA" "front = [] \<or> rest = []"
    | (join) "GetType x = COMMA" "\<not> (front = [] \<or> rest = [])"
    | (skip) "GetType x \<noteq> COMMA" by blast
  then show ?case
  proof cases
    case drop
    with "2.prems" have "ReplaceCommas front rest = Inr ys" by simp
    from "2.IH"(1) [OF drop this] show ?thesis by simp
  next
    case join
    with "2.prems"
    have "ReplaceCommas (butlast front @ [join_list (last front) (hd rest)]) (tl rest) = Inr ys"
      by simp
    from "2.IH"(2) [OF join this] join show ?thesis by simp
  next
    case skip
    with "2.prems" have "ReplaceCommas (front @ [x]) rest = Inr ys" by simp
    from "2.IH"(3) [OF skip this] show ?thesis by simp
  qed
qed

lemma and_then_Inr: "and_then r k = Inr y \<Longrightarrow> \<exists>v. r = Inr v \<and> k v = Inr y"
  by (auto simp: and_then_def split: sum.splits)

lemma binary_pass_length:
  "ReplaceMultiplyDivideModulus xs = Inr ys \<Longrightarrow> length ys \<le> length xs"
  "ReplaceAdditionSubtraction xs = Inr ys \<Longrightarrow> length ys \<le> length xs"
  "ReplaceComparison xs = Inr ys \<Longrightarrow> length ys \<le> length xs"
  "ReplaceBitwise xs = Inr ys \<Longrightarrow> length ys \<le> length xs"
  "ReplaceLogical xs = Inr ys \<Longrightarrow> length ys \<le> length xs"
  unfolding ReplaceMultiplyDivideModulus_def ReplaceAdditionSubtraction_def
    ReplaceComparison_def ReplaceBitwise_def ReplaceLogical_def
  by (fastforce dest!: and_then_Inr replace_binary_operators_length)+

lemma apply_operators_length:
  assumes "apply_operators xs = Inr ys"
  shows "length ys \<le> length xs"
proof -
  from assms obtain x1 x2 x3 x4 x5 x6 x7 where
    "ReplaceFunctions [] xs = Inr x1" "ReplaceUnary [] x1 = Inr x2"
    "ReplaceMultiplyDivideModulus x2 = Inr x3" "ReplaceAdditionSubtraction x3 = Inr x4"
    "ReplaceComparison x4 = Inr x5" "ReplaceBitwise x5 = Inr x6"
    "ReplaceLogical x6 = Inr x7" "ReplaceCommas [] x7 = Inr ys"
    unfolding apply_operators_def by (blast dest!: and_then_Inr)
  then have "length x1 \<le> length xs" "length x2 \<le> length x1" "length x3 \<le> length x2"
    "length x4 \<le> length x3" "length x5 \<le> length x4" "length x6 \<le> length x5"
    "length x7 \<le> length x6" "length ys \<le> length x7"
    using ReplaceFunctions_length [of "[]" xs x1] ReplaceUnary_length [of "[]" x1 x2]
      ReplaceCommas_length [of "[]" x7 ys]
    by (simp_all add: binary_pass_length)
  then show ?thesis by linarith
qed

lemma scan_parenthesis_result:
  assumes "scan_parenthesis n xs i nOpen first = Inr (nOpen', first', close')"
    and "i + length xs = n"
    and "(first = n \<and> nOpen = 0) \<or> (first < i \<and> 0 < nOpen)"
  shows "(first' = n \<and> nOpen' = 0 \<and> close' = n)
         \<or> (first' < n \<and> 0 < nOpen' \<and> close' = n)
         \<or> (first' < close' \<and> close' < n \<and> nOpen' = 0)"
  using assms
proof (induction xs arbitrary: i nOpen first)
  case Nil
  then show ?case by auto
next
  case (Cons x xs)
  consider (opens) "GetType x = OPEN_PARAND"
    | (closes) "GetType x \<noteq> OPEN_PARAND" "GetType x = CLOSE_PARAND"
    | (other) "GetType x \<noteq> OPEN_PARAND" "GetType x \<noteq> CLOSE_PARAND" by blast
  then show ?case
  proof cases
    case opens
    with Cons.prems(1)
    have "scan_parenthesis n xs (Suc i) (nOpen + 1) (if first = n then i else first)
            = Inr (nOpen', first', close')" by simp
    from Cons.IH [OF this] Cons.prems(2,3) show ?thesis by auto
  next
    case closes
    show ?thesis
    proof (cases "nOpen - 1 = 0")
      case True
      with closes Cons.prems show ?thesis by auto
    next
      case False
      with closes Cons.prems(1) have pos: "\<not> nOpen - 1 < 0"
        and "scan_parenthesis n xs (Suc i) (nOpen - 1) first = Inr (nOpen', first', close')"
        by (auto split: if_splits)
      from Cons.IH [OF this(2)] Cons.prems(2,3) False pos show ?thesis by auto
    qed
  next
    case other
    with Cons.prems(1)
    have "scan_parenthesis n xs (Suc i) nOpen first = Inr (nOpen', first', close')" by simp
    from Cons.IH [OF this] Cons.prems(2,3) show ?thesis by auto
  qed
qed

text \<open>
  \<^verbatim>\<open>Expression::RecursiveParseExpression\<close>, \<^verbatim>\<open>Expression::ReplaceParenthesis\<close>
  and the loop \<^verbatim>\<open>while (ReplaceParenthesis(start, end)) { }\<close>. The symbols between
  the first opening parenthesis and the parenthesis that closes it are parsed on their
  own; then both parentheses are removed.
\<close>

function RecursiveParseExpression :: "symbol list \<Rightarrow> error + symbol list"
  and ReplaceParenthesis :: "symbol list \<Rightarrow> error + bool \<times> symbol list"
  and ReplaceParenthesis_while :: "symbol list \<Rightarrow> error + symbol list"
where
  "RecursiveParseExpression xs =
     (if xs = [] then Inr xs
      else and_then (ReplaceParenthesis_while xs) apply_operators)"
| "ReplaceParenthesis xs =
     (case scan_parenthesis (length xs) xs 0 0 (length xs) of
        Inl e \<Rightarrow> Inl e
      | Inr (nOpen, firstOpenParand, closeParand) \<Rightarrow>
          if nOpen > 0 then Inl UnpairedOpenParen
          else if firstOpenParand = length xs then Inr (False, xs)
          else
            (case RecursiveParseExpression
                    (take (closeParand - Suc firstOpenParand) (drop (Suc firstOpenParand) xs)) of
               Inl e \<Rightarrow> Inl e
             | Inr inner \<Rightarrow>
                 Inr (True, take firstOpenParand xs @ inner @ drop (Suc closeParand) xs)))"
| "ReplaceParenthesis_while xs =
     (case ReplaceParenthesis xs of
        Inl e \<Rightarrow> Inl e
      | Inr (again, ys) \<Rightarrow> if again then ReplaceParenthesis_while ys else Inr ys)"
  by pat_completeness auto

termination
proof -
  have parse_length_dom:
    "RecursiveParseExpression_ReplaceParenthesis_ReplaceParenthesis_while_dom (Inl xs)
         \<Longrightarrow> \<forall>ys. RecursiveParseExpression xs = Inr ys \<longrightarrow> length ys \<le> length xs"
    "RecursiveParseExpression_ReplaceParenthesis_ReplaceParenthesis_while_dom (Inr (Inl xs'))
         \<Longrightarrow> \<forall>b ys. ReplaceParenthesis xs' = Inr (b, ys) \<longrightarrow>
               (if b then length ys < length xs' else ys = xs')"
    "RecursiveParseExpression_ReplaceParenthesis_ReplaceParenthesis_while_dom (Inr (Inr xs''))
         \<Longrightarrow> \<forall>ys. ReplaceParenthesis_while xs'' = Inr ys \<longrightarrow> length ys \<le> length xs''"
    for xs xs' xs''
  proof (induct rule: RecursiveParseExpression_ReplaceParenthesis_ReplaceParenthesis_while.pinduct)
    case (1 xs)
    show ?case
    proof (intro allI impI)
      fix ys assume r: "RecursiveParseExpression xs = Inr ys"
      show "length ys \<le> length xs"
      proof (cases "xs = []")
        case True
        with r "1.hyps"(1) show ?thesis by (simp add: RecursiveParseExpression.psimps)
      next
        case False
        with r "1.hyps"(1) obtain zs where
          zs: "ReplaceParenthesis_while xs = Inr zs" and ys: "apply_operators zs = Inr ys"
          by (auto simp: RecursiveParseExpression.psimps and_then_def split: sum.splits)
        from "1.hyps"(2) [OF False] zs have "length zs \<le> length xs" by blast
        with apply_operators_length [OF ys] show ?thesis by simp
      qed
    qed
  next
    case (2 xs)
    show ?case
    proof (intro allI impI)
      fix b ys assume r: "ReplaceParenthesis xs = Inr (b, ys)"
      from r "2.hyps"(1) obtain nOpen firstOpenParand closeParand where
        scan: "scan_parenthesis (length xs) xs 0 0 (length xs)
                 = Inr (nOpen, firstOpenParand, closeParand)"
        by (auto simp: ReplaceParenthesis.psimps split: sum.splits)
      from r "2.hyps"(1) scan have nOpen: "\<not> 0 < nOpen"
        by (auto simp: ReplaceParenthesis.psimps split: if_splits)
      show "if b then length ys < length xs else ys = xs"
      proof (cases "firstOpenParand = length xs")
        case True
        with r "2.hyps"(1) scan nOpen show ?thesis
          by (auto simp: ReplaceParenthesis.psimps)
      next
        case False
        let ?inner = "take (closeParand - Suc firstOpenParand) (drop (Suc firstOpenParand) xs)"
        from r "2.hyps"(1) scan nOpen False obtain inner where
          inner: "RecursiveParseExpression ?inner = Inr inner" and
          b: "b" and ys: "ys = take firstOpenParand xs @ inner @ drop (Suc closeParand) xs"
          by (auto simp: ReplaceParenthesis.psimps split: sum.splits)
        from scan_parenthesis_result [OF scan] nOpen False
        have pos: "firstOpenParand < closeParand" "closeParand < length xs" by auto
        from "2.hyps"(2) [OF scan refl refl nOpen False] inner
        have "length inner \<le> length ?inner" by blast
        with pos b ys show ?thesis by simp
      qed
    qed
  next
    case (3 xs)
    show ?case
    proof (intro allI impI)
      fix ys assume r: "ReplaceParenthesis_while xs = Inr ys"
      from r "3.hyps"(1) obtain again zs where
        step: "ReplaceParenthesis xs = Inr (again, zs)"
        by (auto simp: ReplaceParenthesis_while.psimps split: sum.splits)
      from "3.hyps"(2) step have zs: "if again then length zs < length xs else zs = xs"
        by blast
      show "length ys \<le> length xs"
      proof (cases again)
        case True
        with r "3.hyps"(1) step have "ReplaceParenthesis_while zs = Inr ys"
          by (simp add: ReplaceParenthesis_while.psimps)
        with "3.hyps"(3) [OF step refl True] zs True show ?thesis by fastforce
      next
        case False
        with r "3.hyps"(1) step zs show ?thesis
          by (simp add: ReplaceParenthesis_while.psimps)
      qed
    qed
  qed
  show ?thesis
  proof (relation "measure (\<lambda>s. case s of
                     Inl xs \<Rightarrow> 3 * length xs + 2
                   | Inr (Inl xs) \<Rightarrow> 3 * length xs
                   | Inr (Inr xs) \<Rightarrow> 3 * length xs + 1)", goal_cases)
    case 1
    show ?case by simp
  next
    case (2 xs)
    show ?case by simp
  next
    case (3 xs b nOpen y firstOpenParand closeParand)
    then have scan: "scan_parenthesis (length xs) xs 0 0 (length xs)
                       = Inr (nOpen, firstOpenParand, closeParand)" by simp
    from scan_parenthesis_result [OF scan] 3
    have "firstOpenParand < closeParand" "closeParand < length xs" by auto
    then show ?case by simp
  next
    case (4 xs)
    show ?case by simp
  next
    case (5 xs b again ys)
    then have "ReplaceParenthesis xs = Inr (again, ys)" and again by simp_all
    with parse_length_dom(2) [OF 5(4)] have "length ys < length xs" by fastforce
    then show ?case by simp
  qed
qed

declare RecursiveParseExpression.simps [simp del]
declare ReplaceParenthesis.simps [simp del]
declare ReplaceParenthesis_while.simps [simp del]

text \<open>\<^verbatim>\<open>Expression::Init\<close>, with the symbols that remain as the result.\<close>

definition Init :: "xcdf_file \<Rightarrow> string \<Rightarrow> error + symbol list" where
  "Init f expString =
     and_then (ParseSymbols f expString 0 [])
       (\<lambda>parsedSymbols.
          if length parsedSymbols = 0 then Inl NoEvaluationExpression
          else and_then (RecursiveParseExpression parsedSymbols)
                 (\<lambda>parsedSymbols.
                    if length parsedSymbols \<noteq> 1 then Inl InvalidExpression
                    else Inr parsedSymbols))"

section \<open>Evaluation and event selection\<close>

unbundle bit_operations_syntax

text \<open>
  Modelled from the spec: the evaluation of nodes (\<^verbatim>\<open>NodeDefs.h\<close> is not part of the
  sources), after section 4.4. The value of a node for the current event is the list of
  its elements. A \<^verbatim>\<open>double\<close> is a real number here, so that rounding, NaN and the
  infinities are outside the model: \<open>None\<close> is the value of a node exactly when an
  element of it is not a number that the operands determine, which is the case for a NaN
  or an infinity (the logarithm of a number that is not positive, the square root of a
  negative number, a division by zero in \<^verbatim>\<open>double\<close>), for the integer divisions that C++
  leaves undefined (by zero, and of the least \<^verbatim>\<open>int64_t\<close> by \<open>-1\<close>), and for
  \<^verbatim>\<open>rand()\<close>, whose value the record does not determine.
\<close>

definition nonzero :: "scalar \<Rightarrow> bool" where
  "nonzero v = (case v of U64 w \<Rightarrow> w \<noteq> 0 | I64 w \<Rightarrow> w \<noteq> 0 | F64 x \<Rightarrow> x \<noteq> 0)"

definition truth :: "bool \<Rightarrow> scalar" where
  "truth b = U64 (if b then 1 else 0)"

definition to_double :: "scalar \<Rightarrow> real" where
  "to_double v = (case static_cast F64T v of F64 x \<Rightarrow> x | _ \<Rightarrow> 0)"

definition to_word :: "scalar \<Rightarrow> 64 word" where
  "to_word v = (case static_cast U64T v of U64 w \<Rightarrow> w | _ \<Rightarrow> 0)"

text \<open>
  Modelled from the spec: the reducers have one element: \<^verbatim>\<open>any\<close> is 1 when some element of its operand is not
  zero, \<^verbatim>\<open>all\<close> when none is zero, \<^verbatim>\<open>sum\<close> adds the elements in the type of the
  operand, and \<^verbatim>\<open>unique\<close> counts the distinct elements.
\<close>

definition AnyNode_get :: "scalar list \<Rightarrow> 64 word" where
  "AnyNode_get row = (if list_ex nonzero row then 1 else 0)"

definition AllNode_get :: "scalar list \<Rightarrow> 64 word" where
  "AllNode_get row = (if list_all nonzero row then 1 else 0)"

definition SumNode_get :: "etype \<Rightarrow> scalar list \<Rightarrow> scalar" where
  "SumNode_get t row =
     (case t of
        F64T \<Rightarrow> F64 (sum_list (map to_double row))
      | I64T \<Rightarrow> I64 (sum_list (map to_word row))
      | U64T \<Rightarrow> U64 (sum_list (map to_word row)))"

definition UniqueNode_get :: "scalar list \<Rightarrow> 64 word" where
  "UniqueNode_get row = word_of_nat (length (remdups row))"

text \<open>
  Modelled from the spec: the other unary nodes have the elements of their operand, one by one. The functions of
  \<^verbatim>\<open>cmath\<close> are applied to the element as a \<^verbatim>\<open>double\<close>; \<^verbatim>\<open>abs\<close> keeps the type of
  its operand; \<^verbatim>\<open>isnan\<close> and \<^verbatim>\<open>isinf\<close> are 0 on every number; the casts are those of
  C++. \<^verbatim>\<open>~\<close> is built for integer operands only.
\<close>

definition math_function :: "unary_class \<Rightarrow> real \<Rightarrow> real option" where
  "math_function c x =
     (case c of
        SinNode \<Rightarrow> Some (sin x)
      | CosNode \<Rightarrow> Some (cos x)
      | TanNode \<Rightarrow> (if cos x = 0 then None else Some (tan x))
      | AsinNode \<Rightarrow> (if \<bar>x\<bar> \<le> 1 then Some (arcsin x) else None)
      | AcosNode \<Rightarrow> (if \<bar>x\<bar> \<le> 1 then Some (arccos x) else None)
      | AtanNode \<Rightarrow> Some (arctan x)
      | LogNode \<Rightarrow> (if 0 < x then Some (ln x) else None)
      | Log10Node \<Rightarrow> (if 0 < x then Some (log 10 x) else None)
      | ExpNode \<Rightarrow> Some (exp x)
      | SqrtNode \<Rightarrow> (if 0 \<le> x then Some (sqrt x) else None)
      | CeilNode \<Rightarrow> Some (of_int \<lceil>x\<rceil>)
      | FloorNode \<Rightarrow> Some (of_int \<lfloor>x\<rfloor>)
      | SinhNode \<Rightarrow> Some (sinh x)
      | CoshNode \<Rightarrow> Some (cosh x)
      | TanhNode \<Rightarrow> Some (tanh x)
      | _ \<Rightarrow> None)"

definition UnaryNode_get :: "unary_class \<Rightarrow> scalar \<Rightarrow> scalar option" where
  "UnaryNode_get c v =
     (case c of
        LogicalNOTNode \<Rightarrow> Some (truth (\<not> nonzero v))
      | BitwiseNOTNode \<Rightarrow>
          (case v of
             U64 w \<Rightarrow> Some (U64 (NOT w))
           | I64 w \<Rightarrow> Some (I64 (NOT w))
           | F64 x \<Rightarrow> None)
      | AbsNode \<Rightarrow>
          Some (case v of
                  U64 w \<Rightarrow> U64 w
                | I64 w \<Rightarrow> I64 (if sint w < 0 then - w else w)
                | F64 x \<Rightarrow> F64 \<bar>x\<bar>)
      | IsNaNNode \<Rightarrow> Some (truth False)
      | IsInfNode \<Rightarrow> Some (truth False)
      | IntNode \<Rightarrow> Some (static_cast I64T v)
      | UnsignedNode \<Rightarrow> Some (static_cast U64T v)
      | DoubleNode \<Rightarrow> Some (static_cast F64T v)
      | _ \<Rightarrow> map_option F64 (math_function c (to_double v)))"

definition map_row :: "(scalar \<Rightarrow> scalar option) \<Rightarrow> scalar list \<Rightarrow> scalar list option" where
  "map_row get row =
     (let vs = map get row
      in if list_all (\<lambda>v. v \<noteq> None) vs then Some (map the vs) else None)"

text \<open>
  Modelled from the spec: a binary node coerces both operands to the dominant type. Comparisons, equalities and
  the logical operators give 0 or 1; the arithmetic operators give a value of the
  dominant type, the integer ones modulo \<open>2 ^ 64\<close>; \<^verbatim>\<open>/\<close> and \<^verbatim>\<open>%\<close> on integers
  truncate towards zero, and \<^verbatim>\<open>%\<close> on a \<^verbatim>\<open>double\<close> is \<^verbatim>\<open>fmod\<close>; \<^verbatim>\<open>pow\<close>,
  \<^verbatim>\<open>fmod\<close> and \<^verbatim>\<open>atan2\<close> are carried out in \<^verbatim>\<open>double\<close>; the bitwise operators are
  built for integer operands only.
\<close>

definition less_than :: "etype \<Rightarrow> scalar \<Rightarrow> scalar \<Rightarrow> bool" where
  "less_than d a b =
     (case d of
        F64T \<Rightarrow> to_double a < to_double b
      | I64T \<Rightarrow> sint (to_word a) < sint (to_word b)
      | U64T \<Rightarrow> to_word a < to_word b)"

definition equal_to :: "etype \<Rightarrow> scalar \<Rightarrow> scalar \<Rightarrow> bool" where
  "equal_to d a b =
     (case d of
        F64T \<Rightarrow> to_double a = to_double b
      | I64T \<Rightarrow> to_word a = to_word b
      | U64T \<Rightarrow> to_word a = to_word b)"

definition AdditionNode_get :: "etype \<Rightarrow> scalar \<Rightarrow> scalar \<Rightarrow> scalar option" where
  "AdditionNode_get d a b =
     Some (case d of
             F64T \<Rightarrow> F64 (to_double a + to_double b)
           | I64T \<Rightarrow> I64 (to_word a + to_word b)
           | U64T \<Rightarrow> U64 (to_word a + to_word b))"

definition SubtractionNode_get :: "etype \<Rightarrow> scalar \<Rightarrow> scalar \<Rightarrow> scalar option" where
  "SubtractionNode_get d a b =
     Some (case d of
             F64T \<Rightarrow> F64 (to_double a - to_double b)
           | I64T \<Rightarrow> I64 (to_word a - to_word b)
           | U64T \<Rightarrow> U64 (to_word a - to_word b))"

definition MultiplicationNode_get :: "etype \<Rightarrow> scalar \<Rightarrow> scalar \<Rightarrow> scalar option" where
  "MultiplicationNode_get d a b =
     Some (case d of
             F64T \<Rightarrow> F64 (to_double a * to_double b)
           | I64T \<Rightarrow> I64 (to_word a * to_word b)
           | U64T \<Rightarrow> U64 (to_word a * to_word b))"

definition quotient :: "int \<Rightarrow> int \<Rightarrow> int" where
  "quotient x y = sgn x * sgn y * (\<bar>x\<bar> div \<bar>y\<bar>)"

definition remainder :: "int \<Rightarrow> int \<Rightarrow> int" where
  "remainder x y = x - y * quotient x y"

definition undefined_division :: "64 word \<Rightarrow> 64 word \<Rightarrow> bool" where
  "undefined_division a b = (b = 0 \<or> (sint a = - (2 ^ 63) \<and> sint b = - 1))"

definition fmod :: "real \<Rightarrow> real \<Rightarrow> real option" where
  "fmod x y = (if y = 0 then None else Some (x - y * of_int (truncate (x / y))))"

definition DivisionNode_get :: "etype \<Rightarrow> scalar \<Rightarrow> scalar \<Rightarrow> scalar option" where
  "DivisionNode_get d a b =
     (case d of
        F64T \<Rightarrow> if to_double b = 0 then None else Some (F64 (to_double a / to_double b))
      | I64T \<Rightarrow>
          if undefined_division (to_word a) (to_word b) then None
          else Some (I64 (word_of_int (quotient (sint (to_word a)) (sint (to_word b)))))
      | U64T \<Rightarrow> if to_word b = 0 then None else Some (U64 (to_word a div to_word b)))"

definition ModulusNode_get :: "etype \<Rightarrow> scalar \<Rightarrow> scalar \<Rightarrow> scalar option" where
  "ModulusNode_get d a b =
     (case d of
        F64T \<Rightarrow> map_option F64 (fmod (to_double a) (to_double b))
      | I64T \<Rightarrow>
          if undefined_division (to_word a) (to_word b) then None
          else Some (I64 (word_of_int (remainder (sint (to_word a)) (sint (to_word b)))))
      | U64T \<Rightarrow> if to_word b = 0 then None else Some (U64 (to_word a mod to_word b)))"

text \<open>
  Modelled from the spec: \<^verbatim>\<open>pow(x, y)\<close>, with the values it has in \<^verbatim>\<open>cmath\<close>. It
  is \<open>x powr y\<close> for a positive base; 1 for the exponent 0; 0 for the base 0 and a
  positive exponent; for a negative base and an integral exponent the power of the
  absolute value, negated when the exponent is odd; a NaN or an infinity otherwise.
\<close>

definition PowerNode_get :: "scalar \<Rightarrow> scalar \<Rightarrow> scalar option" where
  "PowerNode_get a b =
     (if 0 < to_double a then Some (F64 (to_double a powr to_double b))
      else if to_double b = 0 then Some (F64 1)
      else if to_double a = 0 then (if 0 < to_double b then Some (F64 0) else None)
      else if to_double b = of_int \<lfloor>to_double b\<rfloor>
      then Some (F64 ((if even \<lfloor>to_double b\<rfloor> then 1 else - 1)
                        * (\<bar>to_double a\<bar> powr to_double b)))
      else None)"

definition atan2 :: "real \<Rightarrow> real \<Rightarrow> real" where
  "atan2 y x =
     (if 0 < x then arctan (y / x)
      else if x < 0 then (if 0 \<le> y then arctan (y / x) + pi else arctan (y / x) - pi)
      else if 0 < y then pi / 2
      else if y < 0 then - (pi / 2)
      else 0)"

definition BitwiseORNode_get :: "etype \<Rightarrow> scalar \<Rightarrow> scalar \<Rightarrow> scalar option" where
  "BitwiseORNode_get d a b =
     (case d of
        F64T \<Rightarrow> None
      | I64T \<Rightarrow> Some (I64 (to_word a OR to_word b))
      | U64T \<Rightarrow> Some (U64 (to_word a OR to_word b)))"

definition BitwiseANDNode_get :: "etype \<Rightarrow> scalar \<Rightarrow> scalar \<Rightarrow> scalar option" where
  "BitwiseANDNode_get d a b =
     (case d of
        F64T \<Rightarrow> None
      | I64T \<Rightarrow> Some (I64 (to_word a AND to_word b))
      | U64T \<Rightarrow> Some (U64 (to_word a AND to_word b)))"

definition BinaryNode_get :: "binary_class \<Rightarrow> etype \<Rightarrow> scalar \<Rightarrow> scalar \<Rightarrow> scalar option" where
  "BinaryNode_get c d a b =
     (case c of
        EqualityNode \<Rightarrow> Some (truth (equal_to d a b))
      | InequalityNode \<Rightarrow> Some (truth (\<not> equal_to d a b))
      | GreaterThanNode \<Rightarrow> Some (truth (less_than d b a))
      | LessThanNode \<Rightarrow> Some (truth (less_than d a b))
      | GreaterThanEqualNode \<Rightarrow> Some (truth (\<not> less_than d a b))
      | LessThanEqualNode \<Rightarrow> Some (truth (\<not> less_than d b a))
      | LogicalORNode \<Rightarrow> Some (truth (nonzero a \<or> nonzero b))
      | LogicalANDNode \<Rightarrow> Some (truth (nonzero a \<and> nonzero b))
      | BitwiseORNode \<Rightarrow> BitwiseORNode_get d a b
      | BitwiseANDNode \<Rightarrow> BitwiseANDNode_get d a b
      | AdditionNode \<Rightarrow> AdditionNode_get d a b
      | SubtractionNode \<Rightarrow> SubtractionNode_get d a b
      | MultiplicationNode \<Rightarrow> MultiplicationNode_get d a b
      | DivisionNode \<Rightarrow> DivisionNode_get d a b
      | ModulusNode \<Rightarrow> ModulusNode_get d a b
      | PowerNode \<Rightarrow> PowerNode_get a b
      | FmodNode \<Rightarrow> map_option F64 (fmod (to_double a) (to_double b))
      | Atan2Node \<Rightarrow> Some (F64 (atan2 (to_double a) (to_double b))))"

text \<open>
  Modelled from the spec: a binary node has no element when an operand has none, and otherwise as many as the
  longer operand, the shorter one repeating its last element.
\<close>

definition broadcast ::
  "(scalar \<Rightarrow> scalar \<Rightarrow> scalar option) \<Rightarrow> scalar list \<Rightarrow> scalar list \<Rightarrow> scalar list option"
where
  "broadcast get r1 r2 =
     (if r1 = [] \<or> r2 = [] then Some []
      else
        (let vs = map (\<lambda>i. get (r1 ! min i (length r1 - 1)) (r2 ! min i (length r2 - 1)))
                    [0 ..< max (length r1) (length r2)]
         in if list_all (\<lambda>v. v \<noteq> None) vs then Some (map the vs) else None))"

text \<open>
  Modelled from the spec: \<^verbatim>\<open>in\<close> has the elements of its first operand, each replaced by 1 when it is equal to
  a value of the list, which \<^verbatim>\<open>GetInNode\<close> has cast to the type of the operand, and by 0
  otherwise.
\<close>

fun eval :: "xcdf_file \<Rightarrow> node \<Rightarrow> scalar list option" where
  "eval f (FieldNode t name) = Some (field_data f name)"
| "eval f (AliasNode t name) = Some (alias_data f name)"
| "eval f CounterNode = Some [U64 (current_event_number f)]"
| "eval f (ConstNode v) = Some [v]"
| "eval f (Unary c n) =
     (case eval f n of
        None \<Rightarrow> None
      | Some row \<Rightarrow>
          if c = AnyNode then Some [U64 (AnyNode_get row)]
          else if c = AllNode then Some [U64 (AllNode_get row)]
          else if c = SumNode then Some [SumNode_get (node_type n) row]
          else if c = UniqueNode then Some [U64 (UniqueNode_get row)]
          else map_row (UnaryNode_get c) row)"
| "eval f (Binary c n1 n2) =
     (case (eval f n1, eval f n2) of
        (Some r1, Some r2) \<Rightarrow>
          broadcast (BinaryNode_get c (dominant (node_type n1) (node_type n2))) r1 r2
      | _ \<Rightarrow> None)"
| "eval f (InNode n data) =
     map_option (map (\<lambda>v. truth (v \<in> set data))) (eval f n)"
| "eval f RandNode = None"



section \<open>Reserved words and example record sources\<close>

text \<open>
  The identifiers with a meaning of their own in \<^verbatim>\<open>Expression::ParseValueImpl\<close>:
  \<^verbatim>\<open>currentEventNumber\<close>, the function keywords, \<^verbatim>\<open>true\<close> and \<^verbatim>\<open>false\<close>.
\<close>

definition reserved_words :: "string list" where
  "reserved_words = ''currentEventNumber'' # map fst keyword_table"

definition reserved_meaning :: "string \<Rightarrow> symbol option" where
  "reserved_meaning w =
     (if w = ''currentEventNumber'' then Some (Node CounterNode) else map_of keyword_table w)"

text \<open>
  The record source of the scenarios of section 8.2 of the specification at row 0: an
  unsigned scalar field \<^verbatim>\<open>n\<close> and a floating-point vector field \<^verbatim>\<open>v\<close>; in
  addition an unsigned vector field \<^verbatim>\<open>w\<close> with the elements 0 and 1.
\<close>

definition example_file :: xcdf_file where
  "example_file =
     \<lparr>field_type = [''n'' \<mapsto> U64T, ''v'' \<mapsto> F64T, ''w'' \<mapsto> U64T],
      alias_type = Map.empty,
      field_data = (\<lambda>name. if name = ''n'' then [U64 3]
                            else if name = ''v'' then [F64 1, F64 4, F64 9]
                            else if name = ''w'' then [U64 0, U64 1] else []),
      alias_data = (\<lambda>name. []), current_event_number = 0\<rparr>"

text \<open>A record source with a floating-point field named \<^verbatim>\<open>sum\<close>.\<close>

definition file_with_field_sum :: xcdf_file where
  "file_with_field_sum =
     \<lparr>field_type = [''sum'' \<mapsto> F64T], alias_type = Map.empty,
      field_data = (\<lambda>name. []), alias_data = (\<lambda>name. []), current_event_number = 0\<rparr>"

text \<open>A record source with a floating-point field named \<^verbatim>\<open>fabs\<close>.\<close>

definition file_with_field_fabs :: xcdf_file where
  "file_with_field_fabs =
     \<lparr>field_type = [''fabs'' \<mapsto> F64T], alias_type = Map.empty,
      field_data = (\<lambda>name. []), alias_data = (\<lambda>name. []), current_event_number = 0\<rparr>"

text \<open>
  The constant that a symbol of an \<^verbatim>\<open>in\<close> list holds, if it is a constant node, and
  the symbols that \<^verbatim>\<open>GetInNode\<close> reads from its second argument.
\<close>

definition constant_of :: "symbol \<Rightarrow> scalar option" where
  "constant_of s = (case s of Node (ConstNode v) \<Rightarrow> Some v | _ \<Rightarrow> None)"

definition list_elements :: "symbol \<Rightarrow> symbol list" where
  "list_elements n2 = (case n2 of ListSymbol list \<Rightarrow> list | _ \<Rightarrow> [n2])"

section \<open>Properties of symbol lists\<close>

text \<open>
  A pass \<open>pass\<close> with the specification \<open>pass_spec p pass\<close> leaves no symbol that
  satisfies \<open>p\<close>, and every symbol that it leaves is a symbol of its input, a node or a
  list.
\<close>

definition node_or_list :: "symbol \<Rightarrow> bool" where
  "node_or_list s = (case s of Symbol _ \<Rightarrow> False | _ \<Rightarrow> True)"

definition pass_spec ::
  "(symbol \<Rightarrow> bool) \<Rightarrow> (symbol list \<Rightarrow> error + symbol list) \<Rightarrow> bool"
where
  "pass_spec p pass =
     (\<forall>xs ys. pass xs = Inr ys \<longrightarrow>
        (\<forall>s \<in> set ys. \<not> p s \<and> (s \<in> set xs \<or> node_or_list s)))"

text \<open>The symbols that the function pass replaces, and those that any pass replaces.\<close>

definition is_function_or_power :: "symbol \<Rightarrow> bool" where
  "is_function_or_power s =
     (IsUnaryFunction s \<or> IsVoidFunction s \<or> IsBinaryFunction s \<or> GetType s = POWER)"

definition is_operator :: "symbol \<Rightarrow> bool" where
  "is_operator s =
     (is_function_or_power s \<or> GetType s = LOGICAL_NOT \<or> GetType s = BITWISE_NOT \<or>
      GetType s = MULTIPLICATION \<or> GetType s = DIVISION \<or> GetType s = MODULUS \<or>
      GetType s = ADDITION \<or> GetType s = SUBTRACTION \<or> IsComparison s \<or> IsEquality s \<or>
      GetType s = BITWISE_AND \<or> GetType s = BITWISE_OR \<or> GetType s = LOGICAL_AND \<or>
      GetType s = LOGICAL_OR \<or> GetType s = COMMA)"

text \<open>
  The parentheses of a list of symbols and of a string, in their order (\<open>True\<close> for an
  opening one), and the nesting depth after a sequence of parentheses; \<open>None\<close> when a
  closing parenthesis has no partner. A symbol that the tokenizer emits is well formed: a
  node, an operator, a function or a parenthesis.
\<close>

definition is_paren :: "symbol \<Rightarrow> bool" where
  "is_paren s = (GetType s = OPEN_PARAND \<or> GetType s = CLOSE_PARAND)"

definition sym_parens :: "symbol list \<Rightarrow> bool list" where
  "sym_parens xs = map (\<lambda>s. GetType s = OPEN_PARAND) (filter is_paren xs)"

definition str_parens :: "string \<Rightarrow> bool list" where
  "str_parens cs = map (\<lambda>c. c = CHR ''('') (filter (\<lambda>c. c = CHR ''('' \<or> c = CHR '')'') cs)"

fun depth_after :: "nat \<Rightarrow> bool list \<Rightarrow> nat option" where
  "depth_after d [] = Some d"
| "depth_after d (True # ps) = depth_after (Suc d) ps"
| "depth_after d (False # ps) = (case d of 0 \<Rightarrow> None | Suc d' \<Rightarrow> depth_after d' ps)"

definition balanced :: "bool list \<Rightarrow> bool" where
  "balanced ps = (depth_after 0 ps = Some 0)"

definition balanced_parentheses :: "string \<Rightarrow> bool" where
  "balanced_parentheses expr = balanced (str_parens expr)"

definition well_formed :: "symbol list \<Rightarrow> bool" where
  "well_formed xs = (\<forall>s \<in> set xs. node_or_list s \<or> is_operator s \<or> is_paren s)"

section \<open>Evaluation of the definitions on concrete input\<close>

lemma classify_Symbol:
  "IsUnaryFunction (Symbol t) = (t \<in> set unary_function_types)"
  "IsBinaryFunction (Symbol t) = (t \<in> set [FMOD, POW, ATAN2, IN])"
  "IsVoidFunction (Symbol t) = (t = RAND)"
  "IsComparison (Symbol t)
     = (t \<in> set [GREATER_THAN, LESS_THAN, GREATER_THAN_EQUAL, LESS_THAN_EQUAL])"
  "IsEquality (Symbol t) = (t \<in> set [EQUALITY, INEQUALITY])"
  by (simp_all add: IsUnaryFunction_def IsBinaryFunction_def IsVoidFunction_def
        IsComparison_def IsEquality_def is_unary_function_type_def
        is_binary_function_type_def is_void_function_type_def is_comparison_type_def
        is_equality_type_def)

lemma GetType_Node:
  "GetType (Node n) \<in> {FLOATING_POINT_NODE, SIGNED_NODE, UNSIGNED_NODE}"
  by (cases "node_type n") (simp_all add: GetType.simps)

lemma classify_Node:
  "\<not> IsUnaryFunction (Node n)" "\<not> IsBinaryFunction (Node n)" "\<not> IsVoidFunction (Node n)"
  "\<not> IsComparison (Node n)" "\<not> IsEquality (Node n)"
  "GetType (Node n) \<noteq> POWER" "GetType (Node n) \<noteq> LOGICAL_NOT"
  "GetType (Node n) \<noteq> BITWISE_NOT" "GetType (Node n) \<noteq> MULTIPLICATION"
  "GetType (Node n) \<noteq> DIVISION" "GetType (Node n) \<noteq> MODULUS"
  "GetType (Node n) \<noteq> ADDITION" "GetType (Node n) \<noteq> SUBTRACTION"
  "GetType (Node n) \<noteq> BITWISE_AND" "GetType (Node n) \<noteq> BITWISE_OR"
  "GetType (Node n) \<noteq> LOGICAL_AND" "GetType (Node n) \<noteq> LOGICAL_OR"
  "GetType (Node n) \<noteq> COMMA" "GetType (Node n) \<noteq> OPEN_PARAND"
  "GetType (Node n) \<noteq> CLOSE_PARAND" "GetType (Node n) \<noteq> LIST"
  using GetType_Node [of n]
  by (auto simp: IsUnaryFunction_def IsBinaryFunction_def IsVoidFunction_def
        IsComparison_def IsEquality_def is_unary_function_type_def
        is_binary_function_type_def is_void_function_type_def is_comparison_type_def
        is_equality_type_def unary_function_types_def)

lemma node_symbol_type:
  "((case t of U64T \<Rightarrow> UNSIGNED_NODE | I64T \<Rightarrow> SIGNED_NODE | F64T \<Rightarrow> FLOATING_POINT_NODE)
      = x)
   = (t = U64T \<and> x = UNSIGNED_NODE \<or> t = I64T \<and> x = SIGNED_NODE
      \<or> t = F64T \<and> x = FLOATING_POINT_NODE)"
  by (cases t) auto

lemma classify_ListSymbol:
  "\<not> IsUnaryFunction (ListSymbol l)" "\<not> IsBinaryFunction (ListSymbol l)"
  "\<not> IsVoidFunction (ListSymbol l)" "\<not> IsComparison (ListSymbol l)"
  "\<not> IsEquality (ListSymbol l)"
  by (simp_all add: IsUnaryFunction_def IsBinaryFunction_def IsVoidFunction_def
        IsComparison_def IsEquality_def is_unary_function_type_def
        is_binary_function_type_def is_void_function_type_def is_comparison_type_def
        is_equality_type_def unary_function_types_def)

lemmas extraction_defs =
  extract_uint64_def extract_int64_def extract_integer_def extract_double_def
  extract_exponent_def is_exponent_char_def scale10_def isspace_def is_digit_def
  digit_value_def no_unconverted_def

lemmas numerical_defs =
  ParseNumerical_def ParseNumerical_mem_def DoConstNode_uint64_def DoConstNode_int64_def
  DoConstNode_double_def or_else_def extraction_defs

lemmas string_defs =
  find_first_of_def find_first_not_of_def find_last_of_def find_last_not_of_def substr_def
  whitespace_def operator_chars_def operator_tail_chars_def sign_chars_def

lemmas tokenizer_defs =
  GetNextSymbol_def ParseValue_def ParseOperator_def ParseOperatorImpl_def
  ParseValueImpl_def HasField_def HasAlias_def IsUnsignedIntegerField_def
  IsSignedIntegerField_def IsUnsignedIntegerAlias_def IsSignedIntegerAlias_def
  keyword_table_def IsNode_def IsFunction_def classify_Symbol classify_Node
  classify_ListSymbol unary_function_types_def

lemmas parser_defs =
  GetUnarySymbol_def GetBinarySymbol_def GetVoidSymbol_def DoGetNode_unary_def
  DoGetNode_binary_def GetNodeImpl_unary_def GetNodeImpl_binary_def GetNodeImpl_void_def
  unary_class_of_def binary_class_of_def and_then_def replace_function_step_def
  replace_unary_function_def replace_void_function_def replace_binary_function_def
  replace_power_def IsNode_def classify_Symbol classify_Node classify_ListSymbol
  unary_function_types_def apply_operators_def ReplaceMultiplyDivideModulus_def
  ReplaceAdditionSubtraction_def ReplaceComparison_def ReplaceBitwise_def ReplaceLogical_def
  join_list_def GetInNode_def GetNodeValue_def GetConstValue_def

lemmas tokenizer_simps = ParseValue_loop.simps ParseSymbols.simps operator_end.simps

lemmas parser_simps =
  RecursiveParseExpression.simps ReplaceParenthesis.simps ReplaceParenthesis_while.simps

section \<open>Value classification\<close>

lemma keywords_not_numerical: "\<forall>w \<in> set reserved_words. ParseNumerical w = None"
  by (simp add: reserved_words_def keyword_table_def numerical_defs)

lemma field_node_type:
  "field_type f w = Some t \<Longrightarrow> ParseValueImpl f w = Some (Node (FieldNode t w))"
  by (cases t) (simp_all add: ParseValueImpl_def HasField_def IsUnsignedIntegerField_def
                  IsSignedIntegerField_def)

lemma alias_node_type:
  "field_type f w = None \<Longrightarrow> alias_type f w = Some t
   \<Longrightarrow> ParseValueImpl f w = Some (Node (AliasNode t w))"
  by (cases t) (simp_all add: ParseValueImpl_def HasField_def HasAlias_def
                  IsUnsignedIntegerAlias_def IsSignedIntegerAlias_def)

lemma reserved_word_value:
  assumes "w \<in> set reserved_words" "field_type f w = None" "alias_type f w = None"
  shows "ParseValueImpl f w = reserved_meaning w"
  using assms keywords_not_numerical
  by (auto simp: ParseValueImpl_def HasField_def HasAlias_def reserved_meaning_def)

text \<open>
  C2 (the code at the input \<^verbatim>\<open>0x1F\<close>). The token contains an \<^verbatim>\<open>x\<close>, and the
  hexadecimal extraction of \<^verbatim>\<open>DoConstNode<uint64_t>\<close> would consume it entirely and
  give 31. \<^verbatim>\<open>ParseNumerical\<close> does not attempt it, whatever bytes follow the array
  \<^verbatim>\<open>hex\<close>: the search is for the sequence \<^verbatim>\<open>Xx\<close>, and the decimal extractions
  leave \<^verbatim>\<open>x1F\<close> unconverted, so the result is \<^verbatim>\<open>NULL\<close>.
\<close>

theorem hex_literal_not_attempted:
  "ParseNumerical_mem mem ''0x1F'' = None \<and>
   DoConstNode_uint64 ''0x1F'' 16 = Some (Node (ConstNode (U64 31)))"
  by (simp add: numerical_defs)

text \<open>
  C4, as the code has it. For every reserved word, a field of that name comes first, an
  alias of that name second, and the reserved meaning is taken only when the record
  source has neither: with a field or an alias of that name, the identifier is that
  field or alias.
\<close>

theorem reserved_word_resolution:
  "\<forall>w \<in> set reserved_words.
     ParseValueImpl f w =
       (case field_type f w of
          Some t \<Rightarrow> Some (Node (FieldNode t w))
        | None \<Rightarrow>
            (case alias_type f w of
               Some t \<Rightarrow> Some (Node (AliasNode t w))
             | None \<Rightarrow> reserved_meaning w))"
  by (auto simp: field_node_type alias_node_type reserved_word_value split: option.splits)

theorem reserved_word_resolution_witness:
  "''sum'' \<in> set reserved_words \<and>
   ParseValueImpl example_file ''sum'' = Some (Symbol SUM') \<and>
   ParseValueImpl file_with_field_sum ''sum'' = Some (Node (FieldNode F64T ''sum''))"
  using reserved_word_resolution [of example_file]
    reserved_word_resolution [of file_with_field_sum]
  by (simp add: reserved_words_def reserved_meaning_def keyword_table_def example_file_def
        file_with_field_sum_def)

text \<open>
  C4, as the claim states it, fails: \<^verbatim>\<open>sum\<close> is a function keyword, and with a
  field named \<^verbatim>\<open>sum\<close> the identifier is classified as the field, not as the
  function.
\<close>

theorem reserved_word_shadowed_by_field:
  "''sum'' \<in> set reserved_words \<and>
   reserved_meaning ''sum'' = Some (Symbol SUM') \<and>
   field_type file_with_field_sum ''sum'' = Some F64T \<and>
   ParseValueImpl file_with_field_sum ''sum'' = Some (Node (FieldNode F64T ''sum'')) \<and>
   ParseValueImpl file_with_field_sum ''sum'' \<noteq> reserved_meaning ''sum''"
  by (simp add: reserved_words_def reserved_meaning_def keyword_table_def
        field_node_type file_with_field_sum_def)

lemma fabs_tokens:
  "ParseSymbols example_file ''fabs(v)'' 0 []
     = Inr [Symbol ABS, Symbol OPEN_PARAND, Node (FieldNode F64T ''v''), Symbol CLOSE_PARAND]"
  by (simp add: tokenizer_defs string_defs numerical_defs example_file_def tokenizer_simps)

lemma abs_tokens:
  "ParseSymbols example_file ''abs(v)'' 0 []
     = Inr [Symbol ABS, Symbol OPEN_PARAND, Node (FieldNode F64T ''v''), Symbol CLOSE_PARAND]"
  by (simp add: tokenizer_defs string_defs numerical_defs example_file_def tokenizer_simps)

text \<open>
  C9, as the code has it. Unless a field or an alias of the record source has the name
  \<^verbatim>\<open>fabs\<close>, the identifier is classified as the symbol \<open>ABS\<close>, which is the
  meaning of the keyword \<^verbatim>\<open>abs\<close> and what \<^verbatim>\<open>abs\<close> is classified as unless a
  field or an alias has that name; \<open>ABS\<close> is a unary function, and the function pass
  replaces it and its operand, whatever node that is, by the \<^verbatim>\<open>AbsNode\<close> over the
  operand.
\<close>

theorem fabs_is_abs:
  assumes "field_type f ''fabs'' = None" and "alias_type f ''fabs'' = None"
  shows "ParseValueImpl f ''fabs'' = Some (Symbol ABS) \<and>
         reserved_meaning ''abs'' = Some (Symbol ABS) \<and>
         (field_type f ''abs'' = None \<and> alias_type f ''abs'' = None
            \<longrightarrow> ParseValueImpl f ''abs'' = ParseValueImpl f ''fabs'') \<and>
         IsUnaryFunction (Symbol ABS) \<and>
         GetUnarySymbol [Symbol ABS, Node n1] ABS True = Inr (Node (Unary AbsNode n1)) \<and>
         ReplaceFunctions front (Symbol ABS # Node n1 # rest)
           = (if rest \<noteq> [] \<and> IsNode (hd rest) then Inl TooManyUnaryArguments
              else ReplaceFunctions (front @ [Node (Unary AbsNode n1)]) rest) \<and>
         ReplaceFunctions [] [Symbol ABS, Node n1] = Inr [Node (Unary AbsNode n1)]"
proof -
  have words: "''fabs'' \<in> set reserved_words" "''abs'' \<in> set reserved_words"
    by (simp_all add: reserved_words_def keyword_table_def)
  have meaning: "reserved_meaning ''fabs'' = Some (Symbol ABS)"
    "reserved_meaning ''abs'' = Some (Symbol ABS)"
    by (simp_all add: reserved_meaning_def keyword_table_def)
  from assms words(1) have fabs: "ParseValueImpl f ''fabs'' = Some (Symbol ABS)"
    by (simp add: reserved_word_value meaning)
  have abs: "ParseValueImpl f ''abs'' = ParseValueImpl f ''fabs''"
    if "field_type f ''abs'' = None \<and> alias_type f ''abs'' = None"
    using that words(2) by (simp add: reserved_word_value meaning fabs)
  have unary: "IsUnaryFunction (Symbol ABS)"
    by (simp add: IsUnaryFunction_def is_unary_function_type_def unary_function_types_def)
  have get: "GetUnarySymbol (Symbol ABS # Node n1 # rest) ABS True
               = (if rest \<noteq> [] \<and> IsNode (hd rest) then Inl TooManyUnaryArguments
                  else Inr (Node (Unary AbsNode n1)))" for rest
    by (cases rest)
       (simp_all add: GetUnarySymbol_def IsNode_def DoGetNode_unary_def GetNodeImpl_unary_def
          unary_class_of_def and_then_def)
  have step: "ReplaceFunctions front (Symbol ABS # Node n1 # rest)
                = (if rest \<noteq> [] \<and> IsNode (hd rest) then Inl TooManyUnaryArguments
                   else ReplaceFunctions (front @ [Node (Unary AbsNode n1)]) rest)"
    for front rest
    by (simp add: replace_function_step_def replace_unary_function_def
          replace_void_function_def replace_binary_function_def replace_power_def
          unary get and_then_def classify_Node)
  from get [of "[]"] have "GetUnarySymbol [Symbol ABS, Node n1] ABS True
                             = Inr (Node (Unary AbsNode n1))"
    by simp
  moreover from step [of "[]" "[]"]
  have "ReplaceFunctions [] [Symbol ABS, Node n1] = Inr [Node (Unary AbsNode n1)]"
    by simp
  ultimately show ?thesis using fabs meaning abs unary step by blast
qed

theorem fabs_is_abs_witness:
  "field_type example_file ''fabs'' = None \<and> alias_type example_file ''fabs'' = None \<and>
   field_type example_file ''abs'' = None \<and> alias_type example_file ''abs'' = None \<and>
   ParseValueImpl example_file ''fabs'' = Some (Symbol ABS) \<and>
   ParseValueImpl example_file ''abs'' = Some (Symbol ABS) \<and>
   ReplaceFunctions [] [Symbol ABS, Node (FieldNode F64T ''v'')]
     = Inr [Node (Unary AbsNode (FieldNode F64T ''v''))] \<and>
   Init example_file ''fabs(v)'' = Inr [Node (Unary AbsNode (FieldNode F64T ''v''))] \<and>
   Init example_file ''abs(v)'' = Inr [Node (Unary AbsNode (FieldNode F64T ''v''))] \<and>
   eval example_file (Unary AbsNode (FieldNode F64T ''v'')) = Some [F64 1, F64 4, F64 9]"
proof -
  have h: "field_type example_file ''fabs'' = None" "alias_type example_file ''fabs'' = None"
    by (simp_all add: example_file_def)
  have h': "field_type example_file ''abs'' = None \<and> alias_type example_file ''abs'' = None"
    by (simp add: example_file_def)
  note t = fabs_is_abs [OF h, of "FieldNode F64T ''v''"]
  from t h' have "ParseValueImpl example_file ''fabs'' = Some (Symbol ABS)"
    "ParseValueImpl example_file ''abs'' = Some (Symbol ABS)"
    "ReplaceFunctions [] [Symbol ABS, Node (FieldNode F64T ''v'')]
       = Inr [Node (Unary AbsNode (FieldNode F64T ''v''))]"
    by simp_all
  moreover have "Init example_file ''fabs(v)''
                   = Inr [Node (Unary AbsNode (FieldNode F64T ''v''))]"
    by (simp add: Init_def fabs_tokens parser_defs parser_simps)
  moreover have "Init example_file ''abs(v)''
                   = Inr [Node (Unary AbsNode (FieldNode F64T ''v''))]"
    by (simp add: Init_def abs_tokens parser_defs parser_simps)
  moreover have "field_data example_file ''v'' = [F64 1, F64 4, F64 9]"
    by (simp add: example_file_def)
  then have "eval example_file (Unary AbsNode (FieldNode F64T ''v''))
               = Some [F64 1, F64 4, F64 9]"
    by (simp add: map_row_def UnaryNode_get_def)
  ultimately show ?thesis using h h' by simp
qed

text \<open>
  C9, as the claim states it, fails for a record source with a field named
  \<^verbatim>\<open>fabs\<close>: the identifier is then the field, which is no function, while \<^verbatim>\<open>abs\<close>
  still is the absolute value.
\<close>

theorem fabs_shadowed_by_field:
  "field_type file_with_field_fabs ''fabs'' = Some F64T \<and>
   ParseValueImpl file_with_field_fabs ''fabs'' = Some (Node (FieldNode F64T ''fabs'')) \<and>
   \<not> IsUnaryFunction (Node (FieldNode F64T ''fabs'')) \<and>
   ParseValueImpl file_with_field_fabs ''abs'' = Some (Symbol ABS) \<and>
   ParseValueImpl file_with_field_fabs ''fabs'' \<noteq> ParseValueImpl file_with_field_fabs ''abs''"
proof -
  have f: "field_type file_with_field_fabs ''fabs'' = Some F64T"
    by (simp add: file_with_field_fabs_def)
  have a: "field_type file_with_field_fabs ''abs'' = None"
    "alias_type file_with_field_fabs ''abs'' = None"
    by (simp_all add: file_with_field_fabs_def)
  have "''abs'' \<in> set reserved_words"
    by (simp add: reserved_words_def keyword_table_def)
  with a have "ParseValueImpl file_with_field_fabs ''abs'' = Some (Symbol ABS)"
    by (simp add: reserved_word_value reserved_meaning_def keyword_table_def)
  moreover have "\<not> IsUnaryFunction (Node (FieldNode F64T ''fabs''))"
    by (simp add: classify_Node)
  ultimately show ?thesis using f by (simp add: field_node_type)
qed

section \<open>Event selection\<close>



text \<open>
  The evaluation on nodes of several classes over the example record, whose field
  \<^verbatim>\<open>n\<close> holds 3, \<^verbatim>\<open>v\<close> holds 1, 4 and 9, and \<^verbatim>\<open>w\<close> holds 0 and 1.
\<close>

lemma example_file_data:
  "field_data example_file ''n'' = [U64 3]"
  "field_data example_file ''v'' = [F64 1, F64 4, F64 9]"
  "field_data example_file ''w'' = [U64 0, U64 1]"
  by (simp_all add: example_file_def)

lemma eval_examples:
  "eval example_file (Binary GreaterThanNode (FieldNode U64T ''n'') (ConstNode (U64 2)))
     = Some [U64 1]"
  "eval example_file (Binary GreaterThanNode (FieldNode F64T ''v'') (FieldNode U64T ''n''))
     = Some [U64 0, U64 1, U64 1]"
  "eval example_file (Unary SumNode (FieldNode F64T ''v'')) = Some [F64 14]"
  "eval example_file (Unary AllNode (FieldNode U64T ''w'')) = Some [U64 0]"
  "eval example_file (Unary LogicalNOTNode (FieldNode U64T ''w'')) = Some [U64 1, U64 0]"
  "eval example_file (Unary UniqueNode (FieldNode F64T ''v'')) = Some [U64 3]"
  "eval example_file (InNode (FieldNode F64T ''v'') [F64 4, F64 5])
     = Some [U64 0, U64 1, U64 0]"
  "eval example_file (Binary SubtractionNode (FieldNode U64T ''w'') (ConstNode (I64 1)))
     = Some [I64 (- 1), I64 0]"
  "eval example_file (Binary DivisionNode (FieldNode U64T ''n'') (ConstNode (U64 0))) = None"
  "eval example_file (Binary DivisionNode (FieldNode F64T ''v'') (ConstNode (U64 2)))
     = Some [F64 (1 / 2), F64 2, F64 (9 / 2)]"
  by (simp_all add: example_file_data broadcast_def map_row_def BinaryNode_get_def
        UnaryNode_get_def less_than_def truth_def to_double_def to_word_def nonzero_def
        SumNode_get_def AllNode_get_def UniqueNode_get_def SubtractionNode_get_def
        DivisionNode_get_def)




section \<open>The function \<^verbatim>\<open>in\<close>\<close>

lemma GetNodeValue_constant:
  "GetNodeValue T s =
     (case constant_of s of Some v \<Rightarrow> Inr (static_cast T v) | None \<Rightarrow> Inl NonConstantInList)"
proof (cases s)
  case (Node n)
  then show ?thesis
    by (cases n; cases "node_type n")
       (auto simp: GetNodeValue_def GetConstValue_def constant_of_def GetType.simps)
qed (simp_all add: GetNodeValue_def GetConstValue_def constant_of_def)

lemma GetNodeValues_constants:
  "GetNodeValues T ss =
     (case those (map constant_of ss) of
        Some vs \<Rightarrow> Inr (map (static_cast T) vs)
      | None \<Rightarrow> Inl NonConstantInList)"
  by (induction ss)
     (auto simp: GetNodeValue_constant and_then_def split: option.splits)

lemma GetInNode_constants:
  "GetInNode n1 n2 =
     (case those (map constant_of (list_elements n2)) of
        Some vs \<Rightarrow> Inr (Node (InNode n1 (map (static_cast (node_type n1)) vs)))
      | None \<Rightarrow> Inl NonConstantInList)"
  by (cases n2)
     (auto simp: GetInNode_def list_elements_def GetNodeValues_constants
         GetNodeValue_constant and_then_def split: option.splits)

lemma those_None: "those xs = None \<longleftrightarrow> None \<in> set xs"
  by (induction xs) (auto split: option.splits)

lemma those_Some: "those (map Some vs) = Some vs"
  by (induction vs) auto

lemma in_function_step:
  "replace_function_step front (Symbol IN # ListSymbol [Node x, n2] # rest) =
     and_then (GetInNode x n2) (\<lambda>s. Inr (front, s # rest))"
  by (auto simp: replace_function_step_def replace_unary_function_def
        replace_void_function_def replace_binary_function_def replace_power_def
        IsUnaryFunction_def IsVoidFunction_def IsBinaryFunction_def
        is_unary_function_type_def is_void_function_type_def is_binary_function_type_def
        unary_function_types_def GetBinarySymbol_def DoGetNode_binary_def and_then_def
        GetInNode_constants classify_Node
        split: sum.splits option.splits)

text \<open>
  C7. In the function pass, \<^verbatim>\<open>in\<close> with the arguments \<open>x\<close> and \<open>n2\<close> fails with the
  fatal error of \<^verbatim>\<open>GetNodeValue\<close> as soon as one of the symbols of \<open>n2\<close> (the
  symbols of the list, or \<open>n2\<close> itself when it is no list) is no constant node. When
  all of them are constants, the \<^verbatim>\<open>InNode\<close> holds their values cast to the element
  type of \<open>x\<close>.
\<close>

theorem in_requires_constants:
  "((\<exists>s \<in> set (list_elements n2). constant_of s = None) \<longrightarrow>
      ReplaceFunctions front (Symbol IN # ListSymbol [Node x, n2] # rest)
        = Inl NonConstantInList) \<and>
   (map constant_of (list_elements n2) = map Some vs \<longrightarrow>
      ReplaceFunctions front (Symbol IN # ListSymbol [Node x, n2] # rest)
        = ReplaceFunctions
            (front @ [Node (InNode x (map (static_cast (node_type x)) vs))]) rest)"
proof (intro conjI impI)
  assume "\<exists>s \<in> set (list_elements n2). constant_of s = None"
  then have "those (map constant_of (list_elements n2)) = None"
    by (force simp: those_None)
  then show "ReplaceFunctions front (Symbol IN # ListSymbol [Node x, n2] # rest)
               = Inl NonConstantInList"
    by (simp add: in_function_step GetInNode_constants and_then_def)
next
  assume "map constant_of (list_elements n2) = map Some vs"
  then have "those (map constant_of (list_elements n2)) = Some vs"
    by (simp add: those_Some)
  then show "ReplaceFunctions front (Symbol IN # ListSymbol [Node x, n2] # rest)
               = ReplaceFunctions
                   (front @ [Node (InNode x (map (static_cast (node_type x)) vs))]) rest"
    by (simp add: in_function_step GetInNode_constants and_then_def)
qed

theorem in_requires_constants_witness:
  "(\<exists>s \<in> set (list_elements (Node (FieldNode F64T ''v''))). constant_of s = None) \<and>
   ReplaceFunctions [] [Symbol IN, ListSymbol [Node (FieldNode U64T ''n''), Node (FieldNode F64T ''v'')]]
     = Inl NonConstantInList \<and>
   map constant_of (list_elements (ListSymbol [Node (ConstNode (U64 1)), Node (ConstNode (F64 3)), Node (ConstNode (I64 5))]))
     = map Some [U64 1, F64 3, I64 5] \<and>
   ReplaceFunctions [] [Symbol IN, ListSymbol [Node (FieldNode U64T ''n''),
        ListSymbol [Node (ConstNode (U64 1)), Node (ConstNode (F64 3)), Node (ConstNode (I64 5))]]]
     = Inr [Node (InNode (FieldNode U64T ''n'') [U64 1, U64 3, U64 5])]"
  using in_requires_constants [of "Node (FieldNode F64T ''v'')" "[]" "FieldNode U64T ''n''" "[]" "[]"]
    in_requires_constants [of "ListSymbol [Node (ConstNode (U64 1)), Node (ConstNode (F64 3)), Node (ConstNode (I64 5))]"
       "[]" "FieldNode U64T ''n''" "[]" "[U64 1, F64 3, I64 5]"]
  by (simp add: list_elements_def constant_of_def truncate_def)

section \<open>The power operator\<close>

lemma power_step:
  "replace_function_step (front @ [Node a]) (Symbol POWER # Node b # rest) =
     Inr (front, Node (Binary PowerNode a b) # rest)"
  by (simp add: parser_defs)

lemma power_tokens:
  "ParseSymbols example_file ''2 ^ 10 + 1'' 0 [] =
     Inr [Node (ConstNode (U64 2)), Symbol POWER, Node (ConstNode (U64 10)),
          Symbol ADDITION, Node (ConstNode (U64 1))]"
  by (simp add: tokenizer_defs string_defs numerical_defs example_file_def tokenizer_simps)

lemma power_chain_tokens:
  "ParseSymbols example_file ''2 ^ 3 ^ 2'' 0 [] =
     Inr [Node (ConstNode (U64 2)), Symbol POWER, Node (ConstNode (U64 3)),
          Symbol POWER, Node (ConstNode (U64 2))]"
  by (simp add: tokenizer_defs string_defs numerical_defs example_file_def tokenizer_simps)

text \<open>
  C5, as the code has it. In the function pass, a \<^verbatim>\<open>^\<close> between two nodes is
  replaced, together with both of them, by the \<^verbatim>\<open>PowerNode\<close>, and the pass goes on
  behind it; so a chain of \<^verbatim>\<open>^\<close> associates to the left. The function pass
  leaves \<^verbatim>\<open>!\<close>, \<^verbatim>\<open>~\<close> and \<^verbatim>\<open>*\<close> in place, and they are applied to the power
  afterwards. The expression \<^verbatim>\<open>2 ^ 10 + 1\<close> compiles to the sum of the power and 1,
  and its value is 1025.
\<close>

theorem power_in_function_phase:
  "ReplaceFunctions (front @ [Node a]) (Symbol POWER # Node b # rest)
     = ReplaceFunctions (front @ [Node (Binary PowerNode a b)]) rest \<and>
   apply_operators [Node a, Symbol POWER, Node b, Symbol POWER, Node c]
     = Inr [Node (Binary PowerNode (Binary PowerNode a b) c)] \<and>
   ReplaceFunctions [] [Symbol LOGICAL_NOT, Node a, Symbol POWER, Node b]
     = Inr [Symbol LOGICAL_NOT, Node (Binary PowerNode a b)] \<and>
   ReplaceFunctions [] [Symbol BITWISE_NOT, Node a, Symbol POWER, Node b]
     = Inr [Symbol BITWISE_NOT, Node (Binary PowerNode a b)] \<and>
   apply_operators [Symbol LOGICAL_NOT, Node a, Symbol POWER, Node b]
     = Inr [Node (Unary LogicalNOTNode (Binary PowerNode a b))] \<and>
   ReplaceFunctions [] [Node a, Symbol MULTIPLICATION, Node b, Symbol POWER, Node c]
     = Inr [Node a, Symbol MULTIPLICATION, Node (Binary PowerNode b c)] \<and>
   apply_operators [Node a, Symbol MULTIPLICATION, Node b, Symbol POWER, Node c]
     = Inr [Node (Binary MultiplicationNode a (Binary PowerNode b c))] \<and>
   Init example_file ''2 ^ 10 + 1''
     = Inr [Node (Binary AdditionNode
                   (Binary PowerNode (ConstNode (U64 2)) (ConstNode (U64 10)))
                   (ConstNode (U64 1)))] \<and>
   eval example_file
     (Binary AdditionNode (Binary PowerNode (ConstNode (U64 2)) (ConstNode (U64 10)))
        (ConstNode (U64 1)))
     = Some [F64 1025]"
proof (intro conjI)
  show "ReplaceFunctions (front @ [Node a]) (Symbol POWER # Node b # rest)
          = ReplaceFunctions (front @ [Node (Binary PowerNode a b)]) rest"
    by (simp add: power_step)
  show "apply_operators [Node a, Symbol POWER, Node b, Symbol POWER, Node c]
          = Inr [Node (Binary PowerNode (Binary PowerNode a b) c)]"
    by (simp add: parser_defs)
  show "ReplaceFunctions [] [Symbol LOGICAL_NOT, Node a, Symbol POWER, Node b]
          = Inr [Symbol LOGICAL_NOT, Node (Binary PowerNode a b)]"
    by (simp add: parser_defs)
  show "ReplaceFunctions [] [Symbol BITWISE_NOT, Node a, Symbol POWER, Node b]
          = Inr [Symbol BITWISE_NOT, Node (Binary PowerNode a b)]"
    by (simp add: parser_defs)
  show "apply_operators [Symbol LOGICAL_NOT, Node a, Symbol POWER, Node b]
          = Inr [Node (Unary LogicalNOTNode (Binary PowerNode a b))]"
    by (simp add: parser_defs)
  show "ReplaceFunctions [] [Node a, Symbol MULTIPLICATION, Node b, Symbol POWER, Node c]
          = Inr [Node a, Symbol MULTIPLICATION, Node (Binary PowerNode b c)]"
    by (simp add: parser_defs)
  show "apply_operators [Node a, Symbol MULTIPLICATION, Node b, Symbol POWER, Node c]
          = Inr [Node (Binary MultiplicationNode a (Binary PowerNode b c))]"
    by (simp add: parser_defs)
  show "Init example_file ''2 ^ 10 + 1''
          = Inr [Node (Binary AdditionNode
                   (Binary PowerNode (ConstNode (U64 2)) (ConstNode (U64 10)))
                   (ConstNode (U64 1)))]"
    by (simp add: Init_def power_tokens parser_defs parser_simps)
  show "eval example_file
          (Binary AdditionNode (Binary PowerNode (ConstNode (U64 2)) (ConstNode (U64 10)))
             (ConstNode (U64 1)))
          = Some [F64 1025]"
    by (simp add: broadcast_def BinaryNode_get_def PowerNode_get_def AdditionNode_get_def
          to_double_def)
qed

text \<open>
  C5, as the claim states it, fails in the association of a chain: \<^verbatim>\<open>2 ^ 3 ^ 2\<close>
  compiles to the power of \<^verbatim>\<open>2 ^ 3\<close> and 2, with the value 64; binding to the
  right would give 512.
\<close>

theorem power_chain_left_associative:
  "Init example_file ''2 ^ 3 ^ 2''
     = Inr [Node (Binary PowerNode
                   (Binary PowerNode (ConstNode (U64 2)) (ConstNode (U64 3)))
                   (ConstNode (U64 2)))] \<and>
   eval example_file
     (Binary PowerNode (Binary PowerNode (ConstNode (U64 2)) (ConstNode (U64 3)))
        (ConstNode (U64 2))) = Some [F64 64] \<and>
   eval example_file
     (Binary PowerNode (ConstNode (U64 2))
        (Binary PowerNode (ConstNode (U64 3)) (ConstNode (U64 2)))) = Some [F64 512]"
proof (intro conjI)
  show "Init example_file ''2 ^ 3 ^ 2''
     = Inr [Node (Binary PowerNode
                   (Binary PowerNode (ConstNode (U64 2)) (ConstNode (U64 3)))
                   (ConstNode (U64 2)))]"
    by (simp add: Init_def power_chain_tokens parser_defs parser_simps)
  show "eval example_file
     (Binary PowerNode (Binary PowerNode (ConstNode (U64 2)) (ConstNode (U64 3)))
        (ConstNode (U64 2))) = Some [F64 64]"
    by (simp add: broadcast_def BinaryNode_get_def PowerNode_get_def to_double_def)
  show "eval example_file
     (Binary PowerNode (ConstNode (U64 2))
        (Binary PowerNode (ConstNode (U64 3)) (ConstNode (U64 2)))) = Some [F64 512]"
    by (simp add: broadcast_def BinaryNode_get_def PowerNode_get_def to_double_def)
qed

section \<open>A leading sign\<close>

lemma find_first_of_here:
  "find_first_of s cs p = Some p \<longleftrightarrow> p < length s \<and> s ! p \<in> set cs"
proof
  assume "find_first_of s cs p = Some p"
  from find_first_of_Some [OF this] show "p < length s \<and> s ! p \<in> set cs" by simp
next
  assume "p < length s \<and> s ! p \<in> set cs"
  then show "find_first_of s cs p = Some p"
    by (simp add: find_first_of_def upt_conv_Cons)
qed

lemma find_first_not_of_here:
  "p < length s \<Longrightarrow> s ! p \<notin> set cs \<Longrightarrow> find_first_not_of s cs p = Some p"
  by (simp add: find_first_not_of_def upt_conv_Cons)

lemma find_last_not_of_ge:
  assumes "p < length s" "p \<le> b" "s ! p \<notin> set cs"
  shows "\<exists>e. find_last_not_of s cs b = Some e \<and> p \<le> e \<and> e < length s"
proof -
  let ?m = "min (Suc b) (length s)"
  let ?xs = "rev [0 ..< ?m]"
  let ?P = "\<lambda>i. s ! i \<notin> set cs"
  from assms have pm: "p < ?m" by simp
  then have "p \<in> set ?xs" by simp
  with assms(3) have "List.find ?P ?xs \<noteq> None"
    unfolding find_None_iff by blast
  then obtain e where e: "List.find ?P ?xs = Some e" by blast
  then obtain i where i: "i < length ?xs" "?P (?xs ! i)" "e = ?xs ! i"
    "\<forall>j<i. \<not> ?P (?xs ! j)"
    unfolding find_Some_iff by blast
  from i(1) have im: "i < ?m" by simp
  then have "?m - Suc i < ?m" by linarith
  with i(3) im have ei: "e = ?m - Suc i" by (simp add: rev_nth)
  have "p \<le> e"
  proof (rule ccontr)
    assume "\<not> p \<le> e"
    with ei pm im have j: "?m - Suc p < i" by linarith
    from pm have "?m - Suc p < ?m" "?m - Suc (?m - Suc p) = p" by linarith+
    with pm have "?xs ! (?m - Suc p) = p" by (simp add: rev_nth)
    with i(4) j assms(3) show False by metis
  qed
  moreover from ei im have "e < length s" by (auto simp: min_def)
  ultimately show ?thesis using e by (simp add: find_last_not_of_def)
qed

lemma operator_end_here:
  "\<not> (pos + 1 < length expr \<and> expr ! (pos + 1) \<in> set operator_tail_chars)
   \<Longrightarrow> operator_end expr pos = pos"
  by (subst operator_end.simps) (auto simp: find_first_of_here)

lemma operator_end_further:
  "pos + 1 < length expr \<Longrightarrow> expr ! (pos + 1) \<in> set operator_tail_chars
   \<Longrightarrow> pos + 1 \<le> operator_end expr pos"
  using operator_end_ge [of "pos + 1" expr]
  by (subst operator_end.simps) (simp add: find_first_of_here)

lemma operator_end_less: "endpos < length expr \<Longrightarrow> operator_end expr endpos < length expr"
proof (induction expr endpos rule: operator_end.induct)
  case (1 expr endpos)
  show ?case
  proof (cases "find_first_of expr operator_tail_chars (endpos + 1) = Some (endpos + 1)")
    case True
    then have "endpos + 1 < length expr" by (simp add: find_first_of_here)
    with "1.IH" [OF True] True show ?thesis
      by (subst operator_end.simps) simp
  next
    case False
    with "1.prems" show ?thesis by (subst operator_end.simps) simp
  qed
qed

lemma sign_operator_alone:
  "ParseOperatorImpl ''+'' = Some (Symbol ADDITION)"
  "ParseOperatorImpl ''-'' = Some (Symbol SUBTRACTION)"
  by (simp_all add: ParseOperatorImpl_def)

lemma sign_operator_longer:
  "c = CHR ''+'' \<or> c = CHR ''-'' \<Longrightarrow> ParseOperatorImpl (c # d # cs) = None"
  by (elim disjE; simp add: ParseOperatorImpl_def)

lemma ParseOperator_sign:
  assumes "pos < length expr" and sign: "expr ! pos = CHR ''+'' \<or> expr ! pos = CHR ''-''"
  shows "ParseOperator expr pos =
           (if pos + 1 < length expr \<and> expr ! (pos + 1) \<in> set operator_tail_chars
            then Inl CannotParseExpression
            else Inr (Symbol (if expr ! pos = CHR ''+'' then ADDITION else SUBTRACTION),
                      pos + 1))"
proof -
  let ?e = "operator_end expr pos"
  let ?op = "substr expr pos (?e + 1 - pos)"
  from sign have pe: "ParseOperator expr pos =
      (case ParseOperatorImpl ?op of
         None \<Rightarrow> Inl CannotParseExpression
       | Some op \<Rightarrow> Inr (op, ?e + 1))"
    by (auto simp: ParseOperator_def Let_def split: option.splits)
  from assms(1) have hd: "drop pos expr = expr ! pos # drop (Suc pos) expr"
    by (simp add: Cons_nth_drop_Suc)
  show ?thesis
  proof (cases "pos + 1 < length expr \<and> expr ! (pos + 1) \<in> set operator_tail_chars")
    case True
    then have ge: "pos + 1 \<le> ?e" using operator_end_further by blast
    from True have "drop (Suc pos) expr = expr ! Suc pos # drop (Suc (Suc pos)) expr"
      by (simp add: Cons_nth_drop_Suc)
    with hd have "drop pos expr = expr ! pos # expr ! Suc pos # drop (Suc (Suc pos)) expr"
      by simp
    moreover from ge obtain k where "?e + 1 - pos = Suc (Suc k)"
      by (metis Suc_diff_le Suc_eq_plus1 Suc_leD diff_Suc_Suc le_imp_less_Suc less_imp_Suc_add
            add_diff_cancel_left' plus_1_eq_Suc)
    ultimately have "?op = expr ! pos # expr ! Suc pos # take k (drop (Suc (Suc pos)) expr)"
      by (simp add: substr_def)
    with sign have "ParseOperatorImpl ?op = None"
      by (simp only: sign_operator_longer)
    with pe True show ?thesis by simp
  next
    case False
    then have "?e = pos" by (rule operator_end_here)
    with hd have "?op = [expr ! pos]" by (simp add: substr_def)
    with sign have "ParseOperatorImpl ?op
                      = Some (Symbol (if expr ! pos = CHR ''+'' then ADDITION else SUBTRACTION))"
      by (auto simp: sign_operator_alone)
    with pe False \<open>?e = pos\<close> show ?thesis by simp
  qed
qed

lemma ParseValue_loop_value:
  "ParseValue_loop f expr startpos operpos endpos = Inr (s, pos')
   \<Longrightarrow> startpos < pos' \<and> ParseValueImpl f (substr expr startpos (pos' - startpos)) = Some s"
proof (induction f expr startpos operpos endpos rule: ParseValue_loop.induct)
  case (1 f expr startpos operpos endpos)
  from "1.prems" obtain e where e: "endpos = Some e"
    by (subst (asm) ParseValue_loop.simps) (auto split: option.splits)
  from "1.prems" e have ge: "\<not> e < startpos"
    by (subst (asm) ParseValue_loop.simps) (auto split: if_splits)
  show ?case
  proof (cases "ParseValueImpl f (substr expr startpos (e - startpos + 1))")
    case None
    with "1.prems" e ge
    have "ParseValue_loop f expr startpos operpos
            (case find_last_of expr sign_chars e of
               None \<Rightarrow> None
             | Some e1 \<Rightarrow> find_last_not_of expr (sign_chars @ whitespace) e1) = Inr (s, pos')"
      by (subst (asm) ParseValue_loop.simps) simp
    with "1.IH" [OF e ge None] show ?thesis by simp
  next
    case (Some val)
    with "1.prems" e ge have "pos' = e + 1" "val = s"
      by (subst (asm) ParseValue_loop.simps; auto split: if_splits)+
    with ge Some show ?thesis by (simp add: Suc_diff_le)
  qed
qed

lemma sign_token_dispatch:
  assumes first: "find_first_not_of expr whitespace pos0 = Some pos"
    and sign: "expr ! pos = CHR ''+'' \<or> expr ! pos = CHR ''-''"
  shows "GetNextSymbol f parsedSymbols expr pos0 =
           map_sum id Some
             (if parsedSymbols \<noteq> [] \<and>
                 (IsNode (last parsedSymbols) \<or> GetType (last parsedSymbols) = CLOSE_PARAND)
              then ParseOperator expr pos
              else ParseValue_loop f expr pos (find_first_of expr operator_chars pos)
                     (find_last_not_of expr whitespace
                        (case find_first_of expr operator_chars pos of
                           None \<Rightarrow> length expr | Some p \<Rightarrow> p - 1)))"
proof -
  note p = find_first_not_of_Some [OF first]
  let ?operpos = "find_first_of expr operator_chars pos"
  let ?b = "case ?operpos of None \<Rightarrow> length expr | Some p \<Rightarrow> p - 1"
  from sign have notop: "expr ! pos \<notin> set operator_chars"
    by (auto simp: operator_chars_def)
  then have ne: "Some pos \<noteq> ?operpos"
    using find_first_of_Some [of expr operator_chars pos pos] by auto
  have "pos \<le> ?b"
  proof (cases ?operpos)
    case None
    with p show ?thesis by simp
  next
    case (Some q)
    from find_first_of_Some [OF Some] ne Some have "pos < q" by (cases "pos = q") auto
    with Some show ?thesis by simp
  qed
  moreover from sign have "expr ! pos \<notin> set whitespace" by (auto simp: whitespace_def)
  ultimately obtain e where e: "find_last_not_of expr whitespace ?b = Some e" "pos \<le> e"
    "e < length expr"
    using find_last_not_of_ge [of pos expr ?b whitespace] p by blast
  have "substr expr pos (e - pos + 1) ! 0 = expr ! pos" "0 < length (substr expr pos (e - pos + 1))"
    using e p by (simp_all add: substr_def)
  with sign have "find_first_of (substr expr pos (e - pos + 1)) sign_chars 0 = Some 0"
    by (auto simp: find_first_of_here sign_chars_def)
  with e ne first show ?thesis
    by (simp add: GetNextSymbol_def ParseValue_def Let_def)
qed

text \<open>
  C6, as the code has it. Let the next token start at \<open>pos\<close> with \<^verbatim>\<open>+\<close> or
  \<^verbatim>\<open>-\<close>. When the last symbol parsed so far is a node or a closing parenthesis,
  the sign is handed to \<^verbatim>\<open>ParseOperator\<close>: the result is the symbol for addition or
  subtraction, and the scan resumes directly behind the sign, unless the character behind
  the sign is one of \<^verbatim>\<open>,/*%^=><&|!~\<close>; then the operator string is longer than the
  sign, is no operator, and parsing fails. In every other case the sign stays in the
  value: a symbol that is returned classifies a string that starts at the sign.
\<close>

theorem leading_sign_rule:
  assumes "find_first_not_of expr whitespace pos0 = Some pos"
    and "expr ! pos = CHR ''+'' \<or> expr ! pos = CHR ''-''"
  shows "(parsedSymbols \<noteq> [] \<and>
          (IsNode (last parsedSymbols) \<or> GetType (last parsedSymbols) = CLOSE_PARAND) \<longrightarrow>
            GetNextSymbol f parsedSymbols expr pos0 =
              (if pos + 1 < length expr \<and> expr ! (pos + 1) \<in> set operator_tail_chars
               then Inl CannotParseExpression
               else Inr (Some (Symbol (if expr ! pos = CHR ''+'' then ADDITION
                                      else SUBTRACTION), pos + 1)))) \<and>
         (\<not> (parsedSymbols \<noteq> [] \<and>
             (IsNode (last parsedSymbols) \<or> GetType (last parsedSymbols) = CLOSE_PARAND)) \<longrightarrow>
            (\<forall>s pos'. GetNextSymbol f parsedSymbols expr pos0 = Inr (Some (s, pos')) \<longrightarrow>
               pos < pos' \<and> ParseValueImpl f (substr expr pos (pos' - pos)) = Some s))"
proof -
  from find_first_not_of_Some [OF assms(1)] have lt: "pos < length expr" by simp
  note d = sign_token_dispatch [OF assms, of f parsedSymbols]
  show ?thesis
  proof (rule conjI; intro impI allI)
    assume "parsedSymbols \<noteq> [] \<and>
      (IsNode (last parsedSymbols) \<or> GetType (last parsedSymbols) = CLOSE_PARAND)"
    with d ParseOperator_sign [OF lt assms(2)]
    show "GetNextSymbol f parsedSymbols expr pos0 =
              (if pos + 1 < length expr \<and> expr ! (pos + 1) \<in> set operator_tail_chars
               then Inl CannotParseExpression
               else Inr (Some (Symbol (if expr ! pos = CHR ''+'' then ADDITION
                                      else SUBTRACTION), pos + 1)))"
      by simp
  next
    fix s pos'
    assume n: "\<not> (parsedSymbols \<noteq> [] \<and>
      (IsNode (last parsedSymbols) \<or> GetType (last parsedSymbols) = CLOSE_PARAND))"
      and r: "GetNextSymbol f parsedSymbols expr pos0 = Inr (Some (s, pos'))"
    from d n r
    have "ParseValue_loop f expr pos (find_first_of expr operator_chars pos)
            (find_last_not_of expr whitespace
               (case find_first_of expr operator_chars pos of
                  None \<Rightarrow> length expr | Some p \<Rightarrow> p - 1)) = Inr (s, pos')"
      by (auto simp: map_sum_def split: sum.splits if_splits)
    from ParseValue_loop_value [OF this]
    show "pos < pos' \<and> ParseValueImpl f (substr expr pos (pos' - pos)) = Some s" .
  qed
qed

theorem leading_sign_rule_witness:
  "find_first_not_of ''1 + 2'' whitespace 1 = Some 2 \<and>
   GetNextSymbol example_file [Node (ConstNode (U64 1))] ''1 + 2'' 1
     = Inr (Some (Symbol ADDITION, 3)) \<and>
   find_first_not_of ''-1'' whitespace 0 = Some 0 \<and>
   GetNextSymbol example_file [] ''-1'' 0
     = Inr (Some (Node (ConstNode (U64 18446744073709551615)), 2)) \<and>
   ParseValueImpl example_file (substr ''-1'' 0 (2 - 0))
     = Some (Node (ConstNode (U64 18446744073709551615)))"
proof -
  have a: "find_first_not_of ''1 + 2'' whitespace 1 = Some 2"
    by (simp add: string_defs)
  have b: "find_first_not_of ''-1'' whitespace 0 = Some 0"
    by (simp add: string_defs)
  have c: "GetNextSymbol example_file [] ''-1'' 0
             = Inr (Some (Node (ConstNode (U64 18446744073709551615)), 2))"
    by (simp add: tokenizer_defs string_defs numerical_defs example_file_def tokenizer_simps)
  from leading_sign_rule [OF a, where f = example_file
                               and parsedSymbols = "[Node (ConstNode (U64 1))]"]
  have "GetNextSymbol example_file [Node (ConstNode (U64 1))] ''1 + 2'' 1
          = Inr (Some (Symbol ADDITION, 3))"
    by (simp add: IsNode_def operator_tail_chars_def)
  moreover from leading_sign_rule [OF b, where f = example_file and parsedSymbols = "[]"] c
  have "ParseValueImpl example_file (substr ''-1'' 0 (2 - 0))
          = Some (Node (ConstNode (U64 18446744073709551615)))"
    by simp
  ultimately show ?thesis using a b c by simp
qed

text \<open>
  C6, as the claim states it, fails when the sign is followed directly by an operator
  character: in \<^verbatim>\<open>1+!2\<close> the symbol before the sign is a node, and no operator is
  emitted for the sign; parsing fails.
\<close>

theorem sign_before_operator_character:
  "find_first_not_of ''1+!2'' whitespace 1 = Some 1 \<and>
   ''1+!2'' ! 1 = CHR ''+'' \<and>
   IsNode (last [Node (ConstNode (U64 1))]) \<and>
   GetNextSymbol example_file [Node (ConstNode (U64 1))] ''1+!2'' 1
     = Inl CannotParseExpression \<and>
   ParseSymbols example_file ''1+!2'' 0 [] = Inl CannotParseExpression"
  by (simp add: tokenizer_defs string_defs numerical_defs example_file_def tokenizer_simps)

section \<open>What the passes leave\<close>

lemma node_or_list_simps [simp]:
  "node_or_list (Node n)" "node_or_list (ListSymbol l)" "\<not> node_or_list (Symbol t)"
  by (simp_all add: node_or_list_def)

lemma pass_spec_then:
  assumes "pass_spec p1 f1" "pass_spec p2 f2" "\<And>s. p1 s \<Longrightarrow> \<not> node_or_list s"
  shows "pass_spec (\<lambda>s. p1 s \<or> p2 s) (\<lambda>xs. and_then (f1 xs) f2)"
  unfolding pass_spec_def
proof (intro allI impI ballI)
  fix xs ys s
  assume r: "and_then (f1 xs) f2 = Inr ys" and s: "s \<in> set ys"
  from and_then_Inr [OF r] obtain zs where z: "f1 xs = Inr zs" "f2 zs = Inr ys" by blast
  from assms(2) z(2) s have 2: "\<not> p2 s" "s \<in> set zs \<or> node_or_list s"
    by (auto simp: pass_spec_def)
  from assms(1) z(1) have 1: "\<forall>s \<in> set zs. \<not> p1 s \<and> (s \<in> set xs \<or> node_or_list s)"
    by (auto simp: pass_spec_def)
  from 1 2 assms(3) show "\<not> (p1 s \<or> p2 s) \<and> (s \<in> set xs \<or> node_or_list s)"
    by blast
qed

lemma GetType_Symbol_only:
  "GetType x = t \<Longrightarrow> t \<notin> {FLOATING_POINT_NODE, SIGNED_NODE, UNSIGNED_NODE, LIST}
   \<Longrightarrow> x = Symbol t"
  using GetType_Node by (cases x) auto

lemma GetBinarySymbol_operator_node:
  assumes "GetBinarySymbol front from t False = Inr s" "t \<in> fst ` set binary_class_of"
  shows "IsNode s"
proof -
  from assms(2) have "t \<noteq> IN" by (auto simp: binary_class_of_def)
  moreover from assms(2) obtain c where "map_of binary_class_of t = Some c"
    by (metis map_of_eq_None_iff not_None_eq)
  ultimately show ?thesis using assms(1)
    by (auto simp: GetBinarySymbol_def and_then_def DoGetNode_binary_def
          GetNodeImpl_binary_def IsNode_def
          split: if_splits symbol.splits)
qed

lemma replace_binary_operators_spec:
  assumes "replace_binary_operators p front from = Inr ys"
    and "\<forall>x. p x \<longrightarrow> (\<exists>t. x = Symbol t \<and> t \<in> fst ` set binary_class_of)"
    and "\<forall>s \<in> set front. \<not> p s"
  shows "\<forall>s \<in> set ys. \<not> p s \<and> (s \<in> set front \<union> set from \<or> node_or_list s)"
  using assms
proof (induction p front "from" arbitrary: ys rule: replace_binary_operators.induct)
  case (1 p front)
  then show ?case by auto
next
  case (2 p front x rest)
  note sym = "2.prems"(2)
  show ?case
  proof (cases "p x")
    case True
    with "2.prems"(1) obtain s where
      s: "GetBinarySymbol front (x # rest) (GetType x) False = Inr s" and
      rec: "replace_binary_operators p (butlast front @ [s]) (drop 1 rest) = Inr ys"
      by (auto split: sum.splits)
    from sym True obtain t where t: "x = Symbol t" "t \<in> fst ` set binary_class_of"
      by blast
    with s have "IsNode s" by (auto dest: GetBinarySymbol_operator_node)
    then obtain n where n: "s = Node n" by (cases s) (auto simp: IsNode_def)
    with sym have "\<not> p s" by auto
    with "2.prems"(3) have "\<forall>s \<in> set (butlast front @ [s]). \<not> p s"
      by (auto dest: in_set_butlastD)
    from "2.IH"(1) [OF True s rec sym this]
    have "\<forall>s' \<in> set ys. \<not> p s' \<and>
            (s' \<in> set (butlast front @ [s]) \<union> set (drop 1 rest) \<or> node_or_list s')" .
    with n show ?thesis
      by (auto dest: in_set_butlastD in_set_dropD)
  next
    case False
    with "2.prems"(1) have rec: "replace_binary_operators p (front @ [x]) rest = Inr ys"
      by simp
    from "2.prems"(3) False have "\<forall>s \<in> set (front @ [x]). \<not> p s" by auto
    from "2.IH"(2) [OF False rec sym this] show ?thesis by auto
  qed
qed

lemma GetUnarySymbol_node:
  assumes "GetUnarySymbol from t isFunction = Inr s" "map_of unary_class_of t \<noteq> None"
  shows "IsNode s"
  using assms
  by (auto simp: GetUnarySymbol_def DoGetNode_unary_def GetNodeImpl_unary_def IsNode_def
        split: if_splits symbol.splits option.splits)

lemma ReplaceUnary_spec:
  assumes "ReplaceUnary front from = Inr ys"
    and "\<forall>s \<in> set front. GetType s \<noteq> LOGICAL_NOT \<and> GetType s \<noteq> BITWISE_NOT"
  shows "\<forall>s \<in> set ys. (GetType s \<noteq> LOGICAL_NOT \<and> GetType s \<noteq> BITWISE_NOT) \<and>
           (s \<in> set front \<union> set from \<or> node_or_list s)"
  using assms
proof (induction front "from" arbitrary: ys rule: ReplaceUnary.induct)
  case (1 front)
  then show ?case by auto
next
  case (2 front x rest)
  show ?case
  proof (cases "GetType x = LOGICAL_NOT \<or> GetType x = BITWISE_NOT")
    case True
    with "2.prems"(1) obtain s where
      s: "GetUnarySymbol (x # rest) (GetType x) False = Inr s" and
      rec: "ReplaceUnary (front @ [s]) (drop 1 rest) = Inr ys"
      by (auto split: sum.splits)
    from True have "map_of unary_class_of (GetType x) \<noteq> None"
      by (auto simp: unary_class_of_def)
    with s have "IsNode s" by (rule GetUnarySymbol_node)
    then obtain n where n: "s = Node n" by (cases s) (auto simp: IsNode_def)
    with "2.prems"(2)
    have "\<forall>s \<in> set (front @ [s]). GetType s \<noteq> LOGICAL_NOT \<and> GetType s \<noteq> BITWISE_NOT"
      by (auto simp: classify_Node)
    from "2.IH"(1) [OF True s rec this] n show ?thesis
      by (auto dest: in_set_dropD)
  next
    case False
    with "2.prems"(1) have rec: "ReplaceUnary (front @ [x]) rest = Inr ys" by simp
    from "2.prems"(2) False
    have "\<forall>s \<in> set (front @ [x]). GetType s \<noteq> LOGICAL_NOT \<and> GetType s \<noteq> BITWISE_NOT"
      by auto
    from "2.IH"(2) [OF False rec this] show ?thesis by auto
  qed
qed

lemma ReplaceCommas_spec:
  assumes "ReplaceCommas front from = Inr ys"
    and "\<forall>s \<in> set front. GetType s \<noteq> COMMA"
  shows "\<forall>s \<in> set ys. GetType s \<noteq> COMMA \<and> (s \<in> set front \<union> set from \<or> node_or_list s)"
  using assms
proof (induction front "from" arbitrary: ys rule: ReplaceCommas.induct)
  case (1 front)
  then show ?case by auto
next
  case (2 front x rest)
  consider (drop) "GetType x = COMMA" "front = [] \<or> rest = []"
    | (join) "GetType x = COMMA" "\<not> (front = [] \<or> rest = [])"
    | (skip) "GetType x \<noteq> COMMA" by blast
  then show ?case
  proof cases
    case drop
    with "2.prems"(1) have "ReplaceCommas front rest = Inr ys" by simp
    from "2.IH"(1) [OF drop this "2.prems"(2)] show ?thesis by auto
  next
    case join
    let ?l = "join_list (last front) (hd rest)"
    from join "2.prems"(1)
    have rec: "ReplaceCommas (butlast front @ [?l]) (tl rest) = Inr ys" by simp
    have l: "node_or_list ?l" "GetType ?l \<noteq> COMMA"
      by (simp_all add: join_list_def split: symbol.splits)
    with "2.prems"(2) have "\<forall>s \<in> set (butlast front @ [?l]). GetType s \<noteq> COMMA"
      by (auto dest: in_set_butlastD)
    from "2.IH"(2) [OF join rec this] l join show ?thesis
      by (auto dest: in_set_butlastD list.set_sel(2))
  next
    case skip
    with "2.prems"(1) have rec: "ReplaceCommas (front @ [x]) rest = Inr ys" by simp
    from "2.prems"(2) skip have "\<forall>s \<in> set (front @ [x]). GetType s \<noteq> COMMA" by auto
    from "2.IH"(3) [OF skip rec this] show ?thesis by auto
  qed
qed

lemma function_not_node [simp]: "\<not> is_function_or_power (Node n)"
  by (simp add: is_function_or_power_def classify_Node)

lemma function_not_list [simp]: "\<not> is_function_or_power (ListSymbol l)"
  by (simp add: is_function_or_power_def classify_ListSymbol)

lemma unary_function_has_class:
  "IsUnaryFunction x \<Longrightarrow> map_of unary_class_of (GetType x) \<noteq> None"
  by (auto simp: IsUnaryFunction_def is_unary_function_type_def unary_function_types_def
        unary_class_of_def)

lemma GetBinarySymbol_function_node:
  assumes "GetBinarySymbol front from t True = Inr s" "is_binary_function_type t"
  shows "IsNode s"
  using assms
  by (auto simp: GetBinarySymbol_def and_then_def DoGetNode_binary_def GetInNode_def
        GetNodeImpl_binary_def binary_class_of_def is_binary_function_type_def IsNode_def
        split: if_splits symbol.splits option.splits sum.splits)

lemma replace_unary_function_spec:
  assumes "replace_unary_function (x # rest) = Inr from1"
  shows "(IsUnaryFunction x \<and> (\<exists>n. from1 = Node n # drop 1 rest))
         \<or> (\<not> IsUnaryFunction x \<and> from1 = x # rest)"
proof (cases "IsUnaryFunction x")
  case True
  with assms obtain s where
    s: "GetUnarySymbol (x # rest) (GetType x) True = Inr s" "from1 = s # drop 1 rest"
    by (auto simp: replace_unary_function_def dest!: and_then_Inr)
  from GetUnarySymbol_node [OF s(1) unary_function_has_class [OF True]]
  obtain n where "s = Node n" by (cases s) (auto simp: IsNode_def)
  with s True show ?thesis by simp
next
  case False
  with assms show ?thesis by (simp add: replace_unary_function_def)
qed

lemma replace_void_function_spec:
  assumes "replace_void_function (x # rest) = Inr from2"
  shows "(IsVoidFunction x \<and> (\<exists>n. from2 = Node n # rest))
         \<or> (\<not> IsVoidFunction x \<and> from2 = x # rest)"
  using assms
  by (auto simp: replace_void_function_def GetVoidSymbol_def GetNodeImpl_void_def
        IsVoidFunction_def is_void_function_type_def and_then_def split: if_splits)

lemma replace_binary_function_spec:
  assumes "replace_binary_function front (x # rest) = Inr from3"
  shows "(IsBinaryFunction x \<and> (\<exists>n. from3 = Node n # drop 1 rest))
         \<or> (\<not> IsBinaryFunction x \<and> from3 = x # rest)"
proof (cases "IsBinaryFunction x")
  case True
  with assms obtain s where
    s: "GetBinarySymbol front (x # rest) (GetType x) True = Inr s" "from3 = s # drop 1 rest"
    by (auto simp: replace_binary_function_def dest!: and_then_Inr)
  from True have "is_binary_function_type (GetType x)" by (simp add: IsBinaryFunction_def)
  from GetBinarySymbol_function_node [OF s(1) this]
  obtain n where "s = Node n" by (cases s) (auto simp: IsNode_def)
  with s True show ?thesis by simp
next
  case False
  with assms show ?thesis by (simp add: replace_binary_function_def)
qed

lemma replace_power_spec:
  assumes "replace_power front (x # rest) = Inr (front4, from4)"
  shows "(GetType x = POWER \<and> front4 = butlast front \<and> (\<exists>n. from4 = Node n # drop 1 rest))
         \<or> (GetType x \<noteq> POWER \<and> front4 = front \<and> from4 = x # rest)"
proof (cases "GetType x = POWER")
  case True
  with assms obtain s where
    s: "GetBinarySymbol front (x # rest) POWER False = Inr s"
      "front4 = butlast front" "from4 = s # drop 1 rest"
    by (auto simp: replace_power_def dest!: and_then_Inr)
  have "POWER \<in> fst ` set binary_class_of" by (simp add: binary_class_of_def)
  from GetBinarySymbol_operator_node [OF s(1) this]
  obtain n where "s = Node n" by (cases s) (auto simp: IsNode_def)
  with s True show ?thesis by simp
next
  case False
  with assms show ?thesis by (simp add: replace_power_def)
qed

lemma replace_function_step_spec:
  assumes "replace_function_step front (x # rest) = Inr (front', from')"
  shows "from' \<noteq> [] \<and> \<not> is_function_or_power (hd from') \<and>
         (hd from' = x \<or> node_or_list (hd from')) \<and>
         set (tl from') \<subseteq> set rest \<and> set front' \<subseteq> set front"
proof -
  from assms obtain from1 from2 from3 where
    s1: "replace_unary_function (x # rest) = Inr from1" and
    s2: "replace_void_function from1 = Inr from2" and
    s3: "replace_binary_function front from2 = Inr from3" and
    s4: "replace_power front from3 = Inr (front', from')"
    unfolding replace_function_step_def by (blast dest!: and_then_Inr)
  show ?thesis
  proof (cases "is_function_or_power x")
    case False
    then have x: "\<not> IsUnaryFunction x" "\<not> IsVoidFunction x" "\<not> IsBinaryFunction x"
      "GetType x \<noteq> POWER" by (simp_all add: is_function_or_power_def)
    from replace_unary_function_spec [OF s1] x have "from1 = x # rest" by simp
    with replace_void_function_spec [of x rest from2] s2 x have "from2 = x # rest" by simp
    with replace_binary_function_spec [of front x rest from3] s3 x have "from3 = x # rest"
      by simp
    with replace_power_spec [of front x rest front' from'] s4 x
    have "front' = front" "from' = x # rest" by simp_all
    with False show ?thesis by simp
  next
    case True
    have node_through:
      "from' = Node n # tl from1 \<and> front' = front" if "from1 = Node n # r" for n r
    proof -
      from s2 that replace_void_function_spec [of "Node n" r from2]
      have "from2 = Node n # r" by (simp add: classify_Node)
      with s3 replace_binary_function_spec [of front "Node n" r from3]
      have "from3 = Node n # r" by (simp add: classify_Node)
      with s4 replace_power_spec [of front "Node n" r front' from'] that
      show ?thesis by (simp add: classify_Node)
    qed
    show ?thesis
    proof (cases "IsUnaryFunction x")
      case True
      with replace_unary_function_spec [OF s1] obtain n where
        "from1 = Node n # drop 1 rest" by auto
      with node_through [OF this] show ?thesis by (auto dest: in_set_dropD)
    next
      case nu: False
      with replace_unary_function_spec [OF s1] have f1: "from1 = x # rest" by simp
      show ?thesis
      proof (cases "IsVoidFunction x")
        case True
        with s2 f1 replace_void_function_spec [of x rest from2] obtain n where
          f2: "from2 = Node n # rest" by auto
        with s3 replace_binary_function_spec [of front "Node n" rest from3]
        have "from3 = Node n # rest" by (simp add: classify_Node)
        with s4 replace_power_spec [of front "Node n" rest front' from']
        show ?thesis by (simp add: classify_Node)
      next
        case nv: False
        with s2 f1 replace_void_function_spec [of x rest from2]
        have f2: "from2 = x # rest" by simp
        show ?thesis
        proof (cases "IsBinaryFunction x")
          case True
          with s3 f2 replace_binary_function_spec [of front x rest from3] obtain n where
            "from3 = Node n # drop 1 rest" by auto
          with s4 replace_power_spec [of front "Node n" "drop 1 rest" front' from']
          show ?thesis by (auto simp: classify_Node dest: in_set_dropD)
        next
          case nb: False
          with s3 f2 replace_binary_function_spec [of front x rest from3]
          have f3: "from3 = x # rest" by simp
          from \<open>is_function_or_power x\<close> nu nv nb have "GetType x = POWER"
            by (simp add: is_function_or_power_def)
          with s4 f3 replace_power_spec [of front x rest front' from'] obtain n where
            "front' = butlast front" "from' = Node n # drop 1 rest" by auto
          then show ?thesis by (auto dest: in_set_dropD in_set_butlastD)
        qed
      qed
    qed
  qed
qed

lemma ReplaceFunctions_spec:
  assumes "ReplaceFunctions front from = Inr ys"
    and "\<forall>s \<in> set front. \<not> is_function_or_power s"
  shows "\<forall>s \<in> set ys. \<not> is_function_or_power s \<and>
           (s \<in> set front \<union> set from \<or> node_or_list s)"
  using assms
proof (induction front "from" arbitrary: ys rule: ReplaceFunctions.induct)
  case (1 front)
  then show ?case by auto
next
  case (2 front x rest)
  from "2.prems"(1) obtain front' from' where
    step: "replace_function_step front (x # rest) = Inr (front', from')" and
    rec: "ReplaceFunctions (front' @ [hd from']) (tl from') = Inr ys"
    by (auto split: sum.splits)
  note sp = replace_function_step_spec [OF step]
  with "2.prems"(2) have "\<forall>s \<in> set (front' @ [hd from']). \<not> is_function_or_power s"
    by auto
  from "2.IH" [OF step refl rec this] sp show ?case by auto
qed

lemma binary_pass_spec:
  assumes "\<forall>x. p x \<longrightarrow> (\<exists>t. x = Symbol t \<and> t \<in> fst ` set binary_class_of)"
  shows "pass_spec p (replace_binary_operators p [])"
  unfolding pass_spec_def
  using replace_binary_operators_spec [OF _ assms, of "[]"] by simp

lemma operator_has_class:
  assumes "GetType x = t" "t \<in> fst ` set binary_class_of"
  shows "\<exists>t. x = Symbol t \<and> t \<in> fst ` set binary_class_of"
proof (cases x)
  case (Node n)
  with assms GetType_Node [of n] show ?thesis by (auto simp: binary_class_of_def)
next
  case (ListSymbol l)
  with assms show ?thesis by (auto simp: binary_class_of_def)
qed (use assms in auto)

lemma is_binary_operator:
  "MULTIPLICATION \<in> fst ` set binary_class_of" "DIVISION \<in> fst ` set binary_class_of"
  "MODULUS \<in> fst ` set binary_class_of" "ADDITION \<in> fst ` set binary_class_of"
  "SUBTRACTION \<in> fst ` set binary_class_of" "BITWISE_AND \<in> fst ` set binary_class_of"
  "BITWISE_OR \<in> fst ` set binary_class_of" "LOGICAL_AND \<in> fst ` set binary_class_of"
  "LOGICAL_OR \<in> fst ` set binary_class_of"
  "is_comparison_type t \<Longrightarrow> t \<in> fst ` set binary_class_of"
  "is_equality_type t \<Longrightarrow> t \<in> fst ` set binary_class_of"
  by (auto simp: binary_class_of_def is_comparison_type_def is_equality_type_def)

lemma operator_not_node_or_list: "is_operator s \<Longrightarrow> \<not> node_or_list s"
  by (cases s)
     (auto simp: is_operator_def classify_Node classify_ListSymbol)

lemma apply_operators_spec: "pass_spec is_operator apply_operators"
proof -
  note sym = operator_has_class is_binary_operator IsComparison_def IsEquality_def
  have f: "pass_spec is_function_or_power (ReplaceFunctions [])"
    unfolding pass_spec_def using ReplaceFunctions_spec [of "[]"] by simp
  have u: "pass_spec (\<lambda>s. GetType s = LOGICAL_NOT \<or> GetType s = BITWISE_NOT) (ReplaceUnary [])"
    unfolding pass_spec_def using ReplaceUnary_spec [of "[]"] by simp
  have m: "pass_spec (\<lambda>x. GetType x = MULTIPLICATION \<or> GetType x = DIVISION \<or> GetType x = MODULUS)
             ReplaceMultiplyDivideModulus"
    unfolding ReplaceMultiplyDivideModulus_def
    by (rule binary_pass_spec) (auto intro: sym)
  have a: "pass_spec (\<lambda>x. GetType x = ADDITION \<or> GetType x = SUBTRACTION)
             ReplaceAdditionSubtraction"
    unfolding ReplaceAdditionSubtraction_def
    by (rule binary_pass_spec) (auto intro: sym)
  have c1: "pass_spec IsComparison (replace_binary_operators IsComparison [])"
    by (rule binary_pass_spec) (auto intro: sym simp: IsComparison_def)
  have c2: "pass_spec IsEquality (replace_binary_operators IsEquality [])"
    by (rule binary_pass_spec) (auto intro: sym simp: IsEquality_def)
  have b1: "pass_spec (\<lambda>x. GetType x = BITWISE_AND)
              (replace_binary_operators (\<lambda>x. GetType x = BITWISE_AND) [])"
    by (rule binary_pass_spec) (auto intro: sym)
  have b2: "pass_spec (\<lambda>x. GetType x = BITWISE_OR)
              (replace_binary_operators (\<lambda>x. GetType x = BITWISE_OR) [])"
    by (rule binary_pass_spec) (auto intro: sym)
  have l1: "pass_spec (\<lambda>x. GetType x = LOGICAL_AND)
              (replace_binary_operators (\<lambda>x. GetType x = LOGICAL_AND) [])"
    by (rule binary_pass_spec) (auto intro: sym)
  have l2: "pass_spec (\<lambda>x. GetType x = LOGICAL_OR)
              (replace_binary_operators (\<lambda>x. GetType x = LOGICAL_OR) [])"
    by (rule binary_pass_spec) (auto intro: sym)
  have k: "pass_spec (\<lambda>x. GetType x = COMMA) (ReplaceCommas [])"
    unfolding pass_spec_def using ReplaceCommas_spec [of "[]"] by simp
  have sub: "\<not> node_or_list s" if "is_operator s" for s
    using that by (rule operator_not_node_or_list)
  have c: "pass_spec (\<lambda>s. IsComparison s \<or> IsEquality s) ReplaceComparison"
    unfolding ReplaceComparison_def
    by (rule pass_spec_then [OF c1 c2]) (rule sub, simp add: is_operator_def)
  have b: "pass_spec (\<lambda>s. GetType s = BITWISE_AND \<or> GetType s = BITWISE_OR) ReplaceBitwise"
    unfolding ReplaceBitwise_def
    by (rule pass_spec_then [OF b1 b2]) (rule sub, simp add: is_operator_def)
  have l: "pass_spec (\<lambda>s. GetType s = LOGICAL_AND \<or> GetType s = LOGICAL_OR) ReplaceLogical"
    unfolding ReplaceLogical_def
    by (rule pass_spec_then [OF l1 l2]) (rule sub, simp add: is_operator_def)
  have "pass_spec
          (\<lambda>s. is_function_or_power s \<or>
             ((GetType s = LOGICAL_NOT \<or> GetType s = BITWISE_NOT) \<or>
              ((GetType s = MULTIPLICATION \<or> GetType s = DIVISION \<or> GetType s = MODULUS) \<or>
               ((GetType s = ADDITION \<or> GetType s = SUBTRACTION) \<or>
                ((IsComparison s \<or> IsEquality s) \<or>
                 ((GetType s = BITWISE_AND \<or> GetType s = BITWISE_OR) \<or>
                  ((GetType s = LOGICAL_AND \<or> GetType s = LOGICAL_OR) \<or>
                   GetType s = COMMA)))))))
          apply_operators"
    unfolding apply_operators_def
    by (intro pass_spec_then f u m a c b l k; (rule sub, auto simp: is_operator_def))
  then show ?thesis
    by (auto simp: pass_spec_def is_operator_def)
qed

section \<open>Parentheses\<close>

lemma sym_parens_append [simp]: "sym_parens (xs @ ys) = sym_parens xs @ sym_parens ys"
  by (simp add: sym_parens_def)

lemma sym_parens_Cons:
  "sym_parens (x # xs) =
     (if GetType x = OPEN_PARAND then True # sym_parens xs
      else if GetType x = CLOSE_PARAND then False # sym_parens xs else sym_parens xs)"
  by (simp add: sym_parens_def is_paren_def)

lemma sym_parens_Nil [simp]: "sym_parens [] = []"
  by (simp add: sym_parens_def)

lemma sym_parens_empty: "sym_parens xs = [] \<longleftrightarrow> (\<forall>s \<in> set xs. \<not> is_paren s)"
  by (auto simp: sym_parens_def filter_empty_conv)

lemma str_parens_append [simp]: "str_parens (xs @ ys) = str_parens xs @ str_parens ys"
  by (simp add: str_parens_def)

lemma str_parens_empty:
  "str_parens cs = [] \<longleftrightarrow> (\<forall>c \<in> set cs. c \<noteq> CHR ''('' \<and> c \<noteq> CHR '')'')"
  by (auto simp: str_parens_def filter_empty_conv)

lemma depth_after_append:
  "depth_after d (ps @ qs) =
     (case depth_after d ps of None \<Rightarrow> None | Some d' \<Rightarrow> depth_after d' qs)"
proof (induction ps arbitrary: d)
  case Nil
  show ?case by simp
next
  case (Cons p ps)
  show ?case by (cases p; cases d) (simp_all add: Cons.IH)
qed

lemma depth_after_shift:
  "depth_after d ps = Some d' \<Longrightarrow> depth_after (d + k) ps = Some (d' + k)"
proof (induction ps arbitrary: d)
  case Nil
  then show ?case by simp
next
  case (Cons p ps)
  then show ?case by (cases p; cases d) (auto dest: Cons.IH)
qed

lemma balanced_group:
  assumes "depth_after 0 ps = Some 0"
  shows "balanced (True # ps @ False # qs) = balanced qs"
proof -
  from depth_after_shift [OF assms, of 1] have "depth_after (Suc 0) ps = Some (Suc 0)" by simp
  then show ?thesis by (simp add: balanced_def depth_after_append)
qed

lemma scan_closed:
  assumes "scan_parenthesis n xs j d f = Inr (a, f', c)" "1 \<le> d" "f \<noteq> n" "\<not> 0 < a"
  shows "f' = f \<and> (\<exists>inner cl post. xs = inner @ cl # post \<and> GetType cl = CLOSE_PARAND \<and>
           c = j + length inner \<and> depth_after (nat (d - 1)) (sym_parens inner) = Some 0)"
  using assms
proof (induction xs arbitrary: j d)
  case Nil
  then show ?case by auto
next
  case (Cons x xs)
  consider (opens) "GetType x = OPEN_PARAND"
    | (closes) "GetType x \<noteq> OPEN_PARAND" "GetType x = CLOSE_PARAND"
    | (other) "GetType x \<noteq> OPEN_PARAND" "GetType x \<noteq> CLOSE_PARAND" by blast
  then show ?case
  proof cases
    case opens
    with Cons.prems have "scan_parenthesis n xs (Suc j) (d + 1) f = Inr (a, f', c)" by simp
    from Cons.IH [OF this] Cons.prems obtain inner cl post where
      r: "f' = f" "xs = inner @ cl # post" "GetType cl = CLOSE_PARAND"
         "c = Suc j + length inner" "depth_after (nat d) (sym_parens inner) = Some 0"
      by auto
    from Cons.prems(2) have "Suc (nat (d - 1)) = nat d" by simp
    with r opens have "depth_after (nat (d - 1)) (sym_parens (x # inner)) = Some 0"
      by (simp add: sym_parens_Cons)
    with r show ?thesis by (intro conjI exI [of _ "x # inner"] exI [of _ cl] exI [of _ post]) auto
  next
    case closes
    show ?thesis
    proof (cases "d - 1 = 0")
      case True
      with closes Cons.prems have "f' = f" "c = j" by auto
      with closes True show ?thesis
        by (intro conjI exI [of _ "[]"] exI [of _ x] exI [of _ xs]) auto
    next
      case False
      with Cons.prems(2) have d: "1 \<le> d - 1" by simp
      with closes False Cons.prems
      have "scan_parenthesis n xs (Suc j) (d - 1) f = Inr (a, f', c)" by simp
      from Cons.IH [OF this d] Cons.prems obtain inner cl post where
        r: "f' = f" "xs = inner @ cl # post" "GetType cl = CLOSE_PARAND"
           "c = Suc j + length inner"
           "depth_after (nat (d - 1 - 1)) (sym_parens inner) = Some 0"
        by auto
      from d have "nat (d - 1) = Suc (nat (d - 1 - 1))" by simp
      with r closes have "depth_after (nat (d - 1)) (sym_parens (x # inner)) = Some 0"
        by (simp add: sym_parens_Cons)
      with r show ?thesis
        by (intro conjI exI [of _ "x # inner"] exI [of _ cl] exI [of _ post]) auto
    qed
  next
    case other
    with Cons.prems have "scan_parenthesis n xs (Suc j) d f = Inr (a, f', c)" by simp
    from Cons.IH [OF this] Cons.prems obtain inner cl post where
      r: "f' = f" "xs = inner @ cl # post" "GetType cl = CLOSE_PARAND"
         "c = Suc j + length inner" "depth_after (nat (d - 1)) (sym_parens inner) = Some 0"
      by auto
    with other have "depth_after (nat (d - 1)) (sym_parens (x # inner)) = Some 0"
      by (simp add: sym_parens_Cons)
    with r show ?thesis
      by (intro conjI exI [of _ "x # inner"] exI [of _ cl] exI [of _ post]) auto
  qed
qed

lemma scan_open:
  assumes "scan_parenthesis n xs i 0 n = Inr (a, f, c)" "i + length xs = n" "\<not> 0 < a"
  shows "(f = n \<and> sym_parens xs = []) \<or>
         (\<exists>pre opn inner cl post. xs = pre @ opn # inner @ cl # post \<and> sym_parens pre = [] \<and>
            GetType opn = OPEN_PARAND \<and> GetType cl = CLOSE_PARAND \<and> f = i + length pre \<and>
            c = i + length pre + 1 + length inner \<and>
            depth_after 0 (sym_parens inner) = Some 0)"
  using assms
proof (induction xs arbitrary: i)
  case Nil
  then show ?case by auto
next
  case (Cons x xs)
  consider (opens) "GetType x = OPEN_PARAND"
    | (closes) "GetType x \<noteq> OPEN_PARAND" "GetType x = CLOSE_PARAND"
    | (other) "GetType x \<noteq> OPEN_PARAND" "GetType x \<noteq> CLOSE_PARAND" by blast
  then show ?case
  proof cases
    case opens
    from Cons.prems(2) have "i \<noteq> n" by simp
    with opens Cons.prems(1) have "scan_parenthesis n xs (Suc i) 1 i = Inr (a, f, c)" by simp
    from scan_closed [OF this _ \<open>i \<noteq> n\<close> Cons.prems(3)] obtain inner cl post where
      "f = i" "xs = inner @ cl # post" "GetType cl = CLOSE_PARAND" "c = Suc i + length inner"
      "depth_after 0 (sym_parens inner) = Some 0"
      by auto
    with opens show ?thesis
      by (intro disjI2 exI [of _ "[]"] exI [of _ x] exI [of _ inner] exI [of _ cl]
            exI [of _ post]) auto
  next
    case closes
    with Cons.prems(1) show ?thesis by simp
  next
    case other
    with Cons.prems(1) have s: "scan_parenthesis n xs (Suc i) 0 n = Inr (a, f, c)" by simp
    from Cons.prems(2) have "Suc i + length xs = n" by simp
    from Cons.IH [OF s this Cons.prems(3)] show ?thesis
    proof
      assume "f = n \<and> sym_parens xs = []"
      with other show ?thesis by (simp add: sym_parens_Cons)
    next
      assume "\<exists>pre opn inner cl post. xs = pre @ opn # inner @ cl # post \<and>
                sym_parens pre = [] \<and> GetType opn = OPEN_PARAND \<and> GetType cl = CLOSE_PARAND \<and>
                f = Suc i + length pre \<and> c = Suc i + length pre + 1 + length inner \<and>
                depth_after 0 (sym_parens inner) = Some 0"
      then obtain pre opn inner cl post where
        "xs = pre @ opn # inner @ cl # post" "sym_parens pre = []"
        "GetType opn = OPEN_PARAND" "GetType cl = CLOSE_PARAND" "f = Suc i + length pre"
        "c = Suc i + length pre + 1 + length inner" "depth_after 0 (sym_parens inner) = Some 0"
        by blast
      with other show ?thesis
        by (intro disjI2 exI [of _ "x # pre"] exI [of _ opn] exI [of _ inner] exI [of _ cl]
              exI [of _ post]) (auto simp: sym_parens_Cons)
    qed
  qed
qed

lemma node_or_list_not_paren: "node_or_list s \<Longrightarrow> \<not> is_paren s"
  by (cases s) (auto simp: is_paren_def classify_Node)

lemma apply_operators_result:
  assumes "apply_operators zs = Inr ys" "sym_parens zs = []"
  shows "sym_parens ys = [] \<and> (well_formed zs \<longrightarrow> list_all node_or_list ys)"
proof -
  from apply_operators_spec assms(1)
  have sp: "\<forall>s \<in> set ys. \<not> is_operator s \<and> (s \<in> set zs \<or> node_or_list s)"
    by (auto simp: pass_spec_def)
  from assms(2) have np: "\<forall>s \<in> set zs. \<not> is_paren s" by (simp add: sym_parens_empty)
  with sp have "\<forall>s \<in> set ys. \<not> is_paren s" by (blast dest: node_or_list_not_paren)
  moreover have "list_all node_or_list ys" if "well_formed zs"
    using that sp np unfolding well_formed_def list_all_iff by blast
  ultimately show ?thesis by (simp add: sym_parens_empty)
qed

lemma well_formed_append [simp]:
  "well_formed (xs @ ys) \<longleftrightarrow> well_formed xs \<and> well_formed ys"
  by (auto simp: well_formed_def)

lemma well_formed_Cons [simp]:
  "well_formed (x # xs) \<longleftrightarrow>
     (node_or_list x \<or> is_operator x \<or> is_paren x) \<and> well_formed xs"
  by (auto simp: well_formed_def)

lemma well_formed_nodes: "list_all node_or_list xs \<Longrightarrow> well_formed xs"
  by (auto simp: well_formed_def list_all_iff)

lemma parse_parentheses:
  shows "\<forall>ys. RecursiveParseExpression xs = Inr ys \<longrightarrow>
           balanced (sym_parens xs) \<and> sym_parens ys = [] \<and>
           (well_formed xs \<longrightarrow> list_all node_or_list ys)"
    and "\<forall>b ys. ReplaceParenthesis xs' = Inr (b, ys) \<longrightarrow>
           (if b then balanced (sym_parens xs') = balanced (sym_parens ys)
            else sym_parens xs' = [] \<and> ys = xs') \<and>
           (well_formed xs' \<longrightarrow> well_formed ys)"
    and "\<forall>ys. ReplaceParenthesis_while xs'' = Inr ys \<longrightarrow>
           balanced (sym_parens xs'') \<and> sym_parens ys = [] \<and>
           (well_formed xs'' \<longrightarrow> well_formed ys)"
proof (induct rule: RecursiveParseExpression_ReplaceParenthesis_ReplaceParenthesis_while.induct)
  case (1 xs)
  show ?case
  proof (intro allI impI)
    fix ys assume r: "RecursiveParseExpression xs = Inr ys"
    show "balanced (sym_parens xs) \<and> sym_parens ys = [] \<and>
          (well_formed xs \<longrightarrow> list_all node_or_list ys)"
    proof (cases "xs = []")
      case True
      with r show ?thesis by (simp add: RecursiveParseExpression.simps balanced_def)
    next
      case False
      with r obtain zs where
        zs: "ReplaceParenthesis_while xs = Inr zs" and ys: "apply_operators zs = Inr ys"
        by (auto simp: RecursiveParseExpression.simps dest!: and_then_Inr)
      from "1.hyps" [OF False] zs
      have z: "balanced (sym_parens xs)" "sym_parens zs = []"
        "well_formed xs \<longrightarrow> well_formed zs" by blast+
      with apply_operators_result [OF ys z(2)] show ?thesis by blast
    qed
  qed
next
  case (2 xs)
  show ?case
  proof (intro allI impI)
    fix b ys assume r: "ReplaceParenthesis xs = Inr (b, ys)"
    from r obtain nOpen firstOpenParand closeParand where
      scan: "scan_parenthesis (length xs) xs 0 0 (length xs)
               = Inr (nOpen, firstOpenParand, closeParand)"
      by (auto simp: ReplaceParenthesis.simps split: sum.splits)
    from r scan have nOpen: "\<not> 0 < nOpen"
      by (auto simp: ReplaceParenthesis.simps split: if_splits)
    note so = scan_open [OF scan _ nOpen, simplified]
    show "(if b then balanced (sym_parens xs) = balanced (sym_parens ys)
           else sym_parens xs = [] \<and> ys = xs) \<and>
          (well_formed xs \<longrightarrow> well_formed ys)"
    proof (cases "firstOpenParand = length xs")
      case True
      with r scan nOpen have "b = False" "ys = xs"
        by (auto simp: ReplaceParenthesis.simps)
      moreover from so True have "sym_parens xs = []" by auto
      ultimately show ?thesis by simp
    next
      case False
      with so obtain pre opn inner cl post where
        d: "xs = pre @ opn # inner @ cl # post" "sym_parens pre = []"
           "GetType opn = OPEN_PARAND" "GetType cl = CLOSE_PARAND"
           "firstOpenParand = length pre" "closeParand = length pre + 1 + length inner"
           "depth_after 0 (sym_parens inner) = Some 0"
        by auto
      then have inner:
        "take (closeParand - Suc firstOpenParand) (drop (Suc firstOpenParand) xs) = inner"
        by simp
      from d have rest: "take firstOpenParand xs = pre" "drop (Suc closeParand) xs = post"
        by simp_all
      from r scan nOpen False inner rest obtain inner' where
        i: "RecursiveParseExpression inner = Inr inner'" and
        b: "b" and ys: "ys = pre @ inner' @ post"
        by (auto simp: ReplaceParenthesis.simps split: sum.splits)
      from "2.hyps" [OF scan refl refl nOpen False] inner i
      have p: "sym_parens inner' = []" "well_formed inner \<longrightarrow> list_all node_or_list inner'"
        by auto
      from d have "sym_parens xs = True # sym_parens inner @ False # sym_parens post"
        by (simp add: sym_parens_Cons)
      with balanced_group [OF d(7)] p(1) ys d(2)
      have "balanced (sym_parens xs) = balanced (sym_parens ys)" by simp
      moreover have "well_formed ys" if "well_formed xs"
        using that p(2) d(1) ys by (auto dest: well_formed_nodes)
      ultimately show ?thesis using b by simp
    qed
  qed
next
  case (3 xs)
  show ?case
  proof (intro allI impI)
    fix ys assume r: "ReplaceParenthesis_while xs = Inr ys"
    from r obtain again zs where
      step: "ReplaceParenthesis xs = Inr (again, zs)"
      by (auto simp: ReplaceParenthesis_while.simps split: sum.splits)
    from "3.hyps"(1) step
    have q: "if again then balanced (sym_parens xs) = balanced (sym_parens zs)
             else sym_parens xs = [] \<and> zs = xs"
      "well_formed xs \<longrightarrow> well_formed zs" by blast+
    show "balanced (sym_parens xs) \<and> sym_parens ys = [] \<and>
          (well_formed xs \<longrightarrow> well_formed ys)"
    proof (cases again)
      case True
      with r step have "ReplaceParenthesis_while zs = Inr ys"
        by (simp add: ReplaceParenthesis_while.simps)
      with "3.hyps"(2) [OF step refl True] q True show ?thesis by auto
    next
      case False
      with r step q show ?thesis
        by (simp add: ReplaceParenthesis_while.simps balanced_def)
    qed
  qed
qed

section \<open>The symbols of the tokenizer\<close>

lemma operator_not_paren: "is_operator s \<Longrightarrow> \<not> is_paren s"
  by (cases s)
     (auto simp: is_operator_def is_paren_def is_function_or_power_def classify_Symbol
        classify_Node classify_ListSymbol unary_function_types_def)

lemma ParseOperatorImpl_token:
  "ParseOperatorImpl str = Some op \<Longrightarrow> is_operator op \<or> is_paren op"
  by (auto simp: ParseOperatorImpl_def is_operator_def is_paren_def
        is_function_or_power_def classify_Symbol split: if_splits)

lemma ParseOperatorImpl_paren:
  "ParseOperatorImpl str = Some op \<Longrightarrow> is_paren op
   \<Longrightarrow> (str = ''('' \<and> op = Symbol OPEN_PARAND) \<or> (str = '')'' \<and> op = Symbol CLOSE_PARAND)"
  by (auto simp: ParseOperatorImpl_def is_paren_def split: if_splits)

lemma ParseNumerical_node: "ParseNumerical str = Some s \<Longrightarrow> node_or_list s"
  by (auto simp: ParseNumerical_def ParseNumerical_mem_def or_else_def
        DoConstNode_uint64_def DoConstNode_int64_def DoConstNode_double_def
        split: option.splits if_splits)

lemma keyword_token: "map_of keyword_table str = Some s \<Longrightarrow> node_or_list s \<or> is_operator s"
  by (auto simp: keyword_table_def is_operator_def is_function_or_power_def classify_Symbol
        unary_function_types_def split: if_splits)

lemma ParseValueImpl_token:
  "ParseValueImpl f str = Some s \<Longrightarrow> node_or_list s \<or> is_operator s"
  by (auto simp: ParseValueImpl_def split: if_splits option.splits
        dest: ParseNumerical_node keyword_token)

lemma well_formed_Nil [simp]: "well_formed []"
  by (simp add: well_formed_def)

lemma GetNextSymbol_cases:
  assumes "GetNextSymbol f acc expr pos = Inr (Some (s, pos'))"
  obtains p where "find_first_not_of expr whitespace pos = Some p"
    and "ParseOperator expr p = Inr (s, pos')
         \<or> (find_first_of expr operator_chars p \<noteq> Some p \<and>
            ParseValue_loop f expr p (find_first_of expr operator_chars p)
              (find_last_not_of expr whitespace
                 (case find_first_of expr operator_chars p of
                    None \<Rightarrow> length expr | Some q \<Rightarrow> q - 1)) = Inr (s, pos'))"
proof -
  from assms obtain p where p: "find_first_not_of expr whitespace pos = Some p"
    by (auto simp: GetNextSymbol_def split: option.splits)
  with assms have
    "(if Some p \<noteq> find_first_of expr operator_chars p
      then ParseValue f acc expr p (find_first_of expr operator_chars p)
      else ParseOperator expr p) = Inr (s, pos')"
    by (auto simp: GetNextSymbol_def Let_def map_sum_def split: sum.splits)
  then have "ParseOperator expr p = Inr (s, pos')
         \<or> (find_first_of expr operator_chars p \<noteq> Some p \<and>
            ParseValue_loop f expr p (find_first_of expr operator_chars p)
              (find_last_not_of expr whitespace
                 (case find_first_of expr operator_chars p of
                    None \<Rightarrow> length expr | Some q \<Rightarrow> q - 1)) = Inr (s, pos'))"
    unfolding ParseValue_def Let_def by (auto split: if_splits)
  with p that show ?thesis by blast
qed

lemma GetNextSymbol_token:
  assumes "GetNextSymbol f acc expr pos = Inr (Some (s, pos'))"
  shows "node_or_list s \<or> is_operator s \<or> is_paren s"
proof -
  from assms obtain p where
    "ParseOperator expr p = Inr (s, pos')
     \<or> (find_first_of expr operator_chars p \<noteq> Some p \<and>
        ParseValue_loop f expr p (find_first_of expr operator_chars p)
          (find_last_not_of expr whitespace
             (case find_first_of expr operator_chars p of
                None \<Rightarrow> length expr | Some q \<Rightarrow> q - 1)) = Inr (s, pos'))"
    by (rule GetNextSymbol_cases)
  then show ?thesis
  proof
    assume "ParseOperator expr p = Inr (s, pos')"
    then show ?thesis
      by (auto simp: ParseOperator_def Let_def split: option.splits
            dest: ParseOperatorImpl_token)
  next
    assume "find_first_of expr operator_chars p \<noteq> Some p \<and>
        ParseValue_loop f expr p (find_first_of expr operator_chars p)
          (find_last_not_of expr whitespace
             (case find_first_of expr operator_chars p of
                None \<Rightarrow> length expr | Some q \<Rightarrow> q - 1)) = Inr (s, pos')"
    then show ?thesis
      by (blast dest: ParseValue_loop_value ParseValueImpl_token)
  qed
qed

lemma ParseSymbols_well_formed:
  "ParseSymbols f expr pos acc = Inr syms \<Longrightarrow> well_formed acc \<Longrightarrow> well_formed syms"
proof (induction f expr pos acc rule: ParseSymbols.induct)
  case (1 f expr pos acc)
  show ?case
  proof (cases "GetNextSymbol f acc expr pos")
    case (Inl e)
    with "1.prems" show ?thesis by (subst (asm) ParseSymbols.simps) simp
  next
    case (Inr r)
    show ?thesis
    proof (cases r)
      case None
      with Inr "1.prems" show ?thesis by (subst (asm) ParseSymbols.simps) simp
    next
      case (Some sp)
      obtain s pos' where sp: "sp = (s, pos')" by (cases sp)
      with Inr Some "1.prems"(1) have rec: "ParseSymbols f expr pos' (acc @ [s]) = Inr syms"
        by (subst (asm) ParseSymbols.simps) simp
      from Inr Some sp have "node_or_list s \<or> is_operator s \<or> is_paren s"
        by (auto dest: GetNextSymbol_token)
      with "1.prems"(2) have "well_formed (acc @ [s])" by simp
      from "1.IH" [OF Inr Some sp [symmetric] rec this] show ?thesis .
    qed
  qed
qed

text \<open>The characters that the searches pass over.\<close>

lemma find_first_not_of_skipped:
  assumes "find_first_not_of s cs pos = Some p" "pos \<le> i" "i < p"
  shows "s ! i \<in> set cs"
proof -
  from assms(1) obtain k where k: "k < length [pos ..< length s]"
    "[pos ..< length s] ! k = p" "\<forall>j<k. \<not> (s ! ([pos ..< length s] ! j) \<notin> set cs)"
    unfolding find_first_not_of_def find_Some_iff by blast
  from k(1,2) have "p = pos + k" by simp
  with assms(2,3) have "i - pos < k" by simp
  with k(3) have "s ! ([pos ..< length s] ! (i - pos)) \<in> set cs" by blast
  moreover from \<open>i - pos < k\<close> k(1) assms(2) have "[pos ..< length s] ! (i - pos) = i" by simp
  ultimately show ?thesis by simp
qed

lemma find_first_not_of_None:
  assumes "find_first_not_of s cs pos = None" "pos \<le> i" "i < length s"
  shows "s ! i \<in> set cs"
  using assms unfolding find_first_not_of_def find_None_iff by auto

lemma find_first_of_skipped:
  assumes "find_first_of s cs pos = Some p" "pos \<le> i" "i < p"
  shows "s ! i \<notin> set cs"
proof -
  from assms(1) obtain k where k: "k < length [pos ..< length s]"
    "[pos ..< length s] ! k = p" "\<forall>j<k. \<not> (s ! ([pos ..< length s] ! j) \<in> set cs)"
    unfolding find_first_of_def find_Some_iff by blast
  from k(1,2) have "p = pos + k" by simp
  with assms(2,3) have "i - pos < k" by simp
  with k(3) have "s ! ([pos ..< length s] ! (i - pos)) \<notin> set cs" by blast
  moreover from \<open>i - pos < k\<close> k(1) assms(2) have "[pos ..< length s] ! (i - pos) = i" by simp
  ultimately show ?thesis by simp
qed

lemma find_first_of_None:
  assumes "find_first_of s cs pos = None" "pos \<le> i" "i < length s"
  shows "s ! i \<notin> set cs"
  using assms unfolding find_first_of_def find_None_iff by auto

lemma str_parens_segment:
  assumes "\<forall>i. a \<le> i \<and> i < b \<longrightarrow> s ! i \<noteq> CHR ''('' \<and> s ! i \<noteq> CHR '')''"
    and "a \<le> b" "b \<le> length s"
  shows "str_parens (drop a s) = str_parens (drop b s)"
proof -
  have "drop a s = take (b - a) (drop a s) @ drop b s"
    using assms(2) by (metis append_take_drop_id drop_drop le_add_diff_inverse2)
  moreover have "str_parens (take (b - a) (drop a s)) = []"
    unfolding str_parens_empty
  proof
    fix c assume "c \<in> set (take (b - a) (drop a s))"
    then obtain k where "k < length (take (b - a) (drop a s))" "c = take (b - a) (drop a s) ! k"
      by (auto simp: in_set_conv_nth)
    with assms(2,3) have "k < b - a" "c = s ! (a + k)" by simp_all
    with assms(1) show "c \<noteq> CHR ''('' \<and> c \<noteq> CHR '')''" by simp
  qed
  ultimately show ?thesis by (metis append_Nil str_parens_append)
qed

lemma operator_end_chars:
  "endpos < i \<Longrightarrow> i \<le> operator_end expr endpos \<Longrightarrow> expr ! i \<in> set operator_tail_chars"
proof (induction expr endpos rule: operator_end.induct)
  case (1 expr endpos)
  show ?case
  proof (cases "find_first_of expr operator_tail_chars (endpos + 1) = Some (endpos + 1)")
    case True
    then have e: "operator_end expr endpos = operator_end expr (endpos + 1)"
      by (subst operator_end.simps) simp
    show ?thesis
    proof (cases "i = endpos + 1")
      case True
      with \<open>find_first_of expr operator_tail_chars (endpos + 1) = Some (endpos + 1)\<close>
      show ?thesis by (simp add: find_first_of_here)
    next
      case False
      with "1.prems" e have "endpos + 1 < i" "i \<le> operator_end expr (endpos + 1)" by simp_all
      from "1.IH" [OF True this] show ?thesis .
    qed
  next
    case False
    then have "operator_end expr endpos = endpos" by (subst operator_end.simps) simp
    with "1.prems" show ?thesis by simp
  qed
qed

lemma drop_head: "p < length s \<Longrightarrow> drop p s = s ! p # drop (Suc p) s"
  by (simp add: Cons_nth_drop_Suc)

lemma str_parens_Cons:
  "str_parens (c # cs) =
     (if c = CHR ''('' then True # str_parens cs
      else if c = CHR '')'' then False # str_parens cs else str_parens cs)"
  by (simp add: str_parens_def)

lemma ParseOperator_parens:
  assumes "ParseOperator expr p = Inr (s, pos')" "p < length expr"
  shows "str_parens (drop p expr) = sym_parens [s] @ str_parens (drop pos' expr)
         \<and> pos' \<le> length expr"
proof (cases "expr ! p = CHR ''('' \<or> expr ! p = CHR '')''")
  case True
  from assms(2) have "substr expr p 1 = [expr ! p]"
    by (simp add: substr_def drop_head)
  with True assms(1) have "pos' = p + 1"
    "s = (if expr ! p = CHR ''('' then Symbol OPEN_PARAND else Symbol CLOSE_PARAND)"
    by (auto simp: ParseOperator_def Let_def ParseOperatorImpl_def split: option.splits)
  with True assms(2) show ?thesis
    by (auto simp: drop_head [of p] str_parens_Cons sym_parens_Cons)
next
  case False
  let ?e = "operator_end expr p"
  from False assms(1) obtain op where
    op: "ParseOperatorImpl (substr expr p (?e + 1 - p)) = Some op" "s = op" "pos' = ?e + 1"
    by (auto simp: ParseOperator_def Let_def split: option.splits)
  from assms(2) have lt: "?e < length expr" by (rule operator_end_less)
  have ge: "p \<le> ?e" by (rule operator_end_ge)
  have "\<not> is_paren op"
  proof
    assume "is_paren op"
    from ParseOperatorImpl_paren [OF op(1) this]
    have "substr expr p (?e + 1 - p) = ''('' \<or> substr expr p (?e + 1 - p) = '')''" by blast
    moreover from ge assms(2) have "substr expr p (?e + 1 - p) ! 0 = expr ! p"
      by (simp add: substr_def)
    ultimately show False using False by auto
  qed
  then have "sym_parens [s] = []" using op(2) by (simp add: sym_parens_empty)
  moreover have "str_parens (drop p expr) = str_parens (drop (?e + 1) expr)"
  proof (rule str_parens_segment)
    show "\<forall>i. p \<le> i \<and> i < ?e + 1 \<longrightarrow> expr ! i \<noteq> CHR ''('' \<and> expr ! i \<noteq> CHR '')''"
    proof (intro allI impI)
      fix i assume i: "p \<le> i \<and> i < ?e + 1"
      show "expr ! i \<noteq> CHR ''('' \<and> expr ! i \<noteq> CHR '')''"
      proof (cases "i = p")
        case True
        with False show ?thesis by simp
      next
        case False
        with i have "p < i" "i \<le> ?e" by simp_all
        from operator_end_chars [OF this] show ?thesis
          by (auto simp: operator_tail_chars_def)
      qed
    qed
  qed (use ge lt in simp_all)
  ultimately show ?thesis using op(3) lt by simp
qed

lemma ParseValue_loop_bound:
  "ParseValue_loop f expr startpos operpos endpos = Inr (s, pos')
   \<Longrightarrow> \<exists>e0. endpos = Some e0 \<and> pos' \<le> Suc e0"
proof (induction f expr startpos operpos endpos rule: ParseValue_loop.induct)
  case (1 f expr startpos operpos endpos)
  from "1.prems" obtain e where e: "endpos = Some e"
    by (subst (asm) ParseValue_loop.simps) (auto split: option.splits)
  from "1.prems" e have ge: "\<not> e < startpos"
    by (subst (asm) ParseValue_loop.simps) (auto split: if_splits)
  show ?case
  proof (cases "ParseValueImpl f (substr expr startpos (e - startpos + 1))")
    case None
    let ?next = "case find_last_of expr sign_chars e of
                   None \<Rightarrow> None
                 | Some e1 \<Rightarrow> find_last_not_of expr (sign_chars @ whitespace) e1"
    from None "1.prems" e ge
    have "ParseValue_loop f expr startpos operpos ?next = Inr (s, pos')"
      by (subst (asm) ParseValue_loop.simps) simp
    from "1.IH" [OF e ge None this] obtain e2 where e2: "?next = Some e2" "pos' \<le> Suc e2"
      by blast
    then obtain e1 where "find_last_of expr sign_chars e = Some e1"
      "find_last_not_of expr (sign_chars @ whitespace) e1 = Some e2"
      by (auto split: option.splits)
    then have "e2 \<le> e" by (auto dest!: find_last_of_Some find_last_not_of_Some)
    with e e2 show ?thesis by simp
  next
    case (Some val)
    with "1.prems" e ge have "pos' = e + 1"
      by (subst (asm) ParseValue_loop.simps) (auto split: if_splits)
    with e show ?thesis by simp
  qed
qed

lemma GetNextSymbol_parens:
  assumes "GetNextSymbol f acc expr pos = Inr (Some (s, pos'))"
  shows "str_parens (drop pos expr) = sym_parens [s] @ str_parens (drop pos' expr)"
proof -
  from assms obtain p where
    p: "find_first_not_of expr whitespace pos = Some p" and
    r: "ParseOperator expr p = Inr (s, pos')
        \<or> (find_first_of expr operator_chars p \<noteq> Some p \<and>
           ParseValue_loop f expr p (find_first_of expr operator_chars p)
             (find_last_not_of expr whitespace
                (case find_first_of expr operator_chars p of
                   None \<Rightarrow> length expr | Some q \<Rightarrow> q - 1)) = Inr (s, pos'))"
    by (rule GetNextSymbol_cases)
  note pp = find_first_not_of_Some [OF p]
  have skip: "str_parens (drop pos expr) = str_parens (drop p expr)"
  proof (rule str_parens_segment)
    show "\<forall>i. pos \<le> i \<and> i < p \<longrightarrow> expr ! i \<noteq> CHR ''('' \<and> expr ! i \<noteq> CHR '')''"
    proof (intro allI impI)
      fix i assume "pos \<le> i \<and> i < p"
      then have "expr ! i \<in> set whitespace"
        using find_first_not_of_skipped [OF p] by blast
      then show "expr ! i \<noteq> CHR ''('' \<and> expr ! i \<noteq> CHR '')''"
        by (auto simp: whitespace_def)
    qed
  qed (use pp in simp_all)
  from r have "str_parens (drop p expr) = sym_parens [s] @ str_parens (drop pos' expr)"
  proof
    assume "ParseOperator expr p = Inr (s, pos')"
    from ParseOperator_parens [OF this] pp show ?thesis by simp
  next
    let ?operpos = "find_first_of expr operator_chars p"
    let ?b = "case ?operpos of None \<Rightarrow> length expr | Some q \<Rightarrow> q - 1"
    assume "?operpos \<noteq> Some p \<and>
      ParseValue_loop f expr p ?operpos (find_last_not_of expr whitespace ?b) = Inr (s, pos')"
    then have ne: "?operpos \<noteq> Some p" and
      loop: "ParseValue_loop f expr p ?operpos (find_last_not_of expr whitespace ?b)
               = Inr (s, pos')" by simp_all
    from ParseValue_loop_value [OF loop] have v: "p < pos'"
      "ParseValueImpl f (substr expr p (pos' - p)) = Some s" by simp_all
    from ParseValue_loop_bound [OF loop] obtain e0 where
      e0: "find_last_not_of expr whitespace ?b = Some e0" "pos' \<le> Suc e0" by blast
    note ee = find_last_not_of_Some [OF e0(1)]
    from ParseValueImpl_token [OF v(2)] have "\<not> is_paren s"
      by (auto dest: node_or_list_not_paren operator_not_paren)
    then have "sym_parens [s] = []" by (simp add: sym_parens_empty)
    moreover have "str_parens (drop p expr) = str_parens (drop pos' expr)"
    proof (rule str_parens_segment)
      show "\<forall>i. p \<le> i \<and> i < pos' \<longrightarrow> expr ! i \<noteq> CHR ''('' \<and> expr ! i \<noteq> CHR '')''"
      proof (intro allI impI)
        fix i assume i: "p \<le> i \<and> i < pos'"
        with e0(2) ee have ie: "i \<le> e0" "i < length expr" "i \<le> ?b" by simp_all
        have "expr ! i \<notin> set operator_chars"
        proof (cases ?operpos)
          case None
          from find_first_of_None [OF None] i ie show ?thesis by simp
        next
          case (Some q)
          from find_first_of_Some [OF Some] ne Some have "p < q" by (cases "p = q") auto
          with Some ie(3) have "i < q" by simp
          with find_first_of_skipped [OF Some] i show ?thesis by simp
        qed
        then show "expr ! i \<noteq> CHR ''('' \<and> expr ! i \<noteq> CHR '')''"
          by (auto simp: operator_chars_def)
      qed
    qed (use v e0 ee in simp_all)
    ultimately show ?thesis by simp
  qed
  with skip show ?thesis by simp
qed

lemma GetNextSymbol_end:
  assumes "GetNextSymbol f acc expr pos = Inr None"
  shows "str_parens (drop pos expr) = []"
proof -
  from assms have n: "find_first_not_of expr whitespace pos = None"
    by (auto simp: GetNextSymbol_def Let_def map_sum_def split: option.splits sum.splits)
  show ?thesis
    unfolding str_parens_empty
  proof
    fix c assume "c \<in> set (drop pos expr)"
    then obtain k where "k < length (drop pos expr)" "c = drop pos expr ! k"
      by (auto simp: in_set_conv_nth)
    then have "pos + k < length expr" "c = expr ! (pos + k)" by simp_all
    with find_first_not_of_None [OF n, of "pos + k"]
    show "c \<noteq> CHR ''('' \<and> c \<noteq> CHR '')''" by (auto simp: whitespace_def)
  qed
qed

lemma ParseSymbols_parens:
  "ParseSymbols f expr pos acc = Inr syms
   \<Longrightarrow> sym_parens syms = sym_parens acc @ str_parens (drop pos expr)"
proof (induction f expr pos acc rule: ParseSymbols.induct)
  case (1 f expr pos acc)
  show ?case
  proof (cases "GetNextSymbol f acc expr pos")
    case (Inl e)
    with "1.prems" show ?thesis by (subst (asm) ParseSymbols.simps) simp
  next
    case (Inr r)
    show ?thesis
    proof (cases r)
      case None
      with Inr "1.prems" have "syms = acc" by (subst (asm) ParseSymbols.simps) simp
      with Inr None GetNextSymbol_end [of f acc expr pos] show ?thesis by simp
    next
      case (Some sp)
      obtain s pos' where sp: "sp = (s, pos')" by (cases sp)
      with Inr Some "1.prems"(1) have rec: "ParseSymbols f expr pos' (acc @ [s]) = Inr syms"
        by (subst (asm) ParseSymbols.simps) simp
      from Inr Some sp
      have "str_parens (drop pos expr) = sym_parens [s] @ str_parens (drop pos' expr)"
        by (auto dest: GetNextSymbol_parens)
      with "1.IH" [OF Inr Some sp [symmetric] rec] show ?thesis by simp
    qed
  qed
qed

section \<open>The result of a parse\<close>

text \<open>
  C8. When the parentheses of the expression string do not match, in number or in order,
  \<^verbatim>\<open>Expression::Init\<close> ends in a fatal error, whatever the record source is.
\<close>

theorem unbalanced_parentheses_fatal:
  assumes "\<not> balanced_parentheses expString"
  shows "\<exists>e. Init f expString = Inl e"
proof (cases "Init f expString")
  case (Inl e)
  then show ?thesis by blast
next
  case (Inr ys)
  then obtain syms zs where
    syms: "ParseSymbols f expString 0 [] = Inr syms" and
    zs: "RecursiveParseExpression syms = Inr zs"
    by (auto simp: Init_def split: if_splits dest!: and_then_Inr)
  from ParseSymbols_parens [OF syms] have "sym_parens syms = str_parens expString" by simp
  moreover from parse_parentheses(1) zs have "balanced (sym_parens syms)" by blast
  ultimately have "balanced_parentheses expString" by (simp add: balanced_parentheses_def)
  with assms show ?thesis by simp
qed

theorem unbalanced_parentheses_fatal_witness:
  "\<not> balanced_parentheses ''(n + 1'' \<and> (\<exists>e. Init example_file ''(n + 1'' = Inl e) \<and>
   \<not> balanced_parentheses ''n + 1)'' \<and> (\<exists>e. Init example_file ''n + 1)'' = Inl e)"
proof -
  have a: "\<not> balanced_parentheses ''(n + 1''"
    by (simp add: balanced_parentheses_def balanced_def str_parens_def)
  have b: "\<not> balanced_parentheses ''n + 1)''"
    by (simp add: balanced_parentheses_def balanced_def str_parens_def)
  from unbalanced_parentheses_fatal [OF a, of example_file]
    unbalanced_parentheses_fatal [OF b, of example_file] a b
  show ?thesis by simp
qed

text \<open>
  C3, as the code has it. When \<^verbatim>\<open>Expression::Init\<close> returns, one symbol remains, and
  it is a node or a list: no operator, function or parenthesis is left over.
\<close>

theorem parse_leaves_node_or_list:
  assumes "Init f expString = Inr parsedSymbols"
  shows "\<exists>s. parsedSymbols = [s] \<and> ((\<exists>n. s = Node n) \<or> (\<exists>list. s = ListSymbol list))"
proof -
  from assms obtain syms where
    syms: "ParseSymbols f expString 0 [] = Inr syms" and
    zs: "RecursiveParseExpression syms = Inr parsedSymbols" and
    len: "length parsedSymbols = 1"
    by (auto simp: Init_def split: if_splits dest!: and_then_Inr)
  from ParseSymbols_well_formed [OF syms] have "well_formed syms" by simp
  with parse_parentheses(1) zs have all: "list_all node_or_list parsedSymbols" by blast
  from len obtain s where s: "parsedSymbols = [s]" by (cases parsedSymbols) auto
  with all have "node_or_list s" by simp
  then have "(\<exists>n. s = Node n) \<or> (\<exists>list. s = ListSymbol list)"
    by (cases s) simp_all
  with s show ?thesis by blast
qed

lemma list_tokens:
  "ParseSymbols example_file ''1,2'' 0 [] =
     Inr [Node (ConstNode (U64 1)), Symbol COMMA, Node (ConstNode (U64 2))]"
  by (simp add: tokenizer_defs string_defs numerical_defs example_file_def tokenizer_simps)

lemma list_init:
  "Init example_file ''1,2'' =
     Inr [ListSymbol [Node (ConstNode (U64 1)), Node (ConstNode (U64 2))]]"
  by (simp add: Init_def list_tokens parser_defs parser_simps)

theorem parse_leaves_node_or_list_witness:
  "Init example_file ''1,2''
     = Inr [ListSymbol [Node (ConstNode (U64 1)), Node (ConstNode (U64 2))]] \<and>
   (\<exists>s. [ListSymbol [Node (ConstNode (U64 1)), Node (ConstNode (U64 2))]] = [s] \<and>
        ((\<exists>n. s = Node n) \<or> (\<exists>list. s = ListSymbol list)))"
  using parse_leaves_node_or_list [OF list_init] list_init by simp

text \<open>
  C3, as the claim states it, fails for a sequence with commas at the top level:
  \<^verbatim>\<open>1,2\<close> is parsed without an error, and the symbol that remains is a list, not a
  node.
\<close>

theorem parse_leaves_list:
  "Init example_file ''1,2''
     = Inr [ListSymbol [Node (ConstNode (U64 1)), Node (ConstNode (U64 2))]] \<and>
   \<not> IsNode (ListSymbol [Node (ConstNode (U64 1)), Node (ConstNode (U64 2))]) \<and>
   GetType (ListSymbol [Node (ConstNode (U64 1)), Node (ConstNode (U64 2))]) = LIST"
  by (simp add: list_init IsNode_def)

end
